theory Spec2Isabelle
  imports Main "HOL-Library.Word" "HOL-Library.Numeral_Type"
begin

unbundle bit_operations_syntax

section \<open>Go values and outcomes\<close>

text \<open>
  A Go function either returns or panics.  A panic anywhere (also inside a goroutine)
  ends the process, so it is an outcome of its own, next to the returned value.
  A returned \<^verbatim>\<open>error\<close> is \<open>string option\<close>: \<open>None\<close> is \<^verbatim>\<open>nil\<close>, \<open>Some s\<close> is the
  error whose message is \<open>s\<close>.
\<close>

type_synonym byte = "8 word"

datatype 'a res = Panic string | Ret 'a

definition rbind :: "'a res \<Rightarrow> ('a \<Rightarrow> 'b res) \<Rightarrow> 'b res" where
  "rbind m f = (case m of Panic s \<Rightarrow> Panic s | Ret x \<Rightarrow> f x)"

type_synonym error = "string option"

text \<open>\<^verbatim>\<open>xs[0]\<close>, \<^verbatim>\<open>xs[:m]\<close> and \<^verbatim>\<open>xs[m:]\<close> of a Go slice (capacity taken equal to length).\<close>

definition index0 :: "'a list \<Rightarrow> 'a res" where
  "index0 xs = (case xs of [] \<Rightarrow> Panic ''index out of range'' | x # _ \<Rightarrow> Ret x)"

definition slice_to :: "'a list \<Rightarrow> int \<Rightarrow> 'a list res" where
  "slice_to xs m = (if m < 0 \<or> m > int (length xs) then Panic ''slice bounds out of range''
                    else Ret (take (nat m) xs))"

definition slice_from :: "'a list \<Rightarrow> int \<Rightarrow> 'a list res" where
  "slice_from xs m = (if m < 0 \<or> m > int (length xs) then Panic ''slice bounds out of range''
                      else Ret (drop (nat m) xs))"

text \<open>Go's integer division truncates towards zero.\<close>

definition go_quot :: "int \<Rightarrow> int \<Rightarrow> int" where
  "go_quot a b = sgn a * sgn b * (\<bar>a\<bar> div \<bar>b\<bar>)"

text \<open>Dereferencing a pointer that may be \<^verbatim>\<open>nil\<close>.\<close>

definition deref :: "'a option \<Rightarrow> 'a res" where
  "deref p = (case p of None \<Rightarrow> Panic ''nil pointer dereference'' | Some x \<Rightarrow> Ret x)"

text \<open>\<^verbatim>\<open>[]byte(s)\<close> for an ASCII string literal.\<close>

definition bytes_of_string :: "string \<Rightarrow> byte list" where
  "bytes_of_string s = map of_char s"

section \<open>Package common: the digest-to-field map\<close>

text \<open>\<^verbatim>\<open>binary.BigEndian.Uint64\<close> on a slice of eight bytes.\<close>

definition Uint64 :: "byte list \<Rightarrow> 64 word" where
  "Uint64 b = (ucast (b ! 7) OR push_bit 8 (ucast (b ! 6)) OR push_bit 16 (ucast (b ! 5))
     OR push_bit 24 (ucast (b ! 4)) OR push_bit 32 (ucast (b ! 3)) OR push_bit 40 (ucast (b ! 2))
     OR push_bit 48 (ucast (b ! 1)) OR push_bit 56 (ucast (b ! 0)))"

text \<open>\<^verbatim>\<open>bits.Sub64(x, y, borrow)\<close>: the difference and the borrow out.\<close>

definition Sub64 :: "64 word \<Rightarrow> 64 word \<Rightarrow> 64 word \<Rightarrow> 64 word \<times> 64 word" where
  "Sub64 x y borrow = (x - y - borrow, if unat x < unat y + unat borrow then 1 else 0)"

text \<open>\<^verbatim>\<open>fr.Element\<close> is \<^verbatim>\<open>[4]uint64\<close>, least significant limb first.\<close>

type_synonym fr_Element = "64 word \<times> 64 word \<times> 64 word \<times> 64 word"

definition feFrom256Bits :: "byte list \<Rightarrow> fr_Element res" where
  "feFrom256Bits bytes =
    (if length bytes \<noteq> 32 then Panic ''input should be 32 bytes''
     else
       let z0 = Uint64 (take 8 bytes);
           z1 = Uint64 (take 8 (drop 8 bytes));
           z2 = Uint64 (take 8 (drop 16 bytes));
           z3 = Uint64 (take 8 (drop 24 bytes));
           z3 = z3 mod 3486998266802970665
       in
         if \<not> (z3 < 3486998266802970665 \<or> (z3 = 3486998266802970665 \<and>
                (z2 < 13281191951274694749 \<or> (z2 = 13281191951274694749 \<and>
                (z1 < 2896914383306846353 \<or> (z1 = 2896914383306846353 \<and>
                 z0 < 4891460686036598785))))))
         then
           let (z0, b) = Sub64 z0 4891460686036598785 0;
               (z1, b) = Sub64 z1 2896914383306846353 b;
               (z2, b) = Sub64 z2 13281191951274694749 b;
               (z3, b) = Sub64 z3 3486998266802970665 b
           in Ret (z0, z1, z2, z3)
         else Ret (z0, z1, z2, z3))"

text \<open>The integer a limb vector denotes, and the modulus \<open>q\<close> of the scalar field of BN254.\<close>

definition limbs_value :: "fr_Element \<Rightarrow> int" where
  "limbs_value z = (case z of (z0, z1, z2, z3) \<Rightarrow>
     uint z0 + 2 ^ 64 * uint z1 + 2 ^ 128 * uint z2 + 2 ^ 192 * uint z3)"

definition bn254_q :: int where
  "bn254_q = 21888242871839275222246405745257275088548364400416034343698204186575808495617"

text \<open>The integer that a byte string denotes when read big-endian.\<close>

definition be_int :: "byte list \<Rightarrow> int" where
  "be_int bytes = foldl (\<lambda>acc b. 256 * acc + uint b) 0 bytes"

text \<open>
  The reading the specification gives of the digest-to-field map: the 32 bytes as one
  big-endian 256-bit integer, reduced modulo \<open>q\<close>.
\<close>

definition spec_digest_to_field :: "byte list \<Rightarrow> int" where
  "spec_digest_to_field digest = be_int digest mod bn254_q"

section \<open>The curve library\<close>

text \<open>
  The pairing library (\<^verbatim>\<open>github.com/IBM/mathlib\<close>, \<^verbatim>\<open>gnark-crypto\<close>), SHA-256 and the
  ASN.1 encoder are not part of the repository.  They are the fields of a record that every
  function of the model takes as its first argument.  \<open>'g1\<close>, \<open>'g2\<close> and \<open>'gt\<close> are the
  elements of the three groups; \<open>'ml\<close> is the type of the values of the Miller loop
  (\<^verbatim>\<open>Pairing\<close>), which the final exponentiation (\<^verbatim>\<open>FExp\<close>) takes into the target group.
  In Go both are \<^verbatim>\<open>*math.Gt\<close>; \<open>Ml_Mul\<close> is \<^verbatim>\<open>Gt.Mul\<close> on values of the Miller loop.

  \<open>fe_to_Zr\<close> is the conversion at the end of \<^verbatim>\<open>FieldElementFromBytes\<close>:
  \<^verbatim>\<open>c.NewZrFromBytes(common2.BigToBytes(fe.ToBigIntRegular(n)))\<close>.
\<close>

type_synonym Zr = int

record ('g1, 'g2, 'gt, 'ml) curve =
  GroupOrder :: int
  GenG1 :: 'g1
  GenG2 :: 'g2
  G1_Add :: "'g1 \<Rightarrow> 'g1 \<Rightarrow> 'g1"
  G1_Sub :: "'g1 \<Rightarrow> 'g1 \<Rightarrow> 'g1"
  G1_Mul :: "'g1 \<Rightarrow> Zr \<Rightarrow> 'g1"
  G1_Bytes :: "'g1 \<Rightarrow> byte list"
  G2_Add :: "'g2 \<Rightarrow> 'g2 \<Rightarrow> 'g2"
  G2_Mul :: "'g2 \<Rightarrow> Zr \<Rightarrow> 'g2"
  G2_Bytes :: "'g2 \<Rightarrow> byte list"
  Gt_Mul :: "'gt \<Rightarrow> 'gt \<Rightarrow> 'gt"
  Gt_Exp :: "'gt \<Rightarrow> Zr \<Rightarrow> 'gt"
  Gt_Inverse :: "'gt \<Rightarrow> 'gt"
  Gt_Bytes :: "'gt \<Rightarrow> byte list"
  Pairing :: "'g2 \<Rightarrow> 'g1 \<Rightarrow> 'ml"
  Ml_Mul :: "'ml \<Rightarrow> 'ml \<Rightarrow> 'ml"
  FExp :: "'ml \<Rightarrow> 'gt"
  HashToG1 :: "byte list \<Rightarrow> 'g1"
  HashToCurveG2Svdw :: "byte list \<Rightarrow> 'g2"
  sha256 :: "byte list \<Rightarrow> byte list"
  fe_to_Zr :: "fr_Element \<Rightarrow> Zr"
  Marshal_RawScalarProductProofElements :: "byte list \<Rightarrow> byte list \<Rightarrow> byte list"
  Marshal_RawProof :: "byte list list list \<Rightarrow> byte list list list \<Rightarrow> byte list \<Rightarrow> byte list"

subsection \<open>Scalars\<close>

text \<open>
  \<^verbatim>\<open>math.Zr\<close> wraps a \<^verbatim>\<open>big.Int\<close>: \<^verbatim>\<open>Plus\<close> adds without reducing, \<^verbatim>\<open>Mul\<close> multiplies
  and reduces modulo the group order, \<^verbatim>\<open>Mod\<close> reduces, \<^verbatim>\<open>Equals\<close> compares the integers
  (it is \<open>=\<close> in the model), \<^verbatim>\<open>InvModP\<close> is \<^verbatim>\<open>big.Int.ModInverse\<close>, which leaves its receiver
  unchanged when there is no inverse.
\<close>

definition Zr_Plus :: "Zr \<Rightarrow> Zr \<Rightarrow> Zr" where
  "Zr_Plus x y = x + y"

definition Zr_Mul :: "('g1, 'g2, 'gt, 'ml) curve \<Rightarrow> Zr \<Rightarrow> Zr \<Rightarrow> Zr" where
  "Zr_Mul env x y = (x * y) mod GroupOrder env"

definition Zr_Mod :: "Zr \<Rightarrow> int \<Rightarrow> Zr" where
  "Zr_Mod x m = x mod m"

definition ModSub :: "Zr \<Rightarrow> Zr \<Rightarrow> int \<Rightarrow> Zr" where
  "ModSub x y m = (x - y) mod m"

definition InvModP :: "Zr \<Rightarrow> int \<Rightarrow> Zr" where
  "InvModP x p = (if coprime x p then fst (bezw (nat (x mod p)) (nat p)) mod p else x)"

subsection \<open>Vectors of group elements (package common)\<close>

definition e :: "('g1, 'g2, 'gt, 'ml) curve \<Rightarrow> 'g1 \<Rightarrow> 'g2 \<Rightarrow> 'gt" where
  "e env g1 g2 = FExp env (Pairing env g2 g1)"

definition G1v_Add :: "('g1, 'g2, 'gt, 'ml) curve \<Rightarrow> 'g1 list \<Rightarrow> 'g1 list \<Rightarrow> 'g1 list res" where
  "G1v_Add env g1v g1v2 =
     (if length g1v2 < length g1v then Panic ''index out of range''
      else Ret (map (\<lambda>(x, y). G1_Add env x y) (zip g1v g1v2)))"

definition G1v_Neg :: "('g1, 'g2, 'gt, 'ml) curve \<Rightarrow> 'g1 list \<Rightarrow> 'g1 list" where
  "G1v_Neg env g1v =
     (let zero = G1_Sub env (GenG1 env) (GenG1 env) in map (\<lambda>x. G1_Sub env zero x) g1v)"

definition G1v_Mul :: "('g1, 'g2, 'gt, 'ml) curve \<Rightarrow> 'g1 list \<Rightarrow> Zr \<Rightarrow> 'g1 list" where
  "G1v_Mul env g1v x = map (\<lambda>g. G1_Mul env g x) g1v"

definition G1v_Bytes :: "('g1, 'g2, 'gt, 'ml) curve \<Rightarrow> 'g1 list \<Rightarrow> byte list" where
  "G1v_Bytes env g1v = concat (map (G1_Bytes env) g1v)"

definition G1v_Duplicate :: "'g1 list \<Rightarrow> int \<Rightarrow> 'g1 list res" where
  "G1v_Duplicate g1v n =
     (if length g1v \<noteq> 1 then Panic ''length should be 1'' else Ret (replicate (nat n) (g1v ! 0)))"

definition G2v_Mulv :: "('g1, 'g2, 'gt, 'ml) curve \<Rightarrow> 'g2 list \<Rightarrow> Zr list \<Rightarrow> 'g2 list res" where
  "G2v_Mulv env g2v x =
     (if length x < length g2v then Panic ''index out of range''
      else Ret (map (\<lambda>(g, k). G2_Mul env g k) (zip g2v x)))"

definition G2v_Duplicate :: "'g2 list \<Rightarrow> int \<Rightarrow> 'g2 list res" where
  "G2v_Duplicate g2v n =
     (if length g2v \<noteq> 1 then Panic ''length should be 1'' else Ret (replicate (nat n) (g2v ! 0)))"

definition G2v_Add :: "('g1, 'g2, 'gt, 'ml) curve \<Rightarrow> 'g2 list \<Rightarrow> 'g2 list \<Rightarrow> 'g2 list res" where
  "G2v_Add env g2v g2v2 =
     (if length g2v2 < length g2v then Panic ''index out of range''
      else Ret (map (\<lambda>(x, y). G2_Add env x y) (zip g2v g2v2)))"

definition G2v_Mul :: "('g1, 'g2, 'gt, 'ml) curve \<Rightarrow> 'g2 list \<Rightarrow> Zr \<Rightarrow> 'g2 list" where
  "G2v_Mul env g2v x = map (\<lambda>g. G2_Mul env g x) g2v"

definition G2v_Bytes :: "('g1, 'g2, 'gt, 'ml) curve \<Rightarrow> 'g2 list \<Rightarrow> byte list" where
  "G2v_Bytes env g2v = concat (map (G2_Bytes env) g2v)"

definition G2v_Sum :: "('g1, 'g2, 'gt, 'ml) curve \<Rightarrow> 'g2 list \<Rightarrow> 'g2 res" where
  "G2v_Sum env g2v =
     (case g2v of [] \<Rightarrow> Panic ''index out of range'' | g # gs \<Rightarrow> Ret (foldl (G2_Add env) g gs))"

definition InnerProd :: "('g1, 'g2, 'gt, 'ml) curve \<Rightarrow> 'g1 list \<Rightarrow> 'g2 list \<Rightarrow> 'gt res" where
  "InnerProd env g1v g2v =
     (if length g1v \<noteq> length g2v then Panic ''length mismatch''
      else if length g1v = 0 \<or> length g2v = 0 then Panic ''empty vectors''
      else if length g1v = 1 then Ret (e env (g1v ! 0) (g2v ! 0))
      else Ret (FExp env (foldl (Ml_Mul env) (Pairing env (g2v ! 0) (g1v ! 0))
                  (map (\<lambda>(b, a). Pairing env b a) (zip (tl g2v) (tl g1v))))))"

text \<open>The package-level generator \<^verbatim>\<open>h\<close>, read through \<^verbatim>\<open>H()\<close>.\<close>

definition H :: "('g1, 'g2, 'gt, 'ml) curve \<Rightarrow> 'g1" where
  "H env = HashToG1 env (sha256 env (bytes_of_string ''DualDory''))"

definition FieldElementFromBytes :: "('g1, 'g2, 'gt, 'ml) curve \<Rightarrow> byte list \<Rightarrow> Zr res" where
  "FieldElementFromBytes env digest = rbind (feFrom256Bits digest) (\<lambda>fe. Ret (fe_to_Zr env fe))"

text \<open>\<^verbatim>\<open>hashToZr\<close> of the packages tag and threshold: every part is written to one hash.\<close>

definition hashToZr :: "('g1, 'g2, 'gt, 'ml) curve \<Rightarrow> byte list list \<Rightarrow> Zr res" where
  "hashToZr env ins = FieldElementFromBytes env (sha256 env (concat ins))"

section \<open>Package dory\<close>

record ('g1, 'g2, 'gt) ReducePP =
  Gamma1Prime :: "'g1 list"
  Gamma2Prime :: "'g2 list"
  Delta1R :: "'gt option"
  Delta1L :: "'gt option"
  Delta2R :: "'gt option"
  Delta2L :: "'gt option"

text \<open>\<^verbatim>\<open>PP\<close> embeds \<^verbatim>\<open>ReducePP\<close>; the embedded struct is the field \<open>ReducePP\<close>.\<close>

record ('g1, 'g2, 'gt) PP =
  pp_digest :: "byte list"
  ReducePP :: "('g1, 'g2, 'gt) ReducePP"
  Gamma1 :: "'g1 list"
  Gamma2 :: "'g2 list"
  chi :: 'gt

record ('g1, 'g2) Witness =
  w_V1 :: "'g1 list"
  w_V2 :: "'g2 list"

record 'gt Commitment =
  cmt_C :: 'gt
  cmt_D1 :: 'gt
  cmt_D2 :: 'gt

record ('g1, 'g2, 'gt) ScalarProductProofElements =
  sppe_PP :: "('g1, 'g2, 'gt) PP option"
  sppe_E1 :: "'g1 list"
  sppe_E2 :: "'g2 list"

record 'gt ReduceProverStep1Elements =
  s1_ppDigest :: "byte list"
  s1_digest :: "byte list"
  s1_D1L :: 'gt
  s1_D1R :: 'gt
  s1_D2L :: 'gt
  s1_D2R :: 'gt
  s1_C :: 'gt
  s1_D1 :: 'gt
  s1_D2 :: 'gt

record 'gt ReduceProverStep2Elements =
  s2_ReduceProverStep1ElementsDigest :: "byte list"
  s2_Cplus :: 'gt
  s2_Cminus :: 'gt

record ('g1, 'g2, 'gt) Proof =
  Step1Elements :: "'gt ReduceProverStep1Elements list"
  Step2Elements :: "'gt ReduceProverStep2Elements list"
  proof_ScalarProductProofElements :: "('g1, 'g2, 'gt) ScalarProductProofElements"
  proof_digest :: "byte list"

definition sha256Digest :: "('g1, 'g2, 'gt, 'ml) curve \<Rightarrow> byte list list \<Rightarrow> byte list" where
  "sha256Digest env ins = sha256 env (concat ins)"

definition inverse_Zr :: "('g1, 'g2, 'gt, 'ml) curve \<Rightarrow> Zr \<Rightarrow> Zr" where
  "inverse_Zr env x = InvModP x (GroupOrder env)"

definition mulGt :: "('g1, 'g2, 'gt, 'ml) curve \<Rightarrow> 'gt list \<Rightarrow> 'gt res" where
  "mulGt env xs = (case xs of [] \<Rightarrow> Panic ''index out of range''
                   | x # rest \<Rightarrow> Ret (foldl (Gt_Mul env) x rest))"

definition addG1 :: "('g1, 'g2, 'gt, 'ml) curve \<Rightarrow> 'g1 list \<Rightarrow> 'g1 res" where
  "addG1 env xs = (case xs of [] \<Rightarrow> Panic ''index out of range''
                   | x # rest \<Rightarrow> Ret (foldl (G1_Add env) x rest))"

definition addG2 :: "('g1, 'g2, 'gt, 'ml) curve \<Rightarrow> 'g2 list \<Rightarrow> 'g2 res" where
  "addG2 env xs = (case xs of [] \<Rightarrow> Panic ''index out of range''
                   | x # rest \<Rightarrow> Ret (foldl (G2_Add env) x rest))"

text \<open>\<^verbatim>\<open>{byte(n), byte(n >> 8)}\<close> for a Go \<^verbatim>\<open>int\<close>.\<close>

definition le16 :: "int \<Rightarrow> byte list" where
  "le16 n = [word_of_int n, word_of_int (n div 256)]"

definition psuedoRandomG1 :: "('g1, 'g2, 'gt, 'ml) curve \<Rightarrow> int \<Rightarrow> int \<Rightarrow> 'g1" where
  "psuedoRandomG1 env n i =
     HashToG1 env (sha256Digest env [bytes_of_string ''Dory'', le16 n, le16 i])"

definition psuedoRandomG2 :: "('g1, 'g2, 'gt, 'ml) curve \<Rightarrow> int \<Rightarrow> int \<Rightarrow> 'g2" where
  "psuedoRandomG2 env n i =
     HashToCurveG2Svdw env (sha256Digest env [bytes_of_string ''Dory'', le16 n, le16 i])"

definition randomG1Vector :: "('g1, 'g2, 'gt, 'ml) curve \<Rightarrow> int \<Rightarrow> 'g1 list res" where
  "randomG1Vector env n =
     (if n < 0 then Panic ''makeslice: len out of range''
      else Ret (map (\<lambda>i. psuedoRandomG1 env n (int i)) [0..<nat n]))"

definition randomG2Vector :: "('g1, 'g2, 'gt, 'ml) curve \<Rightarrow> int \<Rightarrow> 'g2 list res" where
  "randomG2Vector env n =
     (if n < 0 then Panic ''makeslice: len out of range''
      else Ret (map (\<lambda>i. psuedoRandomG2 env n (int i)) [0..<nat n]))"

text \<open>The zero value \<^verbatim>\<open>ReducePP{}\<close>.\<close>

definition ReducePP_zero :: "('g1, 'g2, 'gt) ReducePP" where
  "ReducePP_zero = \<lparr>Gamma1Prime = [], Gamma2Prime = [], Delta1R = None, Delta1L = None,
                     Delta2R = None, Delta2L = None\<rparr>"

definition ReducePP_Digest ::
  "('g1, 'g2, 'gt, 'ml) curve \<Rightarrow> ('g1, 'g2, 'gt) ReducePP \<Rightarrow> byte list res" where
  "ReducePP_Digest env rpp =
     rbind (deref (Delta1R rpp)) (\<lambda>d1r.
     rbind (deref (Delta1L rpp)) (\<lambda>d1l.
     rbind (deref (Delta2R rpp)) (\<lambda>d2r.
     rbind (deref (Delta2L rpp)) (\<lambda>d2l.
       Ret (sha256 env (G1v_Bytes env (Gamma1Prime rpp) @ G2v_Bytes env (Gamma2Prime rpp)
              @ Gt_Bytes env d1r @ Gt_Bytes env d1l @ Gt_Bytes env d2r @ Gt_Bytes env d2l))))))"

definition PP_Digest ::
  "('g1, 'g2, 'gt, 'ml) curve \<Rightarrow> ('g1, 'g2, 'gt) PP \<Rightarrow> byte list \<Rightarrow> byte list res" where
  "PP_Digest env pp prevDigest =
     (if length (pp_digest pp) > 0 then Ret (pp_digest pp)
      else
        rbind (if length (Gamma1 pp) \<noteq> 1 \<and> length (Gamma2 pp) \<noteq> 1
               then ReducePP_Digest env (ReducePP pp) else Ret []) (\<lambda>rd.
          Ret (sha256 env ((if length prevDigest > 0 then prevDigest else []) @ rd
                 @ Gt_Bytes env (chi pp) @ G1v_Bytes env (Gamma1 pp) @ G2v_Bytes env (Gamma2 pp)))))"

definition reducePP ::
  "('g1, 'g2, 'gt, 'ml) curve \<Rightarrow> ('g1, 'g2, 'gt) PP \<Rightarrow> int \<Rightarrow> ('g1, 'g2, 'gt) ReducePP res" where
  "reducePP env pp n =
     (if n = 1 then Ret ReducePP_zero
      else
        let m = go_quot n 2 in
        rbind (slice_to (Gamma1 pp) m) (\<lambda>G1L.
        rbind (slice_from (Gamma1 pp) m) (\<lambda>G1R.
        rbind (slice_to (Gamma2 pp) m) (\<lambda>G2L.
        rbind (slice_from (Gamma2 pp) m) (\<lambda>G2R.
        rbind (randomG1Vector env m) (\<lambda>G1Prime.
        rbind (randomG2Vector env m) (\<lambda>G2Prime.
        rbind (InnerProd env G1L G2Prime) (\<lambda>D1L.
        rbind (InnerProd env G1R G2Prime) (\<lambda>D1R.
        rbind (InnerProd env G1Prime G2L) (\<lambda>D2L.
        rbind (InnerProd env G1Prime G2R) (\<lambda>D2R.
          Ret \<lparr>Gamma1Prime = G1Prime, Gamma2Prime = G2Prime, Delta1R = Some D1R,
               Delta1L = Some D1L, Delta2R = Some D2R, Delta2L = Some D2L\<rparr>)))))))))))"

definition NewPublicParams :: "('g1, 'g2, 'gt, 'ml) curve \<Rightarrow> int \<Rightarrow> ('g1, 'g2, 'gt) PP res" where
  "NewPublicParams env n =
     rbind (randomG1Vector env n) (\<lambda>G1.
     rbind (randomG2Vector env n) (\<lambda>G2.
     rbind (InnerProd env G1 G2) (\<lambda>x.
       let pp = \<lparr>pp_digest = [], ReducePP = ReducePP_zero, Gamma1 = G1, Gamma2 = G2, chi = x\<rparr> in
       rbind (reducePP env pp n) (\<lambda>r.
         let pp = pp\<lparr>ReducePP := r\<rparr> in
         rbind (PP_Digest env pp []) (\<lambda>dg. Ret (pp\<lparr>pp_digest := dg\<rparr>))))))"

text \<open>The method \<^verbatim>\<open>(pp PP) NewPublicParams(n)\<close>: the next, half-size level.\<close>

definition PP_NewPublicParams ::
  "('g1, 'g2, 'gt, 'ml) curve \<Rightarrow> ('g1, 'g2, 'gt) PP \<Rightarrow> int \<Rightarrow> ('g1, 'g2, 'gt) PP res" where
  "PP_NewPublicParams env pp n =
     (if int (length (Gamma1 pp)) \<noteq> 2 * n \<or> int (length (Gamma2 pp)) \<noteq> 2 * n
      then Panic ''recursive public parameters should be twice as the public parameters it is derived from''
      else
        let G1 = Gamma1Prime (ReducePP pp); G2 = Gamma2Prime (ReducePP pp) in
        rbind (InnerProd env G1 G2) (\<lambda>x.
          let pp2 = \<lparr>pp_digest = [], ReducePP = ReducePP_zero, Gamma1 = G1, Gamma2 = G2, chi = x\<rparr> in
          rbind (reducePP env pp2 n) (\<lambda>r.
            let pp2 = pp2\<lparr>ReducePP := r\<rparr> in
            rbind (PP_Digest env pp2 (pp_digest pp)) (\<lambda>dg. Ret (pp2\<lparr>pp_digest := dg\<rparr>)))))"

text \<open>The loop of \<^verbatim>\<open>GeneratePublicParams\<close>, with its variables \<open>n\<close>, \<open>pp\<close> and \<open>res\<close>.\<close>

function GeneratePublicParams_loop ::
  "('g1, 'g2, 'gt, 'ml) curve \<Rightarrow> int \<Rightarrow> ('g1, 'g2, 'gt) PP \<Rightarrow> ('g1, 'g2, 'gt) PP list
     \<Rightarrow> ('g1, 'g2, 'gt) PP list res" where
  "GeneratePublicParams_loop env n pp res =
     (if n > 0 then
        (let res = res @ [pp] in
         if go_quot n 2 = 0 then Ret res
         else rbind (PP_NewPublicParams env pp (go_quot n 2)) (\<lambda>pp.
                GeneratePublicParams_loop env (go_quot n 2) pp res))
      else Ret res)"
  by pat_completeness auto
termination
  by (relation "measure (\<lambda>(env, n, pp, res). nat n)") (auto simp: go_quot_def)

declare GeneratePublicParams_loop.simps [simp del]

definition GeneratePublicParams ::
  "('g1, 'g2, 'gt, 'ml) curve \<Rightarrow> int \<Rightarrow> ('g1, 'g2, 'gt) PP list res" where
  "GeneratePublicParams env n =
     rbind (NewPublicParams env n) (\<lambda>pp. GeneratePublicParams_loop env n pp [])"

definition Commit ::
  "('g1, 'g2, 'gt, 'ml) curve \<Rightarrow> 'g1 list \<Rightarrow> 'g2 list \<Rightarrow> ('g1, 'g2, 'gt) PP
     \<Rightarrow> ('gt Commitment \<times> ('g1, 'g2) Witness) res" where
  "Commit env v1 v2 pp =
     rbind (InnerProd env v1 (Gamma2 pp)) (\<lambda>D1.
     rbind (InnerProd env (Gamma1 pp) v2) (\<lambda>D2.
     rbind (InnerProd env v1 v2) (\<lambda>C.
       Ret (\<lparr>cmt_C = C, cmt_D1 = D1, cmt_D2 = D2\<rparr>, \<lparr>w_V1 = v1, w_V2 = v2\<rparr>))))"

subsection \<open>Proof elements, their encodings and the random oracle\<close>

definition ScalarProductProofElements_Bytes ::
  "('g1, 'g2, 'gt, 'ml) curve \<Rightarrow> ('g1, 'g2, 'gt) ScalarProductProofElements \<Rightarrow> byte list" where
  "ScalarProductProofElements_Bytes env sppe =
     Marshal_RawScalarProductProofElements env (G1v_Bytes env (sppe_E1 sppe))
       (G2v_Bytes env (sppe_E2 sppe))"

definition Step1_Bytes ::
  "('g1, 'g2, 'gt, 'ml) curve \<Rightarrow> 'gt ReduceProverStep1Elements \<Rightarrow> byte list list" where
  "Step1_Bytes env x =
     [s1_ppDigest x, Gt_Bytes env (s1_D1L x), Gt_Bytes env (s1_D1R x), Gt_Bytes env (s1_D2L x),
      Gt_Bytes env (s1_D2R x), Gt_Bytes env (s1_C x), Gt_Bytes env (s1_D1 x),
      Gt_Bytes env (s1_D2 x)]"

text \<open>
  \<^verbatim>\<open>RO\<close> of step 1 has a pointer receiver: it stores the digest in the struct and returns
  the challenge.  The model returns the challenge and the updated struct.
\<close>

definition Step1_RO ::
  "('g1, 'g2, 'gt, 'ml) curve \<Rightarrow> 'gt ReduceProverStep1Elements
     \<Rightarrow> (Zr \<times> 'gt ReduceProverStep1Elements) res" where
  "Step1_RO env x =
     (let x = x\<lparr>s1_digest := sha256Digest env (Step1_Bytes env x)\<rparr> in
      rbind (FieldElementFromBytes env (s1_digest x)) (\<lambda>c. Ret (c, x)))"

definition Step2_Bytes ::
  "('g1, 'g2, 'gt, 'ml) curve \<Rightarrow> 'gt ReduceProverStep2Elements \<Rightarrow> byte list list res" where
  "Step2_Bytes env x =
     (if length (s2_ReduceProverStep1ElementsDigest x) = 0
      then Panic ''un-initialized ReduceProverStep1ElementsDigest''
      else Ret [Gt_Bytes env (s2_Cplus x), Gt_Bytes env (s2_Cminus x),
                s2_ReduceProverStep1ElementsDigest x])"

definition Step2_RO ::
  "('g1, 'g2, 'gt, 'ml) curve \<Rightarrow> 'gt ReduceProverStep2Elements \<Rightarrow> Zr res" where
  "Step2_RO env x =
     rbind (Step2_Bytes env x) (\<lambda>bs. FieldElementFromBytes env (sha256Digest env bs))"

text \<open>The loop \<^verbatim>\<open>for _, e := range p.Step2Elements\<close> of \<^verbatim>\<open>Proof.Bytes\<close>.\<close>

fun Step2_Bytes_all ::
  "('g1, 'g2, 'gt, 'ml) curve \<Rightarrow> 'gt ReduceProverStep2Elements list \<Rightarrow> byte list list list res" where
  "Step2_Bytes_all env [] = Ret []"
| "Step2_Bytes_all env (x # xs) =
     rbind (Step2_Bytes env x) (\<lambda>b. rbind (Step2_Bytes_all env xs) (\<lambda>bs. Ret (b # bs)))"

definition Proof_Bytes ::
  "('g1, 'g2, 'gt, 'ml) curve \<Rightarrow> ('g1, 'g2, 'gt) Proof \<Rightarrow> byte list res" where
  "Proof_Bytes env p =
     (let sp = ScalarProductProofElements_Bytes env (proof_ScalarProductProofElements p);
          b1 = map (Step1_Bytes env) (Step1Elements p)
      in rbind (Step2_Bytes_all env (Step2Elements p)) (\<lambda>b2. Ret (Marshal_RawProof env b1 b2 sp)))"

definition Proof_Digest ::
  "('g1, 'g2, 'gt, 'ml) curve \<Rightarrow> ('g1, 'g2, 'gt) Proof \<Rightarrow> byte list res" where
  "Proof_Digest env p =
     (if length (proof_digest p) = 0
      then rbind (Proof_Bytes env p) (\<lambda>b. Ret (sha256Digest env [b]))
      else Ret (proof_digest p))"

subsection \<open>The scalar-product base case\<close>

definition ScalarProductProof ::
  "('g1, 'g2, 'gt) PP \<Rightarrow> ('g1, 'g2) Witness \<Rightarrow> ('g1, 'g2, 'gt) ScalarProductProofElements" where
  "ScalarProductProof pp w = \<lparr>sppe_PP = Some pp, sppe_E1 = w_V1 w, sppe_E2 = w_V2 w\<rparr>"

text \<open>
  \<^verbatim>\<open>ScalarProductProofElements.Verify\<close>.  The scalar \<open>d\<close> is the value that
  \<^verbatim>\<open>randomFE()\<close> draws.  The pointer \<^verbatim>\<open>sppe.PP\<close> is loaded before the vectors are
  indexed, so a nil pointer is met before an empty \<^verbatim>\<open>E1\<close>.
\<close>

definition ScalarProductProofElements_Verify ::
  "('g1, 'g2, 'gt, 'ml) curve \<Rightarrow> Zr \<Rightarrow> ('g1, 'g2, 'gt) ScalarProductProofElements
     \<Rightarrow> 'gt Commitment \<Rightarrow> error res" where
  "ScalarProductProofElements_Verify env d sppe cmt =
     (let C = cmt_C cmt; D1 = cmt_D1 cmt; D2 = cmt_D2 cmt;
          dInv = inverse_Zr env d
      in
      rbind (deref (sppe_PP sppe)) (\<lambda>pp.
      rbind (index0 (sppe_E1 sppe)) (\<lambda>E1_0.
      rbind (index0 (Gamma1 pp)) (\<lambda>G1_0.
      rbind (addG1 env [E1_0, G1_Mul env G1_0 d]) (\<lambda>l1.
      rbind (index0 (sppe_E2 sppe)) (\<lambda>E2_0.
      rbind (index0 (Gamma2 pp)) (\<lambda>G2_0.
      rbind (addG2 env [E2_0, G2_Mul env G2_0 (inverse_Zr env d)]) (\<lambda>l2.
        let leftEq = e env l1 l2 in
        rbind (mulGt env [chi pp, C, Gt_Exp env D2 d, Gt_Exp env D1 dInv]) (\<lambda>rightEq.
          if leftEq = rightEq then Ret None else Ret (Some ''proof invalid''))))))))))"

subsection \<open>The reduction: verifier and prover\<close>

text \<open>The commitment of the next level; prover and verifier compute it by the same lines.\<close>

definition nextCommitment ::
  "('g1, 'g2, 'gt, 'ml) curve \<Rightarrow> ('g1, 'g2, 'gt) PP \<Rightarrow> 'gt Commitment
     \<Rightarrow> 'gt ReduceProverStep1Elements \<Rightarrow> 'gt \<Rightarrow> 'gt \<Rightarrow> Zr \<Rightarrow> Zr \<Rightarrow> 'gt Commitment res" where
  "nextCommitment env pp commitment step1Elements Cplus Cminus \<alpha> \<beta> =
     (let inverse_\<alpha> = inverse_Zr env \<alpha>;
          inverse_\<beta> = inverse_Zr env \<beta>;
          D1L = s1_D1L step1Elements;
          D1R = s1_D1R step1Elements;
          D2L = s1_D2L step1Elements;
          D2R = s1_D2R step1Elements
      in
      rbind (mulGt env [cmt_C commitment, chi pp, Gt_Exp env (cmt_D2 commitment) \<beta>,
                        Gt_Exp env (cmt_D1 commitment) inverse_\<beta>, Gt_Exp env Cplus \<alpha>,
                        Gt_Exp env Cminus inverse_\<alpha>]) (\<lambda>Cprime.
      rbind (deref (Delta1L (ReducePP pp))) (\<lambda>\<Delta>1L.
      rbind (deref (Delta1R (ReducePP pp))) (\<lambda>\<Delta>1R.
      rbind (mulGt env [Gt_Exp env D1L \<alpha>, D1R, Gt_Exp env (Gt_Exp env \<Delta>1L \<alpha>) \<beta>,
                        Gt_Exp env \<Delta>1R \<beta>]) (\<lambda>D1prime.
      rbind (deref (Delta2L (ReducePP pp))) (\<lambda>\<Delta>2L.
      rbind (deref (Delta2R (ReducePP pp))) (\<lambda>\<Delta>2R.
      rbind (mulGt env [Gt_Exp env D2L inverse_\<alpha>, D2R,
                        Gt_Exp env (Gt_Exp env \<Delta>2L inverse_\<alpha>) inverse_\<beta>,
                        Gt_Exp env \<Delta>2R inverse_\<beta>]) (\<lambda>D2prime.
        Ret \<lparr>cmt_C = Cprime, cmt_D1 = D1prime, cmt_D2 = D2prime\<rparr>))))))))"

fun verifyReduce ::
  "('g1, 'g2, 'gt, 'ml) curve \<Rightarrow> Zr \<Rightarrow> ('g1, 'g2, 'gt) PP list \<Rightarrow> 'gt Commitment
     \<Rightarrow> 'gt ReduceProverStep1Elements list \<Rightarrow> 'gt ReduceProverStep2Elements list
     \<Rightarrow> ('g1, 'g2, 'gt) ScalarProductProofElements \<Rightarrow> error res" where
  "verifyReduce env d [] commitment fromProver1 fromProver2 finalProof =
     Panic ''index out of range''"
| "verifyReduce env d [pp] commitment fromProver1 fromProver2 finalProof =
     ScalarProductProofElements_Verify env d finalProof commitment"
| "verifyReduce env d (pp # pp' # pps) commitment fromProver1 fromProver2 finalProof =
     rbind (index0 fromProver1) (\<lambda>fp1.
       let step1Elements =
             \<lparr>s1_ppDigest = pp_digest pp, s1_digest = [],
              s1_D1L = s1_D1L fp1, s1_D1R = s1_D1R fp1, s1_D2L = s1_D2L fp1, s1_D2R = s1_D2R fp1,
              s1_C = cmt_C commitment, s1_D1 = cmt_D1 commitment, s1_D2 = cmt_D2 commitment\<rparr>
       in
       rbind (Step1_RO env step1Elements) (\<lambda>(\<beta>, step1Elements).
       rbind (index0 fromProver2) (\<lambda>fp2.
         let step2Elements =
               \<lparr>s2_ReduceProverStep1ElementsDigest = s1_digest step1Elements,
                s2_Cplus = s2_Cplus fp2, s2_Cminus = s2_Cminus fp2\<rparr>
         in
         rbind (Step2_RO env step2Elements) (\<lambda>\<alpha>.
         rbind (nextCommitment env pp commitment step1Elements (s2_Cplus fp2) (s2_Cminus fp2)
                  \<alpha> \<beta>) (\<lambda>nextCmt.
           verifyReduce env d (pp' # pps) nextCmt (tl fromProver1) (tl fromProver2)
             finalProof)))))"

definition VerifyReduce ::
  "('g1, 'g2, 'gt, 'ml) curve \<Rightarrow> Zr \<Rightarrow> ('g1, 'g2, 'gt) PP list \<Rightarrow> 'gt Commitment
     \<Rightarrow> ('g1, 'g2, 'gt) Proof \<Rightarrow> error res" where
  "VerifyReduce env d pps commitment proof =
     verifyReduce env d pps commitment (Step1Elements proof) (Step2Elements proof)
       (proof_ScalarProductProofElements proof)"

fun reduce ::
  "('g1, 'g2, 'gt, 'ml) curve \<Rightarrow> ('g1, 'g2, 'gt) PP list \<Rightarrow> ('g1, 'g2) Witness \<Rightarrow> 'gt Commitment
     \<Rightarrow> ('gt ReduceProverStep1Elements list \<times> 'gt ReduceProverStep2Elements list
          \<times> ('g1, 'g2, 'gt) ScalarProductProofElements) res" where
  "reduce env [] w commitment = Panic ''index out of range''"
| "reduce env (pp # pps) w commitment =
     (let m = go_quot (int (length (Gamma1 pp))) 2;
          \<Gamma>1Prime = Gamma1Prime (ReducePP pp);
          \<Gamma>2Prime = Gamma2Prime (ReducePP pp)
      in
      rbind (slice_to (w_V1 w) m) (\<lambda>v1L.
      rbind (slice_from (w_V1 w) m) (\<lambda>v1R.
      rbind (slice_to (w_V2 w) m) (\<lambda>v2L.
      rbind (slice_from (w_V2 w) m) (\<lambda>v2R.
      rbind (InnerProd env v1L \<Gamma>2Prime) (\<lambda>D1L.
      rbind (InnerProd env v1R \<Gamma>2Prime) (\<lambda>D1R.
      rbind (InnerProd env \<Gamma>1Prime v2L) (\<lambda>D2L.
      rbind (InnerProd env \<Gamma>1Prime v2R) (\<lambda>D2R.
        let step1Elements =
              \<lparr>s1_ppDigest = pp_digest pp, s1_digest = [],
               s1_D1L = D1L, s1_D1R = D1R, s1_D2L = D2L, s1_D2R = D2R,
               s1_C = cmt_C commitment, s1_D1 = cmt_D1 commitment, s1_D2 = cmt_D2 commitment\<rparr>
        in
        rbind (Step1_RO env step1Elements) (\<lambda>(\<beta>, step1Elements).
          let inverse_\<beta> = inverse_Zr env \<beta> in
          rbind (G1v_Add env (w_V1 w) (G1v_Mul env (Gamma1 pp) \<beta>)) (\<lambda>v1.
          rbind (G2v_Add env (w_V2 w) (G2v_Mul env (Gamma2 pp) inverse_\<beta>)) (\<lambda>v2.
          rbind (slice_to v1 m) (\<lambda>v1L.
          rbind (slice_from v1 m) (\<lambda>v1R.
          rbind (slice_to v2 m) (\<lambda>v2L.
          rbind (slice_from v2 m) (\<lambda>v2R.
          rbind (InnerProd env v1L v2R) (\<lambda>Cplus.
          rbind (InnerProd env v1R v2L) (\<lambda>Cminus.
            let step2Elements =
                  \<lparr>s2_ReduceProverStep1ElementsDigest = s1_digest step1Elements,
                   s2_Cplus = Cplus, s2_Cminus = Cminus\<rparr>
            in
            rbind (Step2_RO env step2Elements) (\<lambda>\<alpha>.
              let inverse_\<alpha> = inverse_Zr env \<alpha> in
              rbind (G1v_Add env (G1v_Mul env v1L \<alpha>) v1R) (\<lambda>v1prime.
              rbind (G2v_Add env (G2v_Mul env v2L inverse_\<alpha>) v2R) (\<lambda>v2prime.
                let nextWitness = \<lparr>w_V1 = v1prime, w_V2 = v2prime\<rparr> in
                rbind (nextCommitment env pp commitment step1Elements Cplus Cminus \<alpha> \<beta>)
                  (\<lambda>nextCmt.
                  if m = 1 then
                    rbind (index0 pps) (\<lambda>pp1.
                      Ret ([step1Elements], [step2Elements], ScalarProductProof pp1 nextWitness))
                  else
                    rbind (reduce env pps nextWitness nextCmt)
                      (\<lambda>(step1Aggregated, step2Aggregated, scalarProductProof).
                        Ret (step1Elements # step1Aggregated, step2Elements # step2Aggregated,
                             scalarProductProof))))))))))))))))))))))))"

definition Reduce ::
  "('g1, 'g2, 'gt, 'ml) curve \<Rightarrow> ('g1, 'g2, 'gt) PP list \<Rightarrow> ('g1, 'g2) Witness \<Rightarrow> 'gt Commitment
     \<Rightarrow> ('g1, 'g2, 'gt) Proof res" where
  "Reduce env pps w commitment =
     rbind (reduce env pps w commitment) (\<lambda>(a, b, c).
       Ret \<lparr>Step1Elements = a, Step2Elements = b, proof_ScalarProductProofElements = c,
            proof_digest = []\<rparr>)"

section \<open>Package tag\<close>

record tag_Witness =
  w_R :: Zr

record 'g1 tag_Proof =
  tp_A :: 'g1
  tp_B :: 'g1
  tp_a :: Zr
  tp_b :: Zr

text \<open>\<^verbatim>\<open>Commit\<close>; \<open>r\<close> is the scalar that \<^verbatim>\<open>NewRandomZr\<close> draws.\<close>

definition tag_Commit ::
  "('g1, 'g2, 'gt, 'ml) curve \<Rightarrow> Zr \<Rightarrow> Zr \<Rightarrow> tag_Witness \<times> 'g1" where
  "tag_Commit env r sk =
     (let w = \<lparr>w_R = r\<rparr>;
          com = G1_Add env (G1_Mul env (GenG1 env) sk) (G1_Mul env (H env) (w_R w))
      in (w, com))"

definition Tag :: "('g1, 'g2, 'gt, 'ml) curve \<Rightarrow> Zr \<Rightarrow> byte list \<Rightarrow> 'g1" where
  "Tag env sk prefix = G1_Mul env (HashToG1 env (sha256 env prefix)) sk"

definition buildHashContext ::
  "('g1, 'g2, 'gt, 'ml) curve \<Rightarrow> 'g1 \<Rightarrow> 'g1 \<Rightarrow> byte list list \<Rightarrow> byte list list" where
  "buildHashContext env A B additionalContext =
     [G1_Bytes env A, G1_Bytes env B] @ additionalContext"

text \<open>\<^verbatim>\<open>NewProof\<close>; \<open>ar\<close> and \<open>br\<close> are the two scalars drawn at its first line.\<close>

definition tag_NewProof ::
  "('g1, 'g2, 'gt, 'ml) curve \<Rightarrow> Zr \<Rightarrow> Zr \<Rightarrow> byte list \<Rightarrow> Zr \<Rightarrow> tag_Witness \<Rightarrow> byte list list
     \<Rightarrow> 'g1 tag_Proof res" where
  "tag_NewProof env ar br prefix sk w additionalContext =
     (let A = G1_Mul env (HashToG1 env (sha256 env prefix)) ar;
          B = G1_Add env (G1_Mul env (GenG1 env) ar) (G1_Mul env (H env) br);
          hashInput = buildHashContext env A B additionalContext
      in
      rbind (hashToZr env hashInput) (\<lambda>c.
        let a = Zr_Plus ar (Zr_Mul env sk c);
            b = Zr_Plus br (Zr_Mul env (w_R w) c)
        in Ret \<lparr>tp_A = A, tp_B = B, tp_a = a, tp_b = b\<rparr>))"

definition tag_Proof_Verify ::
  "('g1, 'g2, 'gt, 'ml) curve \<Rightarrow> 'g1 tag_Proof \<Rightarrow> 'g1 \<Rightarrow> 'g1 \<Rightarrow> byte list \<Rightarrow> byte list list
     \<Rightarrow> error res" where
  "tag_Proof_Verify env p tag com prefix additionalContext =
     (let hashInput = buildHashContext env (tp_A p) (tp_B p) additionalContext in
      rbind (hashToZr env hashInput) (\<lambda>c.
        let leftEq = G1_Mul env (HashToG1 env (sha256 env prefix)) (tp_a p);
            rightEq = G1_Add env (G1_Mul env tag c) (tp_A p)
        in
        if leftEq \<noteq> rightEq then Ret (Some ''tag proof mismatch'')
        else
          let leftEq = G1_Add env (G1_Mul env (GenG1 env) (tp_a p)) (G1_Mul env (H env) (tp_b p));
              rightEq = G1_Add env (tp_B p) (G1_Mul env com c)
          in
          if leftEq \<noteq> rightEq then Ret (Some ''commitment proof mismatch'')
          else Ret None))"

section \<open>Package threshold\<close>

record ('g1, 'g2, 'gt) PreProcessedParams =
  ppp_digest :: "byte list"
  A0Inverse :: 'gt
  ppp_D :: 'gt
  ppp_Gamma2 :: 'g2
  H1 :: "'g1 list"

record ('g1, 'g2, 'gt) PublicParams =
  PreProcessedParams :: "('g1, 'g2, 'gt) PreProcessedParams"
  DoryParams :: "('g1, 'g2, 'gt) PP list"

record ('g1, 'g2, 'gt) RingSignature =
  TagProof :: "'g1 tag_Proof"
  TagCommitment :: 'g1
  TagValue :: 'g1
  DoryProof1 :: "('g1, 'g2, 'gt) Proof"
  DoryProof2 :: "('g1, 'g2, 'gt) Proof"
  rs_B :: 'gt
  rs_Z :: Zr
  rs_Y :: 'g1

definition computeDigest ::
  "('g1, 'g2, 'gt, 'ml) curve \<Rightarrow> ('g1, 'g2, 'gt) PreProcessedParams \<Rightarrow> ('g1, 'g2, 'gt) PP list
     \<Rightarrow> byte list res" where
  "computeDigest env ppp doryParams =
     (if doryParams = [] then Panic ''index out of range''
      else rbind (PP_Digest env (last doryParams) []) (\<lambda>dg.
             Ret (sha256 env (Gt_Bytes env (ppp_D ppp) @ Gt_Bytes env (A0Inverse ppp)
                    @ G2_Bytes env (ppp_Gamma2 ppp) @ G1v_Bytes env (H1 ppp) @ dg))))"

definition ComputePreProcessedParams ::
  "('g1, 'g2, 'gt, 'ml) curve \<Rightarrow> ('g1, 'g2, 'gt) PP list \<Rightarrow> 'g1 list
     \<Rightarrow> ('g1, 'g2, 'gt) PreProcessedParams res" where
  "ComputePreProcessedParams env doryParams ring =
     rbind (index0 doryParams) (\<lambda>pp.
     rbind (InnerProd env ring (Gamma2 pp)) (\<lambda>A0.
       let A0 = Gt_Inverse env A0 in
       rbind (G1v_Duplicate [H env] (int (length ring))) (\<lambda>H1.
       rbind (InnerProd env H1 (Gamma2 pp)) (\<lambda>D.
       rbind (G2v_Sum env (Gamma2 pp)) (\<lambda>\<Gamma>2.
         let ppp = \<lparr>ppp_digest = [], A0Inverse = A0, ppp_D = D, ppp_Gamma2 = \<Gamma>2, H1 = H1\<rparr> in
         rbind (computeDigest env ppp doryParams) (\<lambda>dg. Ret (ppp\<lparr>ppp_digest := dg\<rparr>)))))))"

text \<open>\<^verbatim>\<open>KeyGen\<close>; \<open>sk\<close> is the scalar drawn.\<close>

definition KeyGen :: "('g1, 'g2, 'gt, 'ml) curve \<Rightarrow> Zr \<Rightarrow> 'g1 \<times> Zr" where
  "KeyGen env sk = (G1_Mul env (GenG1 env) sk, sk)"

fun locatePK_loop :: "'g1 \<Rightarrow> 'g1 list \<Rightarrow> nat \<Rightarrow> ('g1 \<times> nat) res" where
  "locatePK_loop myPK [] i = Panic ''PK not found within ring''"
| "locatePK_loop myPK (x # ring) i =
     (if x = myPK then Ret (myPK, i) else locatePK_loop myPK ring (i + 1))"

definition locatePK ::
  "('g1, 'g2, 'gt, 'ml) curve \<Rightarrow> Zr \<Rightarrow> 'g1 list \<Rightarrow> ('g1 \<times> nat) res" where
  "locatePK env key ring = locatePK_loop (G1_Mul env (GenG1 env) key) ring 0"

definition negZr :: "('g1, 'g2, 'gt, 'ml) curve \<Rightarrow> Zr \<Rightarrow> Zr" where
  "negZr env x = ModSub 0 x (GroupOrder env)"

definition sumZr :: "('g1, 'g2, 'gt, 'ml) curve \<Rightarrow> Zr list \<Rightarrow> Zr res" where
  "sumZr env ins =
     (case ins of [] \<Rightarrow> Panic ''index out of range''
      | x # xs \<Rightarrow> Ret (Zr_Mod (foldl Zr_Plus x xs) (GroupOrder env)))"

text \<open>
  The loop of \<^verbatim>\<open>embedInVec\<close>: \<open>a\<close> is \<^verbatim>\<open>a[current:]\<close>, \<open>i\<close> the loop variable and \<open>k\<close>
  the number of iterations left.
\<close>

fun embedInVec_loop :: "Zr list \<Rightarrow> Zr \<Rightarrow> nat \<Rightarrow> nat \<Rightarrow> nat \<Rightarrow> Zr list res" where
  "embedInVec_loop a element index i 0 = Ret []"
| "embedInVec_loop a element index i (Suc k) =
     (if i = index then
        rbind (embedInVec_loop a element index (i + 1) k) (\<lambda>rest. Ret (element # rest))
      else
        (case a of [] \<Rightarrow> Panic ''index out of range''
         | x # a' \<Rightarrow> rbind (embedInVec_loop a' element index (i + 1) k) (\<lambda>rest. Ret (x # rest))))"

definition embedInVec :: "Zr list \<Rightarrow> Zr \<Rightarrow> nat \<Rightarrow> Zr list res" where
  "embedInVec a element index = embedInVec_loop a element index 0 (length a + 1)"

text \<open>
  The loop of \<^verbatim>\<open>computeY\<close>: \<open>ring\<close> is \<^verbatim>\<open>ring[i:]\<close> and \<open>c\<close> is \<^verbatim>\<open>c[cIndex:]\<close>.
\<close>

fun computeY_loop ::
  "('g1, 'g2, 'gt, 'ml) curve \<Rightarrow> Zr list \<Rightarrow> 'g1 \<Rightarrow> 'g1 list \<Rightarrow> nat \<Rightarrow> nat \<Rightarrow> 'g1 \<Rightarrow> 'g1 res" where
  "computeY_loop env c com [] skip i res = Ret res"
| "computeY_loop env c com (x # ring) skip i res =
     (if i = skip then computeY_loop env c com ring skip (i + 1) res
      else
        (case c of [] \<Rightarrow> Panic ''index out of range''
         | ck # c' \<Rightarrow>
             computeY_loop env c' com ring skip (i + 1)
               (G1_Add env res (G1_Mul env (G1_Sub env x com) ck))))"

definition computeY ::
  "('g1, 'g2, 'gt, 'ml) curve \<Rightarrow> Zr \<Rightarrow> Zr list \<Rightarrow> 'g1 \<Rightarrow> 'g1 list \<Rightarrow> nat \<Rightarrow> 'g1 res" where
  "computeY env y c com ring skip = computeY_loop env c com ring skip 0 (G1_Mul env (H env) y)"

text \<open>
  The \<^verbatim>\<open>atomic.Value\<close> that collects the errors of concurrent tasks keeps the last value
  stored.  \<open>sched\<close> lists the tasks in the order in which they finish; \<open>errs t\<close> is what
  task \<open>t\<close> stores (\<open>None\<close>: it stores nothing).
\<close>

definition atomicErr_final :: "nat list \<Rightarrow> (nat \<Rightarrow> error) \<Rightarrow> error" where
  "atomicErr_final sched errs =
     foldl (\<lambda>slot t. case errs t of None \<Rightarrow> slot | Some err \<Rightarrow> Some err) None sched"

text \<open>
  \<^verbatim>\<open>RingSignature.Verify\<close>.  Task 0 and task 1 are the two goroutines, task 2 is the tag
  check on the calling goroutine; \<open>sched\<close> is the order in which the three finish, \<open>d1\<close> and
  \<open>d2\<close> are the scalars the two base cases draw.
\<close>

definition Verify ::
  "('g1, 'g2, 'gt, 'ml) curve \<Rightarrow> nat list \<Rightarrow> Zr \<Rightarrow> Zr \<Rightarrow> ('g1, 'g2, 'gt) RingSignature
     \<Rightarrow> ('g1, 'g2, 'gt) PublicParams \<Rightarrow> byte list \<Rightarrow> byte list \<Rightarrow> error res" where
  "Verify env sched d1 d2 rs pp m prefix =
     (let A = Gt_Mul env (e env (TagCommitment rs) (ppp_Gamma2 (PreProcessedParams pp)))
                (A0Inverse (PreProcessedParams pp));
          h1zByY = G1_Sub env (G1_Mul env (H env) (rs_Z rs)) (rs_Y rs);
          C = e env h1zByY (GenG2 env)
      in
      rbind (hashToZr env [Gt_Bytes env A, G1_Bytes env (rs_Y rs),
                           ppp_digest (PreProcessedParams pp)]) (\<lambda>h.
        let E = e env (G1_Mul env (H env) h) (GenG2 env);
            r1 = VerifyReduce env d1 (DoryParams pp)
                   \<lparr>cmt_C = C, cmt_D1 = A, cmt_D2 = rs_B rs\<rparr> (DoryProof1 rs);
            r2 = VerifyReduce env d2 (DoryParams pp)
                   \<lparr>cmt_C = E, cmt_D1 = ppp_D (PreProcessedParams pp), cmt_D2 = rs_B rs\<rparr>
                   (DoryProof2 rs);
            r3 = rbind (Proof_Digest env (DoryProof1 rs)) (\<lambda>dg1.
                 rbind (Proof_Digest env (DoryProof2 rs)) (\<lambda>dg2.
                   tag_Proof_Verify env (TagProof rs) (TagValue rs) (TagCommitment rs) prefix
                     [m, dg1, dg2]))
        in
        rbind r1 (\<lambda>err1.
        rbind r2 (\<lambda>err2.
        rbind r3 (\<lambda>err3.
          Ret (atomicErr_final sched
                 (\<lambda>t. if t = 0 then (case err1 of None \<Rightarrow> None
                                       | Some _ \<Rightarrow> Some ''first Dory proof invalid'')
                       else if t = 1 then (case err2 of None \<Rightarrow> None
                                       | Some _ \<Rightarrow> Some ''second Dory proof invalid'')
                       else if t = 2 then (case err3 of None \<Rightarrow> None
                                       | Some _ \<Rightarrow> Some ''tag proof invalid'')
                       else None)))))))"

text \<open>
  \<^verbatim>\<open>RingProof\<close>; \<open>y\<close> and \<open>crand i\<close> are the scalars drawn for \<^verbatim>\<open>y\<close> and \<^verbatim>\<open>c[i]\<close>.
  It returns a \<^verbatim>\<open>RingSignature\<close> in which \<^verbatim>\<open>TagValue\<close> and \<^verbatim>\<open>TagProof\<close> are not set yet;
  the model returns the six fields that are set, and \<open>Sign\<close> builds the struct.
\<close>

record ('g1, 'g2, 'gt) RingProofFields =
  rp_TagCommitment :: 'g1
  rp_DoryProof1 :: "('g1, 'g2, 'gt) Proof"
  rp_DoryProof2 :: "('g1, 'g2, 'gt) Proof"
  rp_Z :: Zr
  rp_Y :: 'g1
  rp_B :: 'gt

definition RingProof ::
  "('g1, 'g2, 'gt, 'ml) curve \<Rightarrow> Zr \<Rightarrow> (nat \<Rightarrow> Zr) \<Rightarrow> Zr \<Rightarrow> ('g1, 'g2, 'gt) PublicParams
     \<Rightarrow> 'g1 list \<Rightarrow> Zr \<Rightarrow> 'g1 \<Rightarrow> ('g1, 'g2, 'gt) RingProofFields res" where
  "RingProof env y crand key pp ring r com =
     (let n = int (length ring) in
      rbind (index0 (DoryParams pp)) (\<lambda>dpp.
        let H1 = H1 (PreProcessedParams pp);
            D = ppp_D (PreProcessedParams pp);
            \<Gamma>2 = ppp_Gamma2 (PreProcessedParams pp);
            A0Inverse = A0Inverse (PreProcessedParams pp);
            A = Gt_Mul env (e env com \<Gamma>2) A0Inverse
        in
        rbind (if n - 1 < 0 then Panic ''makeslice: len out of range''
               else Ret (map crand [0..<nat (n - 1)])) (\<lambda>c.
        rbind (locatePK env key ring) (\<lambda>(_, pkIndex).
        rbind (computeY env y c com ring pkIndex) (\<lambda>Y.
        rbind (hashToZr env [Gt_Bytes env A, G1_Bytes env Y,
                             ppp_digest (PreProcessedParams pp)]) (\<lambda>h.
        rbind (sumZr env c) (\<lambda>s.
          let cj = Zr_Mod (Zr_Plus h (negZr env s)) (GroupOrder env);
              z = Zr_Mod (Zr_Plus y (Zr_Mul env cj r)) (GroupOrder env)
          in
          rbind (embedInVec c cj pkIndex) (\<lambda>c.
          rbind (sumZr env c) (\<lambda>cSum.
            if cSum \<noteq> h then Panic ''sum of c isn't h''
            else
              rbind (G2v_Duplicate [GenG2 env] n) (\<lambda>g2n.
              rbind (G2v_Mulv env g2n c) (\<lambda>G2c.
                let h1zByY = G1_Sub env (G1_Mul env (H env) z) Y;
                    C = e env h1zByY (GenG2 env);
                    E = e env (G1_Mul env (H env) h) (GenG2 env)
                in
                rbind (InnerProd env (Gamma1 dpp) G2c) (\<lambda>B.
                  let cmt1 = \<lparr>cmt_C = C, cmt_D1 = A, cmt_D2 = B\<rparr> in
                  rbind (G1v_Duplicate [com] n) (\<lambda>comn.
                  rbind (G1v_Add env (G1v_Neg env ring) comn) (\<lambda>v1.
                    let w1 = \<lparr>w_V1 = v1, w_V2 = G2c\<rparr>;
                        cmt2 = \<lparr>cmt_C = E, cmt_D1 = D, cmt_D2 = B\<rparr>;
                        w2 = \<lparr>w_V1 = H1, w_V2 = G2c\<rparr>
                    in
                    rbind (Reduce env (DoryParams pp) w1 cmt1) (\<lambda>\<pi>1.
                    rbind (Reduce env (DoryParams pp) w2 cmt2) (\<lambda>\<pi>2.
                      Ret \<lparr>rp_TagCommitment = com, rp_DoryProof1 = \<pi>1, rp_DoryProof2 = \<pi>2,
                           rp_Z = z, rp_Y = Y, rp_B = B\<rparr>))))))))))))))))"

text \<open>
  \<^verbatim>\<open>Sign\<close>.  The random scalars, in the order in which they are drawn: \<open>r\<close> (in
  \<^verbatim>\<open>tag.Commit\<close>), \<open>y\<close> and \<open>crand\<close> (in \<^verbatim>\<open>RingProof\<close>), \<open>ar\<close> and \<open>br\<close>
  (in \<^verbatim>\<open>tag.NewProof\<close>).
\<close>

definition Sign ::
  "('g1, 'g2, 'gt, 'ml) curve \<Rightarrow> Zr \<Rightarrow> Zr \<Rightarrow> (nat \<Rightarrow> Zr) \<Rightarrow> Zr \<Rightarrow> Zr \<Rightarrow> Zr
     \<Rightarrow> ('g1, 'g2, 'gt) PublicParams \<Rightarrow> byte list \<Rightarrow> byte list \<Rightarrow> 'g1 list
     \<Rightarrow> ('g1, 'g2, 'gt) RingSignature res" where
  "Sign env r y crand ar br key pp m prefix ring =
     (let sk = key;
          (w, com) = tag_Commit env r sk
      in
      rbind (RingProof env y crand key pp ring (w_R w) com) (\<lambda>\<sigma>.
      rbind (Proof_Digest env (rp_DoryProof1 \<sigma>)) (\<lambda>dg1.
      rbind (Proof_Digest env (rp_DoryProof2 \<sigma>)) (\<lambda>dg2.
      rbind (tag_NewProof env ar br prefix sk w [m, dg1, dg2]) (\<lambda>\<pi>t.
        let t = Tag env sk prefix in
        Ret \<lparr>TagProof = \<pi>t, TagCommitment = rp_TagCommitment \<sigma>, TagValue = t,
             DoryProof1 = rp_DoryProof1 \<sigma>, DoryProof2 = rp_DoryProof2 \<sigma>,
             rs_B = rp_B \<sigma>, rs_Z = rp_Z \<sigma>, rs_Y = rp_Y \<sigma>\<rparr>)))))"

subsection \<open>Threshold verification\<close>

text \<open>\<^verbatim>\<open>%d\<close> of \<^verbatim>\<open>fmt\<close>: an integer in decimal.\<close>

fun decimal :: "nat \<Rightarrow> string" where
  "decimal n = (if n < 10 then [''0123456789'' ! n]
                else decimal (n div 10) @ [''0123456789'' ! (n mod 10)])"

declare decimal.simps [simp del]

definition fmt_d :: "int \<Rightarrow> string" where
  "fmt_d n = (if n < 0 then CHR ''-'' # decimal (nat (- n)) else decimal (nat n))"

text \<open>
  The first loop of \<^verbatim>\<open>VerifyThresholdSignatures\<close> fills the map \<^verbatim>\<open>tags\<close>, whose keys
  are the encodings of the tags; the model keeps the set of keys.
\<close>

definition collect_tags ::
  "('g1, 'g2, 'gt, 'ml) curve \<Rightarrow> ('g1, 'g2, 'gt) RingSignature list \<Rightarrow> byte list set" where
  "collect_tags env signatures =
     foldl (\<lambda>tags \<sigma>. insert (G1_Bytes env (TagValue \<sigma>)) tags) {} signatures"

text \<open>The outcomes of the goroutines, one for each signature: the first panic, if any.\<close>

fun join_all :: "'a res list \<Rightarrow> 'a list res" where
  "join_all [] = Ret []"
| "join_all (r # rs) = rbind r (\<lambda>x. rbind (join_all rs) (\<lambda>xs. Ret (x # xs)))"

text \<open>
  \<^verbatim>\<open>VerifyThresholdSignatures\<close>.  \<open>sched\<close> is the order in which the goroutines finish;
  \<open>vsched i\<close>, \<open>d1s i\<close> and \<open>d2s i\<close> are the schedule and the random scalars of the
  verification of signature \<open>i\<close>.
\<close>

definition VerifyThresholdSignatures ::
  "('g1, 'g2, 'gt, 'ml) curve \<Rightarrow> nat list \<Rightarrow> (nat \<Rightarrow> nat list) \<Rightarrow> (nat \<Rightarrow> Zr) \<Rightarrow> (nat \<Rightarrow> Zr)
     \<Rightarrow> ('g1, 'g2, 'gt) PublicParams \<Rightarrow> byte list \<Rightarrow> byte list
     \<Rightarrow> ('g1, 'g2, 'gt) RingSignature list \<Rightarrow> error res" where
  "VerifyThresholdSignatures env sched vsched d1s d2s pp msg prefix signatures =
     (let tags = collect_tags env signatures in
      if card tags \<noteq> length signatures then
        Ret (Some (''signature set was signed by '' @ fmt_d (int (card tags)) @ '' out of ''
                   @ fmt_d (int (length signatures)) @ '' distinct signers''))
      else
        rbind (join_all (map (\<lambda>i. Verify env (vsched i) (d1s i) (d2s i) (signatures ! i)
                                     pp msg prefix) [0..<length signatures])) (\<lambda>errs.
          Ret (atomicErr_final sched (\<lambda>t. if t < length errs then errs ! t else None))))"

section \<open>Auxiliary notions for the proofs\<close>

subsection \<open>Well-formed parameter chains\<close>

text \<open>
  What \<open>GeneratePublicParams\<close> establishes.  \<open>rpp_ok env pp n\<close>: the reduction parameters of
  a level of length \<open>n\<close> are the zero value when \<open>n = 1\<close>, and otherwise have half the length
  and hold the four inner products of the halves of the generators with them.
  \<open>chain_ok env n chain\<close>: the levels have lengths \<open>n\<close>, \<open>n div 2\<close>, ..., \<open>1\<close>, each level's
  \<open>chi\<close> is the inner product of its generators, and the generators of the next level are
  the reduction generators of this one.
\<close>

definition rpp_ok ::
  "('g1, 'g2, 'gt, 'ml) curve \<Rightarrow> ('g1, 'g2, 'gt) PP \<Rightarrow> nat \<Rightarrow> bool" where
  "rpp_ok env pp n \<longleftrightarrow>
     (if n = 1 then ReducePP pp = ReducePP_zero
      else
        length (Gamma1Prime (ReducePP pp)) = n div 2 \<and>
        length (Gamma2Prime (ReducePP pp)) = n div 2 \<and>
        (\<exists>D. Delta1L (ReducePP pp) = Some D \<and>
           InnerProd env (take (n div 2) (Gamma1 pp)) (Gamma2Prime (ReducePP pp)) = Ret D) \<and>
        (\<exists>D. Delta1R (ReducePP pp) = Some D \<and>
           InnerProd env (drop (n div 2) (Gamma1 pp)) (Gamma2Prime (ReducePP pp)) = Ret D) \<and>
        (\<exists>D. Delta2L (ReducePP pp) = Some D \<and>
           InnerProd env (Gamma1Prime (ReducePP pp)) (take (n div 2) (Gamma2 pp)) = Ret D) \<and>
        (\<exists>D. Delta2R (ReducePP pp) = Some D \<and>
           InnerProd env (Gamma1Prime (ReducePP pp)) (drop (n div 2) (Gamma2 pp)) = Ret D))"

definition pp_ok ::
  "('g1, 'g2, 'gt, 'ml) curve \<Rightarrow> ('g1, 'g2, 'gt) PP \<Rightarrow> nat \<Rightarrow> bool" where
  "pp_ok env pp n \<longleftrightarrow>
     length (Gamma1 pp) = n \<and> length (Gamma2 pp) = n \<and>
     InnerProd env (Gamma1 pp) (Gamma2 pp) = Ret (chi pp) \<and> rpp_ok env pp n"

fun chain_ok ::
  "('g1, 'g2, 'gt, 'ml) curve \<Rightarrow> nat \<Rightarrow> ('g1, 'g2, 'gt) PP list \<Rightarrow> bool" where
  "chain_ok env n [] = False"
| "chain_ok env n [pp] = (n = 1 \<and> pp_ok env pp 1)"
| "chain_ok env n (pp # pp' # pps) =
     (2 \<le> n \<and> even n \<and> pp_ok env pp n \<and>
      Gamma1 pp' = Gamma1Prime (ReducePP pp) \<and> Gamma2 pp' = Gamma2Prime (ReducePP pp) \<and>
      chain_ok env (n div 2) (pp' # pps))"

subsection \<open>A small instance of the curve record\<close>

text \<open>
  The integers modulo 5, written additively, are a group of prime order 5 with the
  bilinear map \<open>(a, b) \<mapsto> a * b\<close>.  The hash functions are simple functions of their
  input; the digest-to-field conversion never yields zero.  The instance serves to
  evaluate the model on concrete inputs.
\<close>

definition toy :: "(5, 5, 5, 5) curve" where
  "toy = \<lparr>GroupOrder = 5, GenG1 = 1, GenG2 = 1,
     G1_Add = (\<lambda>x y. x + y), G1_Sub = (\<lambda>x y. x - y), G1_Mul = (\<lambda>x k. x * of_int k),
     G1_Bytes = (\<lambda>x. [word_of_int (Rep_bit1 x)]),
     G2_Add = (\<lambda>x y. x + y), G2_Mul = (\<lambda>x k. x * of_int k),
     G2_Bytes = (\<lambda>x. [word_of_int (Rep_bit1 x)]),
     Gt_Mul = (\<lambda>x y. x + y), Gt_Exp = (\<lambda>x k. x * of_int k), Gt_Inverse = (\<lambda>x. - x),
     Gt_Bytes = (\<lambda>x. [word_of_int (Rep_bit1 x)]),
     Pairing = (\<lambda>b a. a * b), Ml_Mul = (\<lambda>x y. x + y), FExp = (\<lambda>x. x),
     HashToG1 = (\<lambda>bs. 2 + of_int (uint (last bs))),
     HashToCurveG2Svdw = (\<lambda>bs. 3 + of_int (uint (last bs))),
     sha256 = (\<lambda>bs. replicate 31 0 @ [foldl (\<lambda>a b. a + b) 0 bs]),
     fe_to_Zr = (\<lambda>z. case z of (z0, z1, z2, z3) \<Rightarrow> 1 + uint z3 mod 4),
     Marshal_RawScalarProductProofElements = (\<lambda>a b. a @ b),
     Marshal_RawProof = (\<lambda>a b c. concat (concat a) @ concat (concat b) @ c)\<rparr>"

text \<open>
  Values of the signature types that no signer produced: a proof with no step elements and
  no base case, and a signature around it with tag value \<open>t\<close>.
\<close>

text \<open>The same instance with a digest-to-field conversion that is constantly zero.\<close>

definition toy0 :: "(5, 5, 5, 5) curve" where
  "toy0 = toy\<lparr>fe_to_Zr := (\<lambda>z. 0)\<rparr>"

definition toy_empty_proof :: "(5, 5, 5) Proof" where
  "toy_empty_proof =
     \<lparr>Step1Elements = [], Step2Elements = [],
      proof_ScalarProductProofElements = \<lparr>sppe_PP = None, sppe_E1 = [], sppe_E2 = []\<rparr>,
      proof_digest = []\<rparr>"

definition toy_sig :: "5 \<Rightarrow> (5, 5, 5) RingSignature" where
  "toy_sig t =
     \<lparr>TagProof = \<lparr>tp_A = 0, tp_B = 0, tp_a = 0, tp_b = 0\<rparr>, TagCommitment = 0, TagValue = t,
      DoryProof1 = toy_empty_proof, DoryProof2 = toy_empty_proof,
      rs_B = 0, rs_Z = 0, rs_Y = 0\<rparr>"

definition toy_empty_params :: "(5, 5, 5) PublicParams" where
  "toy_empty_params =
     \<lparr>PreProcessedParams = \<lparr>ppp_digest = [], A0Inverse = 0, ppp_D = 0, ppp_Gamma2 = 0, H1 = []\<rparr>,
      DoryParams = []\<rparr>"

subsection \<open>What is assumed of the curve library\<close>

text \<open>
  The scalar field: the group order is a prime (every scalar strictly between 0 and the
  order is invertible modulo it), SHA-256 digests have 32 bytes, and the conversion of a
  field element yields a reduced integer.
\<close>

definition scalars_ok :: "('g1, 'g2, 'gt, 'ml) curve \<Rightarrow> bool" where
  "scalars_ok env \<longleftrightarrow>
     1 < GroupOrder env \<and>
     (\<forall>x. 0 < x \<and> x < GroupOrder env \<longrightarrow> coprime x (GroupOrder env)) \<and>
     (\<forall>z. 0 \<le> fe_to_Zr env z \<and> fe_to_Zr env z < GroupOrder env) \<and>
     (\<forall>bs. length (sha256 env bs) = 32)"

subsection \<open>Panics other than the failed sum check\<close>

definition other_panic :: "'a res \<Rightarrow> bool" where
  "other_panic r \<longleftrightarrow> r \<noteq> Panic ''sum of c isn't h''"

text \<open>
  The three groups: \<open>G1\<close>, \<open>G2\<close> (written additively) and \<open>Gt\<close> (written
  multiplicatively) are commutative groups on which the integers act, the action depending
  on the scalar modulo the group order only.  A scalar 0 gives the neutral element.
\<close>

definition g1_ok :: "('g1, 'g2, 'gt, 'ml) curve \<Rightarrow> bool" where
  "g1_ok env \<longleftrightarrow>
     (\<forall>x y z. G1_Add env (G1_Add env x y) z = G1_Add env x (G1_Add env y z)) \<and>
     (\<forall>x y. G1_Add env x y = G1_Add env y x) \<and>
     (\<forall>x y. G1_Sub env x y = G1_Add env x (G1_Mul env y (- 1))) \<and>
     (\<forall>x. G1_Mul env x 1 = x) \<and>
     (\<forall>x a b. G1_Mul env x (a + b) = G1_Add env (G1_Mul env x a) (G1_Mul env x b)) \<and>
     (\<forall>x a b. G1_Mul env (G1_Mul env x a) b = G1_Mul env x (a * b)) \<and>
     (\<forall>x y a. G1_Mul env (G1_Add env x y) a = G1_Add env (G1_Mul env x a) (G1_Mul env y a)) \<and>
     (\<forall>x a. G1_Mul env x (a mod GroupOrder env) = G1_Mul env x a) \<and>
     (\<forall>x y. G1_Add env x (G1_Mul env y 0) = x)"

definition g2_ok :: "('g1, 'g2, 'gt, 'ml) curve \<Rightarrow> bool" where
  "g2_ok env \<longleftrightarrow>
     (\<forall>x y z. G2_Add env (G2_Add env x y) z = G2_Add env x (G2_Add env y z)) \<and>
     (\<forall>x y. G2_Add env x y = G2_Add env y x) \<and>
     (\<forall>x. G2_Mul env x 1 = x) \<and>
     (\<forall>x a b. G2_Mul env x (a + b) = G2_Add env (G2_Mul env x a) (G2_Mul env x b)) \<and>
     (\<forall>x a b. G2_Mul env (G2_Mul env x a) b = G2_Mul env x (a * b)) \<and>
     (\<forall>x y a. G2_Mul env (G2_Add env x y) a = G2_Add env (G2_Mul env x a) (G2_Mul env y a)) \<and>
     (\<forall>x a. G2_Mul env x (a mod GroupOrder env) = G2_Mul env x a) \<and>
     (\<forall>x y. G2_Add env x (G2_Mul env y 0) = x)"

definition gt_ok :: "('g1, 'g2, 'gt, 'ml) curve \<Rightarrow> bool" where
  "gt_ok env \<longleftrightarrow>
     (\<forall>x y z. Gt_Mul env (Gt_Mul env x y) z = Gt_Mul env x (Gt_Mul env y z)) \<and>
     (\<forall>x y. Gt_Mul env x y = Gt_Mul env y x) \<and>
     (\<forall>x. Gt_Inverse env x = Gt_Exp env x (- 1)) \<and>
     (\<forall>x. Gt_Exp env x 1 = x) \<and>
     (\<forall>x a b. Gt_Exp env x (a + b) = Gt_Mul env (Gt_Exp env x a) (Gt_Exp env x b)) \<and>
     (\<forall>x a b. Gt_Exp env (Gt_Exp env x a) b = Gt_Exp env x (a * b)) \<and>
     (\<forall>x y a. Gt_Exp env (Gt_Mul env x y) a = Gt_Mul env (Gt_Exp env x a) (Gt_Exp env y a)) \<and>
     (\<forall>x a. Gt_Exp env x (a mod GroupOrder env) = Gt_Exp env x a) \<and>
     (\<forall>x y. Gt_Mul env x (Gt_Exp env y 0) = x)"

text \<open>
  The pairing \<open>e\<close> (the Miller loop followed by the final exponentiation) is bilinear, and
  the final exponentiation of a product of Miller-loop values is the product of the final
  exponentiations.
\<close>

definition pairing_ok :: "('g1, 'g2, 'gt, 'ml) curve \<Rightarrow> bool" where
  "pairing_ok env \<longleftrightarrow>
     (\<forall>a b. FExp env (Ml_Mul env a b) = Gt_Mul env (FExp env a) (FExp env b)) \<and>
     (\<forall>x y z. e env (G1_Add env x y) z = Gt_Mul env (e env x z) (e env y z)) \<and>
     (\<forall>x y z. e env x (G2_Add env y z) = Gt_Mul env (e env x y) (e env x z)) \<and>
     (\<forall>x y a. e env (G1_Mul env x a) y = Gt_Exp env (e env x y) a) \<and>
     (\<forall>x y a. e env x (G2_Mul env y a) = Gt_Exp env (e env x y) a)"

definition curve_ok :: "('g1, 'g2, 'gt, 'ml) curve \<Rightarrow> bool" where
  "curve_ok env \<longleftrightarrow> scalars_ok env \<and> g1_ok env \<and> g2_ok env \<and> gt_ok env \<and> pairing_ok env"

subsection \<open>The inner pairing product as a plain product\<close>

text \<open>
  \<open>ip env v w\<close> is the product of the pairings \<open>e v\<^sub>i w\<^sub>i\<close>, index by index; under the laws
  above it is what \<open>InnerProd\<close> returns on non-empty vectors of equal length.
\<close>

definition gt_one :: "('g1, 'g2, 'gt, 'ml) curve \<Rightarrow> 'gt" where
  "gt_one env = Gt_Exp env (e env (GenG1 env) (GenG2 env)) 0"

fun ip :: "('g1, 'g2, 'gt, 'ml) curve \<Rightarrow> 'g1 list \<Rightarrow> 'g2 list \<Rightarrow> 'gt" where
  "ip env (x # xs) (y # ys) = Gt_Mul env (e env x y) (ip env xs ys)"
| "ip env xs ys = gt_one env"

text \<open>
  A commitment is consistent with a witness at a level when its three components are the
  three inner products that \<open>Commit\<close> computes.
\<close>

definition consistent ::
  "('g1, 'g2, 'gt, 'ml) curve \<Rightarrow> ('g1, 'g2, 'gt) PP \<Rightarrow> 'g1 list \<Rightarrow> 'g2 list \<Rightarrow> 'gt Commitment
     \<Rightarrow> bool" where
  "consistent env pp v1 v2 cmt \<longleftrightarrow>
     cmt = \<lparr>cmt_C = ip env v1 v2, cmt_D1 = ip env v1 (Gamma2 pp), cmt_D2 = ip env (Gamma1 pp) v2\<rparr>"

text \<open>
  The Fiat-Shamir challenges of a proof are the values of the random oracle on its step
  elements.  \<open>challenges_nonzero\<close>: each of them is a nonzero scalar modulo the group order.
\<close>

text \<open>
  The instance that the last level of the chain is left with: a proof that opens two vectors
  of length one, and the commitment that is consistent with them.
\<close>

definition base_instance ::
  "('g1, 'g2, 'gt, 'ml) curve \<Rightarrow> ('g1, 'g2, 'gt) PP \<Rightarrow> ('g1, 'g2, 'gt) ScalarProductProofElements
     \<Rightarrow> 'gt Commitment \<Rightarrow> bool" where
  "base_instance env pl fin nc \<longleftrightarrow>
     (\<exists>x y g1 g2.
        fin = \<lparr>sppe_PP = Some pl, sppe_E1 = [x], sppe_E2 = [y]\<rparr> \<and>
        Gamma1 pl = [g1] \<and> Gamma2 pl = [g2] \<and> chi pl = ip env [g1] [g2] \<and>
        nc = \<lparr>cmt_C = ip env [x] [y], cmt_D1 = ip env [x] [g2], cmt_D2 = ip env [g1] [y]\<rparr>)"

definition step1_nonzero ::
  "('g1, 'g2, 'gt, 'ml) curve \<Rightarrow> 'gt ReduceProverStep1Elements \<Rightarrow> bool" where
  "step1_nonzero env x =
     (case Step1_RO env x of Ret (\<beta>, _) \<Rightarrow> \<beta> mod GroupOrder env \<noteq> 0 | Panic _ \<Rightarrow> False)"

definition step2_nonzero ::
  "('g1, 'g2, 'gt, 'ml) curve \<Rightarrow> 'gt ReduceProverStep2Elements \<Rightarrow> bool" where
  "step2_nonzero env x =
     (case Step2_RO env x of Ret \<alpha> \<Rightarrow> \<alpha> mod GroupOrder env \<noteq> 0 | Panic _ \<Rightarrow> False)"

definition challenges_nonzero ::
  "('g1, 'g2, 'gt, 'ml) curve \<Rightarrow> ('g1, 'g2, 'gt) Proof \<Rightarrow> bool" where
  "challenges_nonzero env \<pi> \<longleftrightarrow>
     list_all (step1_nonzero env) (Step1Elements \<pi>) \<and>
     list_all (step2_nonzero env) (Step2Elements \<pi>)"

section \<open>Basic facts\<close>

lemma rbind_Ret [simp]: "rbind (Ret x) f = f x"
  by (simp add: rbind_def)

lemma rbind_Panic [simp]: "rbind (Panic s) f = Panic s"
  by (simp add: rbind_def)

lemma go_quot_2 [simp]: "0 \<le> n \<Longrightarrow> go_quot n 2 = n div 2"
  by (cases "n = 0") (auto simp: go_quot_def)

lemma InnerProd_Ret:
  "length v = length w \<Longrightarrow> v \<noteq> [] \<Longrightarrow> \<exists>x. InnerProd env v w = Ret x"
  by (auto simp: InnerProd_def)

lemma atomicErr_final_None: "(\<And>t. errs t = None) \<Longrightarrow> atomicErr_final sched errs = None"
  unfolding atomicErr_final_def by (induction sched) auto

lemma atomicErr_final_snoc:
  "atomicErr_final (sched @ [t]) errs =
     (case errs t of None \<Rightarrow> atomicErr_final sched errs | Some err \<Rightarrow> Some err)"
  by (simp add: atomicErr_final_def split: option.splits)

lemma atomicErr_final_Some:
  "atomicErr_final sched errs = Some x \<Longrightarrow> \<exists>t\<in>set sched. errs t = Some x"
  by (induction sched rule: rev_induct)
     (auto simp: atomicErr_final_snoc atomicErr_final_def split: option.splits)

lemma atomicErr_final_eq_None:
  "atomicErr_final sched errs = None \<Longrightarrow> t \<in> set sched \<Longrightarrow> errs t = None"
  by (induction sched rule: rev_induct)
     (auto simp: atomicErr_final_snoc split: option.splits)

lemma atomicErr_final_single:
  "k \<in> set sched \<Longrightarrow> errs k = Some v \<Longrightarrow> (\<And>t. t \<in> set sched \<Longrightarrow> t \<noteq> k \<Longrightarrow> errs t = None) \<Longrightarrow>
     atomicErr_final sched errs = Some v"
proof (induction sched rule: rev_induct)
  case Nil
  then show ?case by simp
next
  case (snoc t sched)
  show ?case
  proof (cases "t = k")
    case True
    then show ?thesis using snoc.prems(2) by (simp add: atomicErr_final_snoc)
  next
    case False
    then have "errs t = None" using snoc.prems(3)[of t] by simp
    moreover have "k \<in> set sched" using snoc.prems(1) False by auto
    ultimately show ?thesis
      using snoc.IH snoc.prems(2,3) by (simp add: atomicErr_final_snoc)
  qed
qed

section \<open>The digest-to-field map\<close>

lemma q3_mod: "(z::64 word) mod 3486998266802970665 < 3486998266802970665"
  by (simp add: word_mod_less_divisor)

lemma feFrom256Bits_limbs:
  assumes "length digest = 32"
  shows "feFrom256Bits digest =
           Ret (Uint64 (take 8 digest), Uint64 (take 8 (drop 8 digest)),
                Uint64 (take 8 (drop 16 digest)),
                Uint64 (take 8 (drop 24 digest)) mod 3486998266802970665)"
  using assms q3_mod by (simp add: feFrom256Bits_def Let_def)

lemma limbs_value_bound:
  "z3 < (3486998266802970665 :: 64 word) \<Longrightarrow> limbs_value (z0, z1, z2, z3) < bn254_q"
proof -
  assume a: "z3 < (3486998266802970665 :: 64 word)"
  have z3: "uint z3 \<le> 3486998266802970664" using a by (simp add: word_less_def)
  have b0: "uint z0 < 2 ^ 64" using uint_bounded[of z0] by simp
  have b1: "uint z1 < 2 ^ 64" using uint_bounded[of z1] by simp
  have b2: "uint z2 < 2 ^ 64" using uint_bounded[of z2] by simp
  show ?thesis using z3 b0 b1 b2 by (simp add: limbs_value_def bn254_q_def)
qed

lemma limbs_value_nonneg: "0 \<le> limbs_value z"
  by (cases z) (simp add: limbs_value_def)

lemma foldl_be_replicate:
  "foldl (\<lambda>acc b. 256 * acc + uint b) a (replicate n (0::byte)) = 256 ^ n * a"
  by (induction n arbitrary: a) auto

lemma foldl_be_zeros [simp]: "foldl (\<lambda>acc b. 256 * acc + uint b) 0 (replicate n (0::byte)) = 0"
  by (simp add: foldl_be_replicate)

lemma or_push8: "(uint (b::byte)) OR push_bit 8 (r::int) = uint b + 256 * r"
proof -
  have "concat_bit 8 (uint b) r = take_bit 8 (uint b) + push_bit 8 r"
    by (rule concat_bit_eq)
  moreover have "take_bit 8 (uint b) = uint b"
    by (simp add: take_bit_int_eq_self_iff uint_bounded[of b, simplified])
  ultimately show ?thesis by (simp add: concat_bit_def push_bit_eq_mult)
qed

lemma uint_ucast_byte: "uint (ucast (b::byte) :: 64 word) = uint b"
  by (simp add: unsigned_ucast_eq take_bit_int_eq_self_iff) (use uint_bounded[of b] in simp)

lemma take_bit_push_byte:
  "k \<le> 56 \<Longrightarrow> take_bit 64 (push_bit k (uint (b::byte))) = push_bit k (uint b)"
proof -
  assume k: "k \<le> 56"
  have "uint b < 2 ^ 8" using uint_bounded[of b] by simp
  also have "(2::int) ^ 8 \<le> 2 ^ (64 - k)" using k by (intro power_increasing) auto
  finally have "take_bit (64 - k) (uint b) = uint b" by (simp add: take_bit_int_eq_self_iff)
  then show ?thesis by (simp add: take_bit_push_bit)
qed

lemma Uint64_be:
  "uint (Uint64 [b0, b1, b2, b3, b4, b5, b6, b7]) = be_int [b0, b1, b2, b3, b4, b5, b6, b7]"
proof -
  have flat: "uint (Uint64 [b0, b1, b2, b3, b4, b5, b6, b7]) =
     uint b7 OR push_bit 8 (uint b6) OR push_bit 16 (uint b5) OR push_bit 24 (uint b4) OR
     push_bit 32 (uint b3) OR push_bit 40 (uint b2) OR push_bit 48 (uint b1) OR push_bit 56 (uint b0)"
    by (simp add: Uint64_def uint_or unsigned_push_bit_eq uint_ucast_byte take_bit_push_byte)
  have nest: "uint b7 OR push_bit 8 (uint b6 OR push_bit 8 (uint b5 OR push_bit 8 (uint b4 OR push_bit 8
       (uint b3 OR push_bit 8 (uint b2 OR push_bit 8 (uint b1 OR push_bit 8 (uint b0))))))) =
     uint b7 OR push_bit 8 (uint b6) OR push_bit 16 (uint b5) OR push_bit 24 (uint b4) OR
     push_bit 32 (uint b3) OR push_bit 40 (uint b2) OR push_bit 48 (uint b1) OR push_bit 56 (uint b0)"
    by (simp add: push_bit_or push_bit_push_bit ac_simps)
  have horner: "uint b7 OR push_bit 8 (uint b6 OR push_bit 8 (uint b5 OR push_bit 8 (uint b4 OR push_bit 8
       (uint b3 OR push_bit 8 (uint b2 OR push_bit 8 (uint b1 OR push_bit 8 (uint b0))))))) =
     uint b7 + 256 * (uint b6 + 256 * (uint b5 + 256 * (uint b4 + 256 * (uint b3 + 256 *
       (uint b2 + 256 * (uint b1 + 256 * uint b0))))))"
    by (simp only: or_push8)
  show ?thesis
    unfolding flat nest[symmetric] horner by (simp add: be_int_def)
qed

lemma Uint64_be_int: "length b = 8 \<Longrightarrow> uint (Uint64 b) = be_int b"
proof -
  assume "length b = 8"
  then have "b = [b ! 0, b ! 1, b ! 2, b ! 3, b ! 4, b ! 5, b ! 6, b ! 7]"
    by (intro nth_equalityI) (auto simp: nth_Cons' numeral_eq_Suc less_Suc_eq)
  then show ?thesis using Uint64_be by metis
qed

text \<open>
  C6, as the code has it.  For every 32-byte digest, limb \<open>i\<close> of the element is the
  big-endian value of the bytes \<open>8 i, ..., 8 i + 7\<close> (limb 0 is the least significant),
  and the top limb is reduced modulo 3486998266802970665, the top limb of \<open>q\<close>.  The
  integer the limbs denote is below \<open>q\<close>, so the conditional subtraction of \<open>q\<close> never
  runs, and \<open>FieldElementFromBytes\<close> returns the library's conversion of that element.
\<close>

theorem digest_to_field_limbs:
  "length digest = 32 \<Longrightarrow>
   \<exists>z. feFrom256Bits digest = Ret z \<and>
       FieldElementFromBytes env digest = Ret (fe_to_Zr env z) \<and>
       limbs_value z =
         be_int (take 8 digest) + 2 ^ 64 * be_int (take 8 (drop 8 digest))
         + 2 ^ 128 * be_int (take 8 (drop 16 digest))
         + 2 ^ 192 * (be_int (take 8 (drop 24 digest)) mod 3486998266802970665) \<and>
       0 \<le> limbs_value z \<and> limbs_value z < bn254_q"
proof -
  assume len: "length digest = 32"
  define z where "z = (Uint64 (take 8 digest), Uint64 (take 8 (drop 8 digest)),
                Uint64 (take 8 (drop 16 digest)),
                Uint64 (take 8 (drop 24 digest)) mod 3486998266802970665)"
  have fe: "feFrom256Bits digest = Ret z"
    unfolding z_def by (rule feFrom256Bits_limbs[OF len])
  have l: "length (take 8 digest) = 8" "length (take 8 (drop 8 digest)) = 8"
    "length (take 8 (drop 16 digest)) = 8" "length (take 8 (drop 24 digest)) = 8"
    using len by simp_all
  have top: "uint (Uint64 (take 8 (drop 24 digest)) mod 3486998266802970665)
               = be_int (take 8 (drop 24 digest)) mod 3486998266802970665"
    by (simp add: uint_mod_distrib Uint64_be_int[OF l(4)])
  have val: "limbs_value z =
         be_int (take 8 digest) + 2 ^ 64 * be_int (take 8 (drop 8 digest))
         + 2 ^ 128 * be_int (take 8 (drop 16 digest))
         + 2 ^ 192 * (be_int (take 8 (drop 24 digest)) mod 3486998266802970665)"
    unfolding z_def limbs_value_def
    by (simp only: prod.case top Uint64_be_int[OF l(1)] Uint64_be_int[OF l(2)] Uint64_be_int[OF l(3)])
  have bound: "limbs_value z < bn254_q"
    unfolding z_def by (rule limbs_value_bound[OF q3_mod])
  show ?thesis
    using fe val bound limbs_value_nonneg[of z]
    by (auto simp: FieldElementFromBytes_def)
qed

theorem digest_to_field_limbs_witness:
  "\<exists>z. feFrom256Bits (1 # replicate 31 0) = Ret z \<and>
       FieldElementFromBytes toy (1 # replicate 31 0) = Ret (fe_to_Zr toy z) \<and>
       limbs_value z = 2 ^ 56 \<and> limbs_value z < bn254_q"
proof -
  have len: "length (1 # replicate 31 (0::byte)) = 32" by simp
  have v: "be_int (take 8 (1 # replicate 31 (0::byte))) = 2 ^ 56"
          "be_int (take 8 (drop 8 (1 # replicate 31 (0::byte)))) = 0"
          "be_int (take 8 (drop 16 (1 # replicate 31 (0::byte)))) = 0"
          "be_int (take 8 (drop 24 (1 # replicate 31 (0::byte)))) = 0"
    by (simp_all add: be_int_def take_Cons' drop_Cons' foldl_be_replicate)
  show ?thesis
    using digest_to_field_limbs[OF len, of toy] unfolding v by auto
qed

text \<open>
  C6, as the claim states it, fails.  The all-zero digest and the digest whose last eight
  bytes are the top limb of \<open>q\<close> are mapped to the same limbs, so to the same field element
  whatever the library's conversion is, while the big-endian integers of the two digests
  differ modulo \<open>q\<close> (they are 0 and 3486998266802970665).
\<close>

theorem digest_to_field_counterexample:
  "feFrom256Bits (replicate 32 0) = Ret (0, 0, 0, 0) \<and>
   feFrom256Bits (replicate 24 0 @ [0x30, 0x64, 0x4E, 0x72, 0xE1, 0x31, 0xA0, 0x29]) = Ret (0, 0, 0, 0) \<and>
   spec_digest_to_field (replicate 32 0) = 0 \<and>
   spec_digest_to_field (replicate 24 0 @ [0x30, 0x64, 0x4E, 0x72, 0xE1, 0x31, 0xA0, 0x29])
     = 3486998266802970665"
proof -
  have a: "feFrom256Bits (replicate 32 0) = Ret (0, 0, 0, 0)"
    by (simp add: feFrom256Bits_def Let_def Uint64_def)
  have b: "feFrom256Bits (replicate 24 0 @ [0x30, 0x64, 0x4E, 0x72, 0xE1, 0x31, 0xA0, 0x29]) = Ret (0, 0, 0, 0)"
    by (simp add: feFrom256Bits_def Let_def Uint64_def)
  have c: "spec_digest_to_field (replicate 32 0) = 0"
    by (simp add: spec_digest_to_field_def be_int_def)
  have d: "spec_digest_to_field (replicate 24 0 @ [0x30, 0x64, 0x4E, 0x72, 0xE1, 0x31, 0xA0, 0x29])
     = 3486998266802970665"
    by (simp add: spec_digest_to_field_def be_int_def bn254_q_def)
  show ?thesis using a b c d by simp
qed


section \<open>Consequences of the laws of the curve library\<close>

lemma hashToZr_Ret:
  "scalars_ok env \<Longrightarrow> \<exists>h. hashToZr env ins = Ret h \<and> 0 \<le> h \<and> h < GroupOrder env"
  by (simp add: hashToZr_def FieldElementFromBytes_def feFrom256Bits_limbs scalars_ok_def)

lemma g1_laws:
  assumes "g1_ok env"
  shows "G1_Add env (G1_Add env x y) z = G1_Add env x (G1_Add env y z)"
    and "G1_Add env x y = G1_Add env y x"
    and "G1_Add env x (G1_Add env y z) = G1_Add env y (G1_Add env x z)"
    and "G1_Sub env x y = G1_Add env x (G1_Mul env y (- 1))"
    and "G1_Mul env x 1 = x"
    and "G1_Mul env x (a + b) = G1_Add env (G1_Mul env x a) (G1_Mul env x b)"
    and "G1_Mul env (G1_Mul env x a) b = G1_Mul env x (a * b)"
    and "G1_Mul env (G1_Add env x y) a = G1_Add env (G1_Mul env x a) (G1_Mul env y a)"
    and "G1_Mul env x (a mod GroupOrder env) = G1_Mul env x a"
    and "G1_Add env x (G1_Mul env y 0) = x"
  using assms unfolding g1_ok_def by metis+


lemma g2_laws:
  assumes "g2_ok env"
  shows "G2_Add env (G2_Add env x y) z = G2_Add env x (G2_Add env y z)"
    and "G2_Add env x y = G2_Add env y x"
    and "G2_Add env x (G2_Add env y z) = G2_Add env y (G2_Add env x z)"
    and "G2_Mul env x 1 = x"
    and "G2_Mul env x (a + b) = G2_Add env (G2_Mul env x a) (G2_Mul env x b)"
    and "G2_Mul env (G2_Mul env x a) b = G2_Mul env x (a * b)"
    and "G2_Mul env (G2_Add env x y) a = G2_Add env (G2_Mul env x a) (G2_Mul env y a)"
    and "G2_Mul env x (a mod GroupOrder env) = G2_Mul env x a"
    and "G2_Add env x (G2_Mul env y 0) = x"
  using assms unfolding g2_ok_def by metis+

lemma gt_laws:
  assumes "gt_ok env"
  shows "Gt_Mul env (Gt_Mul env x y) z = Gt_Mul env x (Gt_Mul env y z)"
    and "Gt_Mul env x y = Gt_Mul env y x"
    and "Gt_Mul env x (Gt_Mul env y z) = Gt_Mul env y (Gt_Mul env x z)"
    and "Gt_Inverse env x = Gt_Exp env x (- 1)"
    and "Gt_Exp env x 1 = x"
    and "Gt_Exp env x (a + b) = Gt_Mul env (Gt_Exp env x a) (Gt_Exp env x b)"
    and "Gt_Exp env (Gt_Exp env x a) b = Gt_Exp env x (a * b)"
    and "Gt_Exp env (Gt_Mul env x y) a = Gt_Mul env (Gt_Exp env x a) (Gt_Exp env y a)"
    and "Gt_Exp env x (a mod GroupOrder env) = Gt_Exp env x a"
    and "Gt_Mul env x (Gt_Exp env y 0) = x"
  using assms unfolding gt_ok_def by metis+

lemma pairing_laws:
  assumes "pairing_ok env"
  shows "FExp env (Ml_Mul env a b) = Gt_Mul env (FExp env a) (FExp env b)"
    and "e env (G1_Add env x y) z = Gt_Mul env (e env x z) (e env y z)"
    and "e env x (G2_Add env y' z') = Gt_Mul env (e env x y') (e env x z')"
    and "e env (G1_Mul env x k) z = Gt_Exp env (e env x z) k"
    and "e env x (G2_Mul env z k) = Gt_Exp env (e env x z) k"
  using assms unfolding pairing_ok_def by metis+

lemma toy_scalars_ok: "scalars_ok toy"
proof -
  have cop: "coprime x 5" if "0 < x" "x < 5" for x :: int
  proof -
    from that have "x = 1 \<or> x = 2 \<or> x = 3 \<or> x = 4" by auto
    then show ?thesis
      by (elim disjE) (simp_all add: coprime_iff_gcd_eq_1 gcd_non_0_int)
  qed
  have fe: "0 \<le> 1 + uint z3 mod 4 \<and> 1 + uint z3 mod 4 < 5" for z3 :: "64 word"
    using pos_mod_bound[of 4 "uint z3"] pos_mod_sign[of 4 "uint z3"] by simp
  show ?thesis
    unfolding scalars_ok_def using cop fe by (auto simp: toy_def)
qed

lemma of_int_mod_5: "(of_int (a mod 5) :: 5) = of_int a"
proof -
  have "(of_int a :: 5) = of_int (5 * (a div 5) + a mod 5)" by simp
  also have "\<dots> = of_int 5 * of_int (a div 5) + of_int (a mod 5)"
    by (simp only: of_int_add of_int_mult)
  also have "(of_int 5 :: 5) = 0" by simp
  finally show ?thesis by simp
qed

lemma toy_curve_ok: "curve_ok toy"
  unfolding curve_ok_def g1_ok_def g2_ok_def gt_ok_def pairing_ok_def
  using toy_scalars_ok
  by (simp add: toy_def e_def algebra_simps of_int_mod_5)

section \<open>The inner pairing product\<close>

lemma gt_one_right: "gt_ok env \<Longrightarrow> Gt_Mul env x (gt_one env) = x"
  by (simp add: gt_one_def gt_laws(10))

lemma gt_one_left: "gt_ok env \<Longrightarrow> Gt_Mul env (gt_one env) x = x"
  using gt_one_right[of env x] gt_laws(2)[of env] by metis

lemma Gt_Exp_0: "gt_ok env \<Longrightarrow> Gt_Exp env x 0 = gt_one env"
proof -
  assume ok: "gt_ok env"
  have "Gt_Exp env x 0 = Gt_Mul env (Gt_Exp env x 0) (gt_one env)"
    by (simp add: gt_one_right[OF ok])
  also have "\<dots> = Gt_Mul env (gt_one env) (Gt_Exp env x 0)"
    by (rule gt_laws(2)[OF ok])
  also have "\<dots> = gt_one env" by (rule gt_laws(10)[OF ok])
  finally show ?thesis .
qed

lemma Gt_Exp_one: "gt_ok env \<Longrightarrow> Gt_Exp env (gt_one env) a = gt_one env"
proof -
  assume ok: "gt_ok env"
  have "Gt_Exp env (gt_one env) a = Gt_Exp env (e env (GenG1 env) (GenG2 env)) (0 * a)"
    unfolding gt_one_def by (rule gt_laws(7)[OF ok])
  then show ?thesis by (simp add: gt_one_def)
qed

lemma FExp_foldl:
  assumes "gt_ok env" "pairing_ok env"
  shows "length xs = length ys \<Longrightarrow>
     FExp env (foldl (Ml_Mul env) acc (map (\<lambda>(b, a). Pairing env b a) (zip ys xs)))
       = Gt_Mul env (FExp env acc) (ip env xs ys)"
proof (induction xs ys arbitrary: acc rule: list_induct2)
  case Nil
  then show ?case by (simp add: gt_one_right[OF assms(1)])
next
  case (Cons x xs y ys)
  show ?case
    by (simp add: Cons.IH pairing_laws(1)[OF assms(2)] gt_laws(1)[OF assms(1)] e_def)
qed

lemma InnerProd_ip:
  assumes "gt_ok env" "pairing_ok env" "length v = length w" "v \<noteq> []"
  shows "InnerProd env v w = Ret (ip env v w)"
proof -
  obtain x xs where v: "v = x # xs" using assms(4) by (cases v) auto
  obtain y ys where w: "w = y # ys" using assms(3) v by (cases w) auto
  have len: "length xs = length ys" using assms(3) v w by simp
  show ?thesis
  proof (cases "xs = []")
    case True
    then have "ys = []" using len by simp
    with True v w show ?thesis by (simp add: InnerProd_def gt_one_right[OF assms(1)])
  next
    case False
    then have "length v \<noteq> 1" using v by (cases xs) auto
    then show ?thesis
      using v w len FExp_foldl[OF assms(1,2) len, of "Pairing env y x"]
      by (simp add: InnerProd_def e_def)
  qed
qed

lemma ip_append:
  assumes "gt_ok env"
  shows "length a = length c \<Longrightarrow> ip env (a @ b) (c @ d) = Gt_Mul env (ip env a c) (ip env b d)"
proof (induction a c rule: list_induct2)
  case Nil
  then show ?case by (simp add: gt_one_left[OF assms])
next
  case (Cons x xs y ys)
  then show ?case by (simp add: gt_laws(1)[OF assms])
qed

lemma ip_split:
  assumes "gt_ok env" "length v = length w"
  shows "ip env v w = Gt_Mul env (ip env (take m v) (take m w)) (ip env (drop m v) (drop m w))"
proof -
  have "ip env (take m v @ drop m v) (take m w @ drop m w)
          = Gt_Mul env (ip env (take m v) (take m w)) (ip env (drop m v) (drop m w))"
    using assms(2) by (intro ip_append[OF assms(1)]) simp
  then show ?thesis by simp
qed

lemma ip_add_left:
  assumes "gt_ok env" "pairing_ok env"
  shows "length a = length b \<Longrightarrow> length b = length w \<Longrightarrow>
     ip env (map (\<lambda>(x, y). G1_Add env x y) (zip a b)) w = Gt_Mul env (ip env a w) (ip env b w)"
proof (induction a b w rule: list_induct3)
  case Nil
  then show ?case by (simp add: gt_one_left[OF assms(1)])
next
  case (Cons x xs y ys z zs)
  then show ?case
    by (simp add: pairing_laws(2)[OF assms(2)] gt_laws(1,2,3)[OF assms(1)])
qed

lemma ip_add_right:
  assumes "gt_ok env" "pairing_ok env"
  shows "length a = length b \<Longrightarrow> length b = length v \<Longrightarrow>
     ip env v (map (\<lambda>(x, y). G2_Add env x y) (zip a b)) = Gt_Mul env (ip env v a) (ip env v b)"
proof (induction a b v rule: list_induct3)
  case Nil
  then show ?case by (simp add: gt_one_left[OF assms(1)])
next
  case (Cons x xs y ys z zs)
  then show ?case
    by (simp add: pairing_laws(3)[OF assms(2)] gt_laws(1,2,3)[OF assms(1)])
qed

lemma ip_mul_left:
  assumes "gt_ok env" "pairing_ok env"
  shows "ip env (map (\<lambda>g. G1_Mul env g k) v) w = Gt_Exp env (ip env v w) k"
proof (induction v arbitrary: w)
  case Nil
  then show ?case by (simp add: Gt_Exp_one[OF assms(1)])
next
  case (Cons x xs)
  show ?case
  proof (cases w)
    case Nil
    then show ?thesis by (simp add: Gt_Exp_one[OF assms(1)])
  next
    case (Cons y ys)
    then show ?thesis
      by (simp add: Cons.IH pairing_laws(4)[OF assms(2)] gt_laws(8)[OF assms(1)])
  qed
qed

lemma ip_mul_right:
  assumes "gt_ok env" "pairing_ok env"
  shows "ip env v (map (\<lambda>g. G2_Mul env g k) w) = Gt_Exp env (ip env v w) k"
proof (induction v arbitrary: w)
  case Nil
  then show ?case by (simp add: Gt_Exp_one[OF assms(1)])
next
  case (Cons x xs)
  show ?case
  proof (cases w)
    case Nil
    then show ?thesis by (simp add: Gt_Exp_one[OF assms(1)])
  next
    case (Cons y ys)
    then show ?thesis
      by (simp add: Cons.IH pairing_laws(5)[OF assms(2)] gt_laws(8)[OF assms(1)])
  qed
qed

text \<open>One round of the reduction, on plain products.\<close>

lemma Gt_Exp_commute:
  "gt_ok env \<Longrightarrow> Gt_Exp env (Gt_Exp env x a) b = Gt_Exp env (Gt_Exp env x b) a"
  by (simp add: gt_laws(7) mult.commute)

lemma reduce_round_algebra:
  assumes gt: "gt_ok env" and pr: "pairing_ok env"
    and ca: "\<And>x. Gt_Exp env (Gt_Exp env x a) a' = x"
    and cb: "\<And>x. Gt_Exp env (Gt_Exp env x b) b' = x"
    and len: "length v1L = m" "length v1R = m" "length v2L = m" "length v2R = m"
             "length g1L = m" "length g1R = m" "length g2L = m" "length g2R = m"
             "length g1' = m" "length g2' = m"
  defines "s1L \<equiv> map (\<lambda>(x, y). G1_Add env x y) (zip v1L (map (\<lambda>g. G1_Mul env g b) g1L))"
      and "s1R \<equiv> map (\<lambda>(x, y). G1_Add env x y) (zip v1R (map (\<lambda>g. G1_Mul env g b) g1R))"
      and "s2L \<equiv> map (\<lambda>(x, y). G2_Add env x y) (zip v2L (map (\<lambda>g. G2_Mul env g b') g2L))"
      and "s2R \<equiv> map (\<lambda>(x, y). G2_Add env x y) (zip v2R (map (\<lambda>g. G2_Mul env g b') g2R))"
  defines "v1' \<equiv> map (\<lambda>(x, y). G1_Add env x y) (zip (map (\<lambda>g. G1_Mul env g a) s1L) s1R)"
      and "v2' \<equiv> map (\<lambda>(x, y). G2_Add env x y) (zip (map (\<lambda>g. G2_Mul env g a') s2L) s2R)"
  shows "ip env v1' v2' =
           foldl (Gt_Mul env) (Gt_Mul env (ip env v1L v2L) (ip env v1R v2R))
             [Gt_Mul env (ip env g1L g2L) (ip env g1R g2R),
              Gt_Exp env (Gt_Mul env (ip env g1L v2L) (ip env g1R v2R)) b,
              Gt_Exp env (Gt_Mul env (ip env v1L g2L) (ip env v1R g2R)) b',
              Gt_Exp env (ip env s1L s2R) a,
              Gt_Exp env (ip env s1R s2L) a']"
    and "ip env v1' g2' =
           foldl (Gt_Mul env) (Gt_Exp env (ip env v1L g2') a)
             [ip env v1R g2', Gt_Exp env (Gt_Exp env (ip env g1L g2') a) b,
              Gt_Exp env (ip env g1R g2') b]"
    and "ip env g1' v2' =
           foldl (Gt_Mul env) (Gt_Exp env (ip env g1' v2L) a')
             [ip env g1' v2R, Gt_Exp env (Gt_Exp env (ip env g1' g2L) a') b',
              Gt_Exp env (ip env g1' g2R) b']"
proof -
  have ca': "\<And>x. Gt_Exp env (Gt_Exp env x a') a = x"
    using ca Gt_Exp_commute[OF gt] by metis
  have cb': "\<And>x. Gt_Exp env (Gt_Exp env x b') b = x"
    using cb Gt_Exp_commute[OF gt] by metis
  note ipr = ip_add_left[OF gt pr] ip_add_right[OF gt pr] ip_mul_left[OF gt pr] ip_mul_right[OF gt pr]
  note G = gt_laws(1,2,3,8)[OF gt]
  have ls: "length s1L = m" "length s1R = m" "length s2L = m" "length s2R = m"
    using len by (simp_all add: s1L_def s1R_def s2L_def s2R_def)
  have LL: "ip env s1L s2L = Gt_Mul env (ip env v1L v2L) (Gt_Mul env (ip env g1L g2L)
              (Gt_Mul env (Gt_Exp env (ip env g1L v2L) b) (Gt_Exp env (ip env v1L g2L) b')))"
    unfolding s1L_def s2L_def using len by (simp add: ipr G cb)
  have RR: "ip env s1R s2R = Gt_Mul env (ip env v1R v2R) (Gt_Mul env (ip env g1R g2R)
              (Gt_Mul env (Gt_Exp env (ip env g1R v2R) b) (Gt_Exp env (ip env v1R g2R) b')))"
    unfolding s1R_def s2R_def using len by (simp add: ipr G cb)
  have top: "ip env v1' v2' = Gt_Mul env (ip env s1L s2L) (Gt_Mul env (ip env s1R s2R)
              (Gt_Mul env (Gt_Exp env (ip env s1L s2R) a) (Gt_Exp env (ip env s1R s2L) a')))"
    unfolding v1'_def v2'_def using ls by (simp add: ipr G ca)
  show "ip env v1' v2' =
           foldl (Gt_Mul env) (Gt_Mul env (ip env v1L v2L) (ip env v1R v2R))
             [Gt_Mul env (ip env g1L g2L) (ip env g1R g2R),
              Gt_Exp env (Gt_Mul env (ip env g1L v2L) (ip env g1R v2R)) b,
              Gt_Exp env (Gt_Mul env (ip env v1L g2L) (ip env v1R g2R)) b',
              Gt_Exp env (ip env s1L s2R) a,
              Gt_Exp env (ip env s1R s2L) a']"
    unfolding top LL RR by (simp add: G)
  have s1Lg: "ip env s1L g2' = Gt_Mul env (ip env v1L g2') (Gt_Exp env (ip env g1L g2') b)"
    unfolding s1L_def using len by (simp add: ipr G)
  have s1Rg: "ip env s1R g2' = Gt_Mul env (ip env v1R g2') (Gt_Exp env (ip env g1R g2') b)"
    unfolding s1R_def using len by (simp add: ipr G)
  have d1: "ip env v1' g2' = Gt_Mul env (Gt_Exp env (ip env s1L g2') a) (ip env s1R g2')"
    unfolding v1'_def using ls len by (simp add: ipr G)
  show "ip env v1' g2' =
           foldl (Gt_Mul env) (Gt_Exp env (ip env v1L g2') a)
             [ip env v1R g2', Gt_Exp env (Gt_Exp env (ip env g1L g2') a) b,
              Gt_Exp env (ip env g1R g2') b]"
    unfolding d1 s1Lg s1Rg by (simp add: G Gt_Exp_commute[OF gt, of _ b a])
  have s2Lg: "ip env g1' s2L = Gt_Mul env (ip env g1' v2L) (Gt_Exp env (ip env g1' g2L) b')"
    unfolding s2L_def using len by (simp add: ipr G)
  have s2Rg: "ip env g1' s2R = Gt_Mul env (ip env g1' v2R) (Gt_Exp env (ip env g1' g2R) b')"
    unfolding s2R_def using len by (simp add: ipr G)
  have d2: "ip env g1' v2' = Gt_Mul env (Gt_Exp env (ip env g1' s2L) a') (ip env g1' s2R)"
    unfolding v2'_def using ls len by (simp add: ipr G)
  show "ip env g1' v2' =
           foldl (Gt_Mul env) (Gt_Exp env (ip env g1' v2L) a')
             [ip env g1' v2R, Gt_Exp env (Gt_Exp env (ip env g1' g2L) a') b',
              Gt_Exp env (ip env g1' g2R) b']"
    unfolding d2 s2Lg s2Rg by (simp add: G Gt_Exp_commute[OF gt, of _ b' a'])
qed

section \<open>Inverses of scalars and the scalar-product base case\<close>

lemma InvModP_inverse:
  assumes "1 < q" "coprime k q"
  shows "(k * InvModP k q) mod q = 1"
proof -
  define a where "a = nat (k mod q)"
  define b where "b = nat q"
  have ab: "int a = k mod q" "int b = q" using assms(1) by (simp_all add: a_def b_def)
  have "coprime (k mod q) q" using assms by (simp add: coprime_mod_left_iff)
  then have g: "gcd (int a) (int b) = 1" unfolding ab by (simp add: coprime_iff_gcd_eq_1)
  then have "gcd a b = 1" by (metis gcd_int_int_eq of_nat_eq_1_iff)
  then have bz: "fst (bezw a b) * int a + snd (bezw a b) * int b = 1"
    using bezw_aux[of a b] by simp
  have "(fst (bezw a b) * (k mod q)) mod q = (fst (bezw a b) * (k mod q) + snd (bezw a b) * q) mod q"
    by simp
  also have "\<dots> = 1 mod q" using bz unfolding ab by simp
  also have "\<dots> = 1" using assms(1) by simp
  finally have "(fst (bezw a b) * k) mod q = 1" by (simp add: mod_simps)
  then show ?thesis
    using assms(2) by (simp add: InvModP_def a_def b_def mod_simps mult.commute)
qed

lemma inverse_Zr_cancel:
  assumes "scalars_ok env" "k mod GroupOrder env \<noteq> 0"
  shows "(k * inverse_Zr env k) mod GroupOrder env = 1"
proof -
  have q: "1 < GroupOrder env" using assms(1) by (simp add: scalars_ok_def)
  have "0 \<le> k mod GroupOrder env" using q by simp
  then have "0 < k mod GroupOrder env" using assms(2) by linarith
  moreover have "k mod GroupOrder env < GroupOrder env" using q by simp
  ultimately have "coprime (k mod GroupOrder env) (GroupOrder env)"
    using assms(1) by (simp add: scalars_ok_def)
  then have "coprime k (GroupOrder env)" using q by (simp add: coprime_mod_left_iff)
  then show ?thesis unfolding inverse_Zr_def by (rule InvModP_inverse[OF q])
qed

lemma Gt_Exp_cancel:
  assumes "scalars_ok env" "gt_ok env" "k mod GroupOrder env \<noteq> 0"
  shows "Gt_Exp env (Gt_Exp env x k) (inverse_Zr env k) = x"
proof -
  have "Gt_Exp env (Gt_Exp env x k) (inverse_Zr env k) = Gt_Exp env x (k * inverse_Zr env k)"
    by (rule gt_laws(7)[OF assms(2)])
  also have "\<dots> = Gt_Exp env x ((k * inverse_Zr env k) mod GroupOrder env)"
    by (rule gt_laws(9)[OF assms(2), symmetric])
  also have "\<dots> = x"
    unfolding inverse_Zr_cancel[OF assms(1,3)] by (rule gt_laws(5)[OF assms(2)])
  finally show ?thesis .
qed

lemma base_case_accepts:
  assumes ok: "curve_ok env" and d: "d mod GroupOrder env \<noteq> 0"
    and pp: "Gamma1 pp = [g1]" "Gamma2 pp = [g2]" "chi pp = ip env [g1] [g2]"
    and cmt: "cmt = \<lparr>cmt_C = ip env [x] [y], cmt_D1 = ip env [x] [g2], cmt_D2 = ip env [g1] [y]\<rparr>"
  shows "ScalarProductProofElements_Verify env d \<lparr>sppe_PP = Some pp, sppe_E1 = [x], sppe_E2 = [y]\<rparr> cmt
           = Ret None"
proof -
  have gt: "gt_ok env" and pr: "pairing_ok env" and sc: "scalars_ok env"
    using ok by (auto simp: curve_ok_def)
  note c = Gt_Exp_cancel[OF sc gt d]
  note G = gt_laws(1,2,3,8)[OF gt]
  have "e env (G1_Add env x (G1_Mul env g1 d)) (G2_Add env y (G2_Mul env g2 (inverse_Zr env d)))
        = Gt_Mul env (Gt_Mul env (Gt_Mul env (e env g1 g2) (e env x y)) (Gt_Exp env (e env g1 y) d))
            (Gt_Exp env (e env x g2) (inverse_Zr env d))"
    by (simp add: pairing_laws[OF pr] G c)
  then show ?thesis
    using pp cmt
    by (simp add: ScalarProductProofElements_Verify_def Let_def index0_def deref_def addG1_def
        addG2_def mulGt_def gt_one_right[OF gt])
qed

section \<open>One round of the reduction\<close>

lemma FieldElementFromBytes_Ret:
  "scalars_ok env \<Longrightarrow> \<exists>c. FieldElementFromBytes env (sha256 env bs) = Ret c"
  by (simp add: FieldElementFromBytes_def feFrom256Bits_limbs scalars_ok_def)

lemma mulGt_Cons: "mulGt env (x # xs) = Ret (foldl (Gt_Mul env) x xs)"
  by (simp add: mulGt_def)

lemma reduce_round:
  fixes env :: "('g1, 'g2, 'gt, 'ml) curve"
  assumes ok: "curve_ok env"
    and pp: "pp_ok env pp n" and n: "2 \<le> n" "even n"
    and len: "length v1 = n" "length v2 = n"
  shows "\<exists>st1 st2 \<beta> \<alpha> v1' v2' nc.
     Step1_RO env st1 = Ret (\<beta>, st1) \<and> Step2_RO env st2 = Ret \<alpha> \<and>
     length v1' = n div 2 \<and> length v2' = n div 2 \<and>
     reduce env (pp # pps) \<lparr>w_V1 = v1, w_V2 = v2\<rparr> cmt =
       (if n div 2 = 1 then
          rbind (index0 pps) (\<lambda>pp1.
            Ret ([st1], [st2], ScalarProductProof pp1 \<lparr>w_V1 = v1', w_V2 = v2'\<rparr>))
        else
          rbind (reduce env pps \<lparr>w_V1 = v1', w_V2 = v2'\<rparr> nc) (\<lambda>(a, b, c).
            Ret (st1 # a, st2 # b, c))) \<and>
     (\<forall>d pp' pps' r1 r2 fin.
        verifyReduce env d (pp # pp' # pps') cmt (st1 # r1) (st2 # r2) fin
          = verifyReduce env d (pp' # pps') nc r1 r2 fin) \<and>
     (\<forall>pp'. consistent env pp v1 v2 cmt \<and> \<beta> mod GroupOrder env \<noteq> 0 \<and> \<alpha> mod GroupOrder env \<noteq> 0
         \<and> Gamma1 pp' = Gamma1Prime (ReducePP pp) \<and> Gamma2 pp' = Gamma2Prime (ReducePP pp)
        \<longrightarrow> consistent env pp' v1' v2' nc)"
proof -
  have gt: "gt_ok env" and pr: "pairing_ok env" and sc: "scalars_ok env"
    using ok by (auto simp: curve_ok_def)
  define m where "m = n div 2"
  have m: "0 < m" "n = 2 * m" "n \<noteq> 1" using n by (auto simp: m_def)
  define \<Gamma>1 where "\<Gamma>1 = Gamma1 pp"
  define \<Gamma>2 where "\<Gamma>2 = Gamma2 pp"
  define \<Gamma>1' where "\<Gamma>1' = Gamma1Prime (ReducePP pp)"
  define \<Gamma>2' where "\<Gamma>2' = Gamma2Prime (ReducePP pp)"
  have lG: "length \<Gamma>1 = n" "length \<Gamma>2 = n" "length \<Gamma>1' = m" "length \<Gamma>2' = m"
    using pp m(3) by (simp_all add: pp_ok_def rpp_ok_def \<Gamma>1_def \<Gamma>2_def \<Gamma>1'_def \<Gamma>2'_def m_def)
  have ne: "\<Gamma>1' \<noteq> []" "\<Gamma>2' \<noteq> []" using lG m(1) by auto
  have IP: "InnerProd env a b = Ret (ip env a b)" if "length a = m" "length b = m" for a b
    using that m(1) by (intro InnerProd_ip[OF gt pr]) auto
  have tk: "length (take m v1) = m" "length (drop m v1) = m" "length (take m v2) = m"
    "length (drop m v2) = m" "length (take m \<Gamma>1) = m" "length (drop m \<Gamma>1) = m"
    "length (take m \<Gamma>2) = m" "length (drop m \<Gamma>2) = m"
    using len lG m(2) by simp_all
  obtain \<Delta>1L \<Delta>1R \<Delta>2L \<Delta>2R where D:
    "Delta1L (ReducePP pp) = Some \<Delta>1L" "InnerProd env (take m \<Gamma>1) \<Gamma>2' = Ret \<Delta>1L"
    "Delta1R (ReducePP pp) = Some \<Delta>1R" "InnerProd env (drop m \<Gamma>1) \<Gamma>2' = Ret \<Delta>1R"
    "Delta2L (ReducePP pp) = Some \<Delta>2L" "InnerProd env \<Gamma>1' (take m \<Gamma>2) = Ret \<Delta>2L"
    "Delta2R (ReducePP pp) = Some \<Delta>2R" "InnerProd env \<Gamma>1' (drop m \<Gamma>2) = Ret \<Delta>2R"
    using pp m(3) unfolding pp_ok_def rpp_ok_def \<Gamma>1_def \<Gamma>2_def \<Gamma>1'_def \<Gamma>2'_def m_def
    by auto
  have Dv: "\<Delta>1L = ip env (take m \<Gamma>1) \<Gamma>2'" "\<Delta>1R = ip env (drop m \<Gamma>1) \<Gamma>2'"
    "\<Delta>2L = ip env \<Gamma>1' (take m \<Gamma>2)" "\<Delta>2R = ip env \<Gamma>1' (drop m \<Gamma>2)"
    using D IP tk lG by simp_all
  have chi: "chi pp = ip env \<Gamma>1 \<Gamma>2"
  proof -
    have "InnerProd env \<Gamma>1 \<Gamma>2 = Ret (ip env \<Gamma>1 \<Gamma>2)"
      using lG n by (intro InnerProd_ip[OF gt pr]) auto
    then show ?thesis using pp by (simp add: pp_ok_def \<Gamma>1_def \<Gamma>2_def)
  qed
  define pre1 where "pre1 = \<lparr>s1_ppDigest = pp_digest pp, s1_digest = [],
      s1_D1L = ip env (take m v1) \<Gamma>2', s1_D1R = ip env (drop m v1) \<Gamma>2',
      s1_D2L = ip env \<Gamma>1' (take m v2), s1_D2R = ip env \<Gamma>1' (drop m v2),
      s1_C = cmt_C cmt, s1_D1 = cmt_D1 cmt, s1_D2 = cmt_D2 cmt\<rparr>"
  define dg1 where "dg1 = sha256Digest env (Step1_Bytes env pre1)"
  define st1 where "st1 = pre1\<lparr>s1_digest := dg1\<rparr>"
  obtain \<beta> where \<beta>: "FieldElementFromBytes env dg1 = Ret \<beta>"
    using FieldElementFromBytes_Ret[OF sc] unfolding dg1_def sha256Digest_def by blast
  have ro1: "Step1_RO env pre1 = Ret (\<beta>, st1)"
    using \<beta> by (simp add: Step1_RO_def Let_def st1_def dg1_def)
  have bytes1: "Step1_Bytes env st1 = Step1_Bytes env pre1"
    by (simp add: Step1_Bytes_def st1_def)
  have ro1': "Step1_RO env st1 = Ret (\<beta>, st1)"
    using \<beta> by (simp add: Step1_RO_def Let_def bytes1 dg1_def[symmetric]) (simp add: st1_def)
  define \<beta>' where "\<beta>' = inverse_Zr env \<beta>"
  define s1 where "s1 = map (\<lambda>(x, y). G1_Add env x y) (zip v1 (map (\<lambda>g. G1_Mul env g \<beta>) \<Gamma>1))"
  define s2 where "s2 = map (\<lambda>(x, y). G2_Add env x y) (zip v2 (map (\<lambda>g. G2_Mul env g \<beta>') \<Gamma>2))"
  have ls: "length s1 = n" "length s2 = n" using len lG by (simp_all add: s1_def s2_def)
  have add1: "G1v_Add env v1 (G1v_Mul env \<Gamma>1 \<beta>) = Ret s1"
    using len lG by (simp add: G1v_Add_def G1v_Mul_def s1_def)
  have add2: "G2v_Add env v2 (G2v_Mul env \<Gamma>2 \<beta>') = Ret s2"
    using len lG by (simp add: G2v_Add_def G2v_Mul_def s2_def)
  have tks: "length (take m s1) = m" "length (drop m s1) = m" "length (take m s2) = m"
    "length (drop m s2) = m"
    using ls m(2) by simp_all
  define Cplus where "Cplus = ip env (take m s1) (drop m s2)"
  define Cminus where "Cminus = ip env (drop m s1) (take m s2)"
  define st2 where "st2 = \<lparr>s2_ReduceProverStep1ElementsDigest = dg1, s2_Cplus = Cplus,
      s2_Cminus = Cminus\<rparr>"
  have dg1_len: "length dg1 = 32" using sc by (simp add: dg1_def sha256Digest_def scalars_ok_def)
  obtain \<alpha> where \<alpha>: "Step2_RO env st2 = Ret \<alpha>"
    using FieldElementFromBytes_Ret[OF sc] dg1_len
    unfolding Step2_RO_def Step2_Bytes_def st2_def sha256Digest_def by fastforce
  define \<alpha>' where "\<alpha>' = inverse_Zr env \<alpha>"
  define v1' where "v1' = map (\<lambda>(x, y). G1_Add env x y)
      (zip (map (\<lambda>g. G1_Mul env g \<alpha>) (take m s1)) (drop m s1))"
  define v2' where "v2' = map (\<lambda>(x, y). G2_Add env x y)
      (zip (map (\<lambda>g. G2_Mul env g \<alpha>') (take m s2)) (drop m s2))"
  have lv': "length v1' = m" "length v2' = m" using tks by (simp_all add: v1'_def v2'_def)
  have add1': "G1v_Add env (G1v_Mul env (take m s1) \<alpha>) (drop m s1) = Ret v1'"
    using tks by (simp add: G1v_Add_def G1v_Mul_def v1'_def)
  have add2': "G2v_Add env (G2v_Mul env (take m s2) \<alpha>') (drop m s2) = Ret v2'"
    using tks by (simp add: G2v_Add_def G2v_Mul_def v2'_def)
  define nc where "nc = \<lparr>cmt_C = foldl (Gt_Mul env) (cmt_C cmt)
        [chi pp, Gt_Exp env (cmt_D2 cmt) \<beta>, Gt_Exp env (cmt_D1 cmt) \<beta>',
         Gt_Exp env Cplus \<alpha>, Gt_Exp env Cminus \<alpha>'],
      cmt_D1 = foldl (Gt_Mul env) (Gt_Exp env (ip env (take m v1) \<Gamma>2') \<alpha>)
        [ip env (drop m v1) \<Gamma>2', Gt_Exp env (Gt_Exp env \<Delta>1L \<alpha>) \<beta>, Gt_Exp env \<Delta>1R \<beta>],
      cmt_D2 = foldl (Gt_Mul env) (Gt_Exp env (ip env \<Gamma>1' (take m v2)) \<alpha>')
        [ip env \<Gamma>1' (drop m v2), Gt_Exp env (Gt_Exp env \<Delta>2L \<alpha>') \<beta>', Gt_Exp env \<Delta>2R \<beta>']\<rparr>"
  have nxt: "nextCommitment env pp cmt st1 Cplus Cminus \<alpha> \<beta> = Ret nc"
    using D(1,3,5,7)
    by (simp add: nextCommitment_def Let_def mulGt_Cons deref_def nc_def st1_def pre1_def
        \<alpha>'_def \<beta>'_def)
  have sl: "slice_to v1 (int m) = Ret (take m v1)" "slice_from v1 (int m) = Ret (drop m v1)"
    "slice_to v2 (int m) = Ret (take m v2)" "slice_from v2 (int m) = Ret (drop m v2)"
    "slice_to s1 (int m) = Ret (take m s1)" "slice_from s1 (int m) = Ret (drop m s1)"
    "slice_to s2 (int m) = Ret (take m s2)" "slice_from s2 (int m) = Ret (drop m s2)"
    using len ls m(2) by (simp_all add: slice_to_def slice_from_def)
  have gq: "go_quot (int (length \<Gamma>1)) 2 = int m"
    using lG(1) by (simp add: m_def)
  have m1: "(int m = 1) = (m = 1)" by simp
  have dg: "s1_digest st1 = dg1" by (simp add: st1_def)
  have red: "reduce env (pp # pps) \<lparr>w_V1 = v1, w_V2 = v2\<rparr> cmt =
       (if m = 1 then
          rbind (index0 pps) (\<lambda>pp1.
            Ret ([st1], [st2], ScalarProductProof pp1 \<lparr>w_V1 = v1', w_V2 = v2'\<rparr>))
        else
          rbind (reduce env pps \<lparr>w_V1 = v1', w_V2 = v2'\<rparr> nc) (\<lambda>(a, b, c).
            Ret (st1 # a, st2 # b, c)))"
    apply (simp only: reduce.simps Let_def gq Witness.simps sl rbind_Ret
        \<Gamma>1_def[symmetric] \<Gamma>2_def[symmetric] \<Gamma>1'_def[symmetric] \<Gamma>2'_def[symmetric]
        IP[OF tk(1) lG(4)] IP[OF tk(2) lG(4)] IP[OF lG(3) tk(3)] IP[OF lG(3) tk(4)]
        pre1_def[symmetric] ro1 prod.case \<beta>'_def[symmetric] add1 add2
        IP[OF tks(1) tks(4)] IP[OF tks(2) tks(3)] Cplus_def[symmetric] Cminus_def[symmetric]
        st1_def[symmetric] dg st2_def[symmetric] \<alpha> \<alpha>'_def[symmetric] add1' add2' nxt m1)
    done
  have pre1_eq: "\<lparr>s1_ppDigest = pp_digest pp, s1_digest = [],
              s1_D1L = s1_D1L st1, s1_D1R = s1_D1R st1, s1_D2L = s1_D2L st1, s1_D2R = s1_D2R st1,
              s1_C = cmt_C cmt, s1_D1 = cmt_D1 cmt, s1_D2 = cmt_D2 cmt\<rparr> = pre1"
    by (simp add: st1_def pre1_def)
  have st2_eq: "\<lparr>s2_ReduceProverStep1ElementsDigest = s1_digest st1,
                s2_Cplus = s2_Cplus st2, s2_Cminus = s2_Cminus st2\<rparr> = st2"
    by (simp add: st2_def st1_def)
  have cpm: "s2_Cplus st2 = Cplus" "s2_Cminus st2 = Cminus" by (simp_all add: st2_def)
  have ver: "verifyReduce env d (pp # pp' # pps') cmt (st1 # r1) (st2 # r2) fin
          = verifyReduce env d (pp' # pps') nc r1 r2 fin" for d pp' pps' r1 r2 fin
    by (simp only: verifyReduce.simps index0_def list.case Let_def rbind_Ret pre1_eq ro1
        prod.case cpm dg st2_def[symmetric] \<alpha> nxt list.sel)
  have cons: "consistent env pp' v1' v2' nc"
    if c: "consistent env pp v1 v2 cmt" and bz: "\<beta> mod GroupOrder env \<noteq> 0"
      and az: "\<alpha> mod GroupOrder env \<noteq> 0"
      and g': "Gamma1 pp' = Gamma1Prime (ReducePP pp)" "Gamma2 pp' = Gamma2Prime (ReducePP pp)"
    for pp'
  proof -
    have ca: "\<And>x. Gt_Exp env (Gt_Exp env x \<alpha>) \<alpha>' = x"
      unfolding \<alpha>'_def by (rule Gt_Exp_cancel[OF sc gt az])
    have cb: "\<And>x. Gt_Exp env (Gt_Exp env x \<beta>) \<beta>' = x"
      unfolding \<beta>'_def by (rule Gt_Exp_cancel[OF sc gt bz])
    have h1: "take m s1 = map (\<lambda>(x, y). G1_Add env x y)
                (zip (take m v1) (map (\<lambda>g. G1_Mul env g \<beta>) (take m \<Gamma>1)))"
      "drop m s1 = map (\<lambda>(x, y). G1_Add env x y)
                (zip (drop m v1) (map (\<lambda>g. G1_Mul env g \<beta>) (drop m \<Gamma>1)))"
      "take m s2 = map (\<lambda>(x, y). G2_Add env x y)
                (zip (take m v2) (map (\<lambda>g. G2_Mul env g \<beta>') (take m \<Gamma>2)))"
      "drop m s2 = map (\<lambda>(x, y). G2_Add env x y)
                (zip (drop m v2) (map (\<lambda>g. G2_Mul env g \<beta>') (drop m \<Gamma>2)))"
      by (simp_all add: s1_def s2_def take_map drop_map take_zip drop_zip)
    note alg = reduce_round_algebra[OF gt pr ca cb tk(1,2,3,4,5,6,7,8) lG(3,4),
        folded h1, folded v1'_def v2'_def]
    have sp: "ip env v1 v2 = Gt_Mul env (ip env (take m v1) (take m v2)) (ip env (drop m v1) (drop m v2))"
      "ip env \<Gamma>1 \<Gamma>2 = Gt_Mul env (ip env (take m \<Gamma>1) (take m \<Gamma>2)) (ip env (drop m \<Gamma>1) (drop m \<Gamma>2))"
      "ip env \<Gamma>1 v2 = Gt_Mul env (ip env (take m \<Gamma>1) (take m v2)) (ip env (drop m \<Gamma>1) (drop m v2))"
      "ip env v1 \<Gamma>2 = Gt_Mul env (ip env (take m v1) (take m \<Gamma>2)) (ip env (drop m v1) (drop m \<Gamma>2))"
      using len lG by (intro ip_split[OF gt]; simp)+
    have cc: "cmt_C cmt = ip env v1 v2" "cmt_D1 cmt = ip env v1 \<Gamma>2" "cmt_D2 cmt = ip env \<Gamma>1 v2"
      using c by (simp_all add: consistent_def \<Gamma>1_def \<Gamma>2_def)
    show ?thesis
      unfolding consistent_def nc_def cc chi sp Dv Cplus_def Cminus_def g' 
        \<Gamma>1'_def[symmetric] \<Gamma>2'_def[symmetric] alg
      by simp
  qed
  show ?thesis
    apply (rule exI[of _ st1], rule exI[of _ st2], rule exI[of _ \<beta>], rule exI[of _ \<alpha>],
        rule exI[of _ v1'], rule exI[of _ v2'], rule exI[of _ nc])
    using ro1' \<alpha> lv' red ver cons unfolding m_def by blast
qed

section \<open>Completeness of the reduction\<close>

lemma list_len1: "length xs = Suc 0 \<Longrightarrow> \<exists>x. xs = [x]"
  by (cases xs) auto

lemma dory_reduce_base:
  fixes env :: "('g1, 'g2, 'gt, 'ml) curve"
  assumes ok: "curve_ok env"
  shows "chain_ok env n chain \<Longrightarrow> 2 \<le> n \<Longrightarrow> length v1 = n \<Longrightarrow> length v2 = n \<Longrightarrow>
     \<exists>s1 s2 fin. reduce env chain \<lparr>w_V1 = v1, w_V2 = v2\<rparr> cmt = Ret (s1, s2, fin) \<and>
       length s1 = length chain - 1 \<and> length s2 = length chain - 1 \<and>
       (consistent env (hd chain) v1 v2 cmt \<and> list_all (step1_nonzero env) s1 \<and>
        list_all (step2_nonzero env) s2
          \<longrightarrow> (\<exists>nc. base_instance env (last chain) fin nc \<and>
                 (\<forall>d. verifyReduce env d chain cmt s1 s2 fin
                        = ScalarProductProofElements_Verify env d fin nc)))"
proof (induction chain arbitrary: n v1 v2 cmt)
  case Nil
  then show ?case by simp
next
  case (Cons pp rest)
  have gt: "gt_ok env" and pr: "pairing_ok env" and sc: "scalars_ok env"
    using ok by (auto simp: curve_ok_def)
  obtain pp' pps where rest: "rest = pp' # pps"
    using Cons.prems(1,2) by (cases rest) auto
  have c: "even n" "pp_ok env pp n" "Gamma1 pp' = Gamma1Prime (ReducePP pp)"
    "Gamma2 pp' = Gamma2Prime (ReducePP pp)" "chain_ok env (n div 2) (pp' # pps)"
    using Cons.prems(1) rest by auto
  obtain st1 st2 \<beta> \<alpha> v1' v2' nc where r:
    "Step1_RO env st1 = Ret (\<beta>, st1)" "Step2_RO env st2 = Ret \<alpha>"
    "length v1' = n div 2" "length v2' = n div 2"
    "reduce env (pp # pp' # pps) \<lparr>w_V1 = v1, w_V2 = v2\<rparr> cmt =
       (if n div 2 = 1 then
          rbind (index0 (pp' # pps)) (\<lambda>pp1.
            Ret ([st1], [st2], ScalarProductProof pp1 \<lparr>w_V1 = v1', w_V2 = v2'\<rparr>))
        else
          rbind (reduce env (pp' # pps) \<lparr>w_V1 = v1', w_V2 = v2'\<rparr> nc) (\<lambda>(a, b, c).
            Ret (st1 # a, st2 # b, c)))"
    "\<And>d pp' pps' r1 r2 fin.
        verifyReduce env d (pp # pp' # pps') cmt (st1 # r1) (st2 # r2) fin
          = verifyReduce env d (pp' # pps') nc r1 r2 fin"
    "\<And>pp'. consistent env pp v1 v2 cmt \<and> \<beta> mod GroupOrder env \<noteq> 0 \<and> \<alpha> mod GroupOrder env \<noteq> 0
         \<and> Gamma1 pp' = Gamma1Prime (ReducePP pp) \<and> Gamma2 pp' = Gamma2Prime (ReducePP pp)
        \<Longrightarrow> consistent env pp' v1' v2' nc"
    using reduce_round[OF ok c(2) Cons.prems(2) c(1) Cons.prems(3,4), of "pp' # pps" cmt]
    by blast
  have nz: "\<beta> mod GroupOrder env \<noteq> 0" if "step1_nonzero env st1"
    using that r(1) by (simp add: step1_nonzero_def)
  have nz2: "\<alpha> mod GroupOrder env \<noteq> 0" if "step2_nonzero env st2"
    using that r(2) by (simp add: step2_nonzero_def)
  show ?case
  proof (cases "n div 2 = 1")
    case True
    have pps: "pps = []" using c(5) True by (cases pps) auto
    have pp1: "pp_ok env pp' 1" using c(5) True pps by simp
    define fin where "fin = ScalarProductProof pp' \<lparr>w_V1 = v1', w_V2 = v2'\<rparr>"
    have red: "reduce env (pp # rest) \<lparr>w_V1 = v1, w_V2 = v2\<rparr> cmt = Ret ([st1], [st2], fin)"
      using r(5) True by (simp add: rest index0_def fin_def)
    have ver: "\<exists>nc. base_instance env (last (pp # rest)) fin nc \<and>
                 (\<forall>d. verifyReduce env d (pp # rest) cmt [st1] [st2] fin
                        = ScalarProductProofElements_Verify env d fin nc)"
      if a: "consistent env pp v1 v2 cmt" "step1_nonzero env st1" "step2_nonzero env st2"
    proof -
      have cons: "consistent env pp' v1' v2' nc"
        by (rule r(7)[of pp']) (use a nz nz2 c(3,4) in simp)
      obtain x where x: "v1' = [x]" using r(3) True list_len1 by auto
      obtain y where y: "v2' = [y]" using r(4) True list_len1 by auto
      obtain g1 where g1: "Gamma1 pp' = [g1]" using pp1 list_len1 by (auto simp: pp_ok_def)
      obtain g2 where g2: "Gamma2 pp' = [g2]" using pp1 list_len1 by (auto simp: pp_ok_def)
      have "InnerProd env [g1] [g2] = Ret (ip env [g1] [g2])"
        by (intro InnerProd_ip[OF gt pr]) auto
      then have chi: "chi pp' = ip env [g1] [g2]" using pp1 g1 g2 by (simp add: pp_ok_def)
      have nc: "nc = \<lparr>cmt_C = ip env [x] [y], cmt_D1 = ip env [x] [g2], cmt_D2 = ip env [g1] [y]\<rparr>"
        using cons x y g1 g2 by (simp add: consistent_def)
      have f: "fin = \<lparr>sppe_PP = Some pp', sppe_E1 = [x], sppe_E2 = [y]\<rparr>"
        by (simp add: fin_def ScalarProductProof_def x y)
      have b: "base_instance env (last (pp # rest)) fin nc"
        unfolding base_instance_def using f g1 g2 chi nc by (simp add: rest pps)
      have "verifyReduce env d (pp # rest) cmt [st1] [st2] fin
              = ScalarProductProofElements_Verify env d fin nc" for d
      proof -
        have "verifyReduce env d (pp # rest) cmt [st1] [st2] fin
                = verifyReduce env d [pp'] nc [] [] fin"
          unfolding rest pps by (rule r(6))
        then show ?thesis by simp
      qed
      with b show ?thesis by blast
    qed
    show ?thesis
      using red ver by (auto simp: rest pps)
  next
    case False
    then have n2: "2 \<le> n div 2" using Cons.prems(2) by linarith
    note IH = Cons.IH[unfolded rest, OF c(5) n2 r(3) r(4), of nc]
    then obtain s1 s2 fin where ih:
      "reduce env (pp' # pps) \<lparr>w_V1 = v1', w_V2 = v2'\<rparr> nc = Ret (s1, s2, fin)"
      "length s1 = length (pp' # pps) - 1" "length s2 = length (pp' # pps) - 1"
      "consistent env (hd (pp' # pps)) v1' v2' nc \<and> list_all (step1_nonzero env) s1 \<and>
        list_all (step2_nonzero env) s2
          \<longrightarrow> (\<exists>nc'. base_instance env (last (pp' # pps)) fin nc' \<and>
                 (\<forall>d. verifyReduce env d (pp' # pps) nc s1 s2 fin
                        = ScalarProductProofElements_Verify env d fin nc'))"
      apply -
      apply (erule exE)+
      apply (erule conjE)+
      apply assumption
      done
    have red: "reduce env (pp # rest) \<lparr>w_V1 = v1, w_V2 = v2\<rparr> cmt = Ret (st1 # s1, st2 # s2, fin)"
      using r(5) False ih(1) by (simp add: rest)
    have ver: "\<exists>nc'. base_instance env (last (pp # rest)) fin nc' \<and>
                 (\<forall>d. verifyReduce env d (pp # rest) cmt (st1 # s1) (st2 # s2) fin
                        = ScalarProductProofElements_Verify env d fin nc')"
      if a: "consistent env pp v1 v2 cmt" "step1_nonzero env st1" "step2_nonzero env st2"
        "list_all (step1_nonzero env) s1" "list_all (step2_nonzero env) s2"
    proof -
      have cons: "consistent env pp' v1' v2' nc"
        by (rule r(7)[of pp']) (use a nz nz2 c(3,4) in simp)
      obtain nc' where n': "base_instance env (last (pp' # pps)) fin nc'"
        "\<And>d. verifyReduce env d (pp' # pps) nc s1 s2 fin
               = ScalarProductProofElements_Verify env d fin nc'"
        using ih(4) cons a by auto
      have "verifyReduce env d (pp # rest) cmt (st1 # s1) (st2 # s2) fin
              = ScalarProductProofElements_Verify env d fin nc'" for d
      proof -
        have "verifyReduce env d (pp # rest) cmt (st1 # s1) (st2 # s2) fin
                = verifyReduce env d (pp' # pps) nc s1 s2 fin"
          unfolding rest by (rule r(6))
        then show ?thesis using n'(2) by simp
      qed
      moreover have "base_instance env (last (pp # rest)) fin nc'"
        using n'(1) by (simp add: rest)
      ultimately show ?thesis by blast
    qed
    show ?thesis
      using red ver ih(2,3) by (auto simp: rest)
  qed
qed


lemma Gt_Exp_neg_cancel:
  assumes "gt_ok env"
  shows "Gt_Mul env x (Gt_Exp env x (- 1)) = gt_one env"
proof -
  have "Gt_Mul env x (Gt_Exp env x (- 1)) = Gt_Mul env (Gt_Exp env x 1) (Gt_Exp env x (- 1))"
    by (simp add: gt_laws(5)[OF assms])
  also have "\<dots> = Gt_Exp env x (1 + (- 1))"
    by (rule gt_laws(6)[OF assms, symmetric])
  finally show ?thesis by (simp add: Gt_Exp_0[OF assms])
qed

lemma Gt_Mul_left_cancel:
  assumes "gt_ok env" and "Gt_Mul env a x = x"
  shows "a = gt_one env"
proof -
  have "a = Gt_Mul env a (Gt_Mul env x (Gt_Exp env x (- 1)))"
    by (simp add: Gt_Exp_neg_cancel[OF assms(1)] gt_one_right[OF assms(1)])
  also have "\<dots> = Gt_Mul env (Gt_Mul env a x) (Gt_Exp env x (- 1))"
    by (simp add: gt_laws(1)[OF assms(1)])
  also have "\<dots> = gt_one env"
    by (simp add: assms(2) Gt_Exp_neg_cancel[OF assms(1)])
  finally show ?thesis .
qed

lemma base_case_zero:
  assumes ok: "curve_ok env" and b: "base_instance env pl fin nc" and chi: "chi pl \<noteq> gt_one env"
  shows "ScalarProductProofElements_Verify env 0 fin nc = Ret (Some ''proof invalid'')"
proof -
  have gt: "gt_ok env" and pr: "pairing_ok env" and sc: "scalars_ok env"
    and g1: "g1_ok env" and g2: "g2_ok env"
    using ok by (auto simp: curve_ok_def)
  obtain x y a c where f: "fin = \<lparr>sppe_PP = Some pl, sppe_E1 = [x], sppe_E2 = [y]\<rparr>"
    and p: "Gamma1 pl = [a]" "Gamma2 pl = [c]"
    and nc: "nc = \<lparr>cmt_C = ip env [x] [y], cmt_D1 = ip env [x] [c], cmt_D2 = ip env [a] [y]\<rparr>"
    using b unfolding base_instance_def by blast
  have i0: "inverse_Zr env 0 = 0"
    using sc by (simp add: inverse_Zr_def InvModP_def scalars_ok_def)
  have ne: "e env x y \<noteq> Gt_Mul env (chi pl) (e env x y)"
    using Gt_Mul_left_cancel[OF gt, of "chi pl" "e env x y"] chi by auto
  show ?thesis
    using ne
    by (simp add: ScalarProductProofElements_Verify_def Let_def f p nc index0_def deref_def
        addG1_def addG2_def mulGt_def i0 g1_laws(10)[OF g1] g2_laws(9)[OF g2]
        Gt_Exp_0[OF gt] gt_one_right[OF gt])
qed

lemma dory_reduce_verify:
  fixes env :: "('g1, 'g2, 'gt, 'ml) curve"
  assumes ok: "curve_ok env"
    and ch: "chain_ok env n chain" "2 \<le> n" "length v1 = n" "length v2 = n"
  shows "\<exists>s1 s2 fin. reduce env chain \<lparr>w_V1 = v1, w_V2 = v2\<rparr> cmt = Ret (s1, s2, fin) \<and>
       length s1 = length chain - 1 \<and> length s2 = length chain - 1 \<and>
       (consistent env (hd chain) v1 v2 cmt \<and> list_all (step1_nonzero env) s1 \<and>
        list_all (step2_nonzero env) s2 \<longrightarrow>
          (\<forall>d. d mod GroupOrder env \<noteq> 0 \<longrightarrow> verifyReduce env d chain cmt s1 s2 fin = Ret None) \<and>
          (chi (last chain) \<noteq> gt_one env \<longrightarrow>
             verifyReduce env 0 chain cmt s1 s2 fin = Ret (Some ''proof invalid'')))"
proof -
  obtain s1 s2 fin where r: "reduce env chain \<lparr>w_V1 = v1, w_V2 = v2\<rparr> cmt = Ret (s1, s2, fin)"
    "length s1 = length chain - 1" "length s2 = length chain - 1"
    and v: "consistent env (hd chain) v1 v2 cmt \<and> list_all (step1_nonzero env) s1 \<and>
        list_all (step2_nonzero env) s2
          \<longrightarrow> (\<exists>nc. base_instance env (last chain) fin nc \<and>
                 (\<forall>d. verifyReduce env d chain cmt s1 s2 fin
                        = ScalarProductProofElements_Verify env d fin nc))"
    using dory_reduce_base[OF ok ch, of cmt] by (elim exE conjE) (rule that)
  have "(\<forall>d. d mod GroupOrder env \<noteq> 0 \<longrightarrow> verifyReduce env d chain cmt s1 s2 fin = Ret None) \<and>
          (chi (last chain) \<noteq> gt_one env \<longrightarrow>
             verifyReduce env 0 chain cmt s1 s2 fin = Ret (Some ''proof invalid''))"
    if a: "consistent env (hd chain) v1 v2 cmt" "list_all (step1_nonzero env) s1"
      "list_all (step2_nonzero env) s2"
  proof -
    obtain nc where b: "base_instance env (last chain) fin nc"
      and e: "\<And>d. verifyReduce env d chain cmt s1 s2 fin
                 = ScalarProductProofElements_Verify env d fin nc"
      using v a by auto
    obtain x y g1 g2 where f: "fin = \<lparr>sppe_PP = Some (last chain), sppe_E1 = [x], sppe_E2 = [y]\<rparr>"
      and p: "Gamma1 (last chain) = [g1]" "Gamma2 (last chain) = [g2]"
        "chi (last chain) = ip env [g1] [g2]"
      and nc: "nc = \<lparr>cmt_C = ip env [x] [y], cmt_D1 = ip env [x] [g2], cmt_D2 = ip env [g1] [y]\<rparr>"
      using b unfolding base_instance_def by blast
    have "verifyReduce env d chain cmt s1 s2 fin = Ret None" if "d mod GroupOrder env \<noteq> 0" for d
    proof -
      have "ScalarProductProofElements_Verify env d fin nc = Ret None"
        unfolding f by (rule base_case_accepts[OF ok that p nc])
      then show ?thesis by (simp only: e)
    qed
    moreover have "verifyReduce env 0 chain cmt s1 s2 fin = Ret (Some ''proof invalid'')"
      if "chi (last chain) \<noteq> gt_one env"
      unfolding e by (rule base_case_zero[OF ok b that])
    ultimately show ?thesis by blast
  qed
  with r show ?thesis by blast
qed
section \<open>The parameter chain\<close>

lemma reducePP_ok:
  assumes "length (Gamma1 pp) = n" "length (Gamma2 pp) = n" "(2 \<le> n \<and> even n) \<or> n = 1"
  shows "\<exists>r. reducePP env pp (int n) = Ret r \<and> rpp_ok env (pp\<lparr>ReducePP := r\<rparr>) n"
proof (cases "n = 1")
  case True
  then show ?thesis by (simp add: reducePP_def rpp_ok_def)
next
  case False
  with assms have n2: "2 \<le> n" "even n" by auto
  define m where "m = n div 2"
  have m: "0 < m" "m \<le> n" "int n div 2 = int m" "n - m \<noteq> 0" using n2 by (auto simp: m_def)
  define g1 where "g1 = map (\<lambda>i. psuedoRandomG1 env (int m) (int i)) [0..<m]"
  define g2 where "g2 = map (\<lambda>i. psuedoRandomG2 env (int m) (int i)) [0..<m]"
  have g: "randomG1Vector env (int m) = Ret g1" "randomG2Vector env (int m) = Ret g2"
    "length g1 = m" "length g2 = m" "g1 \<noteq> []" "g2 \<noteq> []"
    using m by (auto simp: randomG1Vector_def randomG2Vector_def g1_def g2_def)
  have tk: "length (take m (Gamma1 pp)) = m" "length (take m (Gamma2 pp)) = m"
    "length (drop m (Gamma1 pp)) = m" "length (drop m (Gamma2 pp)) = m"
    using assms n2 by (auto simp: m_def elim: evenE)
  have ne: "take m (Gamma1 pp) \<noteq> []" "drop m (Gamma1 pp) \<noteq> []"
    using tk m by (metis length_0_conv less_numeral_extra(3))+
  obtain D1L where D1L: "InnerProd env (take m (Gamma1 pp)) g2 = Ret D1L"
    using InnerProd_Ret[of "take m (Gamma1 pp)" g2 env] tk g ne by auto
  obtain D1R where D1R: "InnerProd env (drop m (Gamma1 pp)) g2 = Ret D1R"
    using InnerProd_Ret[of "drop m (Gamma1 pp)" g2 env] tk g ne by auto
  obtain D2L where D2L: "InnerProd env g1 (take m (Gamma2 pp)) = Ret D2L"
    using InnerProd_Ret[of g1 "take m (Gamma2 pp)" env] tk g by auto
  obtain D2R where D2R: "InnerProd env g1 (drop m (Gamma2 pp)) = Ret D2R"
    using InnerProd_Ret[of g1 "drop m (Gamma2 pp)" env] tk g by auto
  have "reducePP env pp (int n) = Ret \<lparr>Gamma1Prime = g1, Gamma2Prime = g2, Delta1R = Some D1R,
               Delta1L = Some D1L, Delta2R = Some D2R, Delta2L = Some D2L\<rparr>"
    using False m assms g D1L D1R D2L D2R
    by (simp add: reducePP_def slice_to_def slice_from_def Let_def)
  moreover have "rpp_ok env (pp\<lparr>ReducePP := \<lparr>Gamma1Prime = g1, Gamma2Prime = g2, Delta1R = Some D1R,
               Delta1L = Some D1L, Delta2R = Some D2R, Delta2L = Some D2L\<rparr>\<rparr>) n"
    using False g D1L D1R D2L D2R by (simp add: rpp_ok_def m_def[symmetric])
  ultimately show ?thesis by blast
qed

lemma PP_Digest_Ret:
  "rpp_ok env pp n \<Longrightarrow> length (Gamma1 pp) = n \<Longrightarrow> length (Gamma2 pp) = n \<Longrightarrow> \<exists>dg. PP_Digest env pp prev = Ret dg"
  by (auto simp: PP_Digest_def rpp_ok_def ReducePP_Digest_def deref_def split: if_splits)

lemma rpp_ok_digest [simp]: "rpp_ok env (pp\<lparr>pp_digest := dg\<rparr>) n = rpp_ok env pp n"
  by (simp add: rpp_ok_def)

lemma NewPublicParams_ok:
  assumes "n = 2 ^ k"
  shows "\<exists>pp. NewPublicParams env (int n) = Ret pp \<and> pp_ok env pp n"
proof -
  have n: "(2 \<le> n \<and> even n) \<or> n = 1" "0 < n" using assms by (cases k; simp)+
  define g1 where "g1 = map (\<lambda>i. psuedoRandomG1 env (int n) (int i)) [0..<n]"
  define g2 where "g2 = map (\<lambda>i. psuedoRandomG2 env (int n) (int i)) [0..<n]"
  have g: "randomG1Vector env (int n) = Ret g1" "randomG2Vector env (int n) = Ret g2"
    "length g1 = n" "length g2 = n" "g1 \<noteq> []" "g2 \<noteq> []"
    using n by (auto simp: randomG1Vector_def randomG2Vector_def g1_def g2_def)
  obtain x where x: "InnerProd env g1 g2 = Ret x" using InnerProd_Ret[of g1 g2 env] g by auto
  define pp0 where "pp0 = \<lparr>pp_digest = [], ReducePP = ReducePP_zero, Gamma1 = g1, Gamma2 = g2, chi = x\<rparr>"
  obtain r where r: "reducePP env pp0 (int n) = Ret r" "rpp_ok env (pp0\<lparr>ReducePP := r\<rparr>) n"
    using reducePP_ok[of pp0 n env] g n by (auto simp: pp0_def)
  obtain dg where dg: "PP_Digest env (pp0\<lparr>ReducePP := r\<rparr>) [] = Ret dg"
    using PP_Digest_Ret[OF r(2)] g by (auto simp: pp0_def)
  have "NewPublicParams env (int n) = Ret (pp0\<lparr>ReducePP := r, pp_digest := dg\<rparr>)"
    using g x r dg unfolding pp0_def NewPublicParams_def by (simp add: Let_def)
  moreover have "pp_ok env (pp0\<lparr>ReducePP := r, pp_digest := dg\<rparr>) n"
    using g x r(2) by (simp add: pp_ok_def pp0_def rpp_ok_def cong: if_cong)
  ultimately show ?thesis by blast
qed

lemma PP_NewPublicParams_ok:
  assumes "pp_ok env pp (2 * m)" "m = 2 ^ k"
  shows "\<exists>pp'. PP_NewPublicParams env pp (int m) = Ret pp' \<and> pp_ok env pp' m \<and>
           Gamma1 pp' = Gamma1Prime (ReducePP pp) \<and> Gamma2 pp' = Gamma2Prime (ReducePP pp)"
proof -
  have m: "(2 \<le> m \<and> even m) \<or> m = 1" "0 < m" using assms(2) by (cases k; simp)+
  define g1 where "g1 = Gamma1Prime (ReducePP pp)"
  define g2 where "g2 = Gamma2Prime (ReducePP pp)"
  have g: "length g1 = m" "length g2 = m" "g1 \<noteq> []" "g2 \<noteq> []"
    using assms(1) m by (auto simp: pp_ok_def rpp_ok_def g1_def g2_def)
  obtain x where x: "InnerProd env g1 g2 = Ret x" using InnerProd_Ret[of g1 g2 env] g by auto
  define pp0 where "pp0 = \<lparr>pp_digest = [], ReducePP = ReducePP_zero, Gamma1 = g1, Gamma2 = g2, chi = x\<rparr>"
  obtain r where r: "reducePP env pp0 (int m) = Ret r" "rpp_ok env (pp0\<lparr>ReducePP := r\<rparr>) m"
    using reducePP_ok[of pp0 m env] g m by (auto simp: pp0_def)
  obtain dg where dg: "PP_Digest env (pp0\<lparr>ReducePP := r\<rparr>) (pp_digest pp) = Ret dg"
    using PP_Digest_Ret[OF r(2)] g by (auto simp: pp0_def)
  have "PP_NewPublicParams env pp (int m) = Ret (pp0\<lparr>ReducePP := r, pp_digest := dg\<rparr>)"
    using assms(1) g x r dg unfolding pp0_def PP_NewPublicParams_def g1_def g2_def
    by (simp add: Let_def pp_ok_def)
  moreover have "pp_ok env (pp0\<lparr>ReducePP := r, pp_digest := dg\<rparr>) m"
    using g x r(2) by (simp add: pp_ok_def pp0_def rpp_ok_def cong: if_cong)
  ultimately show ?thesis by (auto simp: pp0_def g1_def g2_def)
qed

lemma GeneratePublicParams_loop_ok:
  "pp_ok env pp (2 ^ k) \<Longrightarrow>
   \<exists>chain. GeneratePublicParams_loop env (2 ^ k) pp res = Ret (res @ pp # chain) \<and>
     chain_ok env (2 ^ k) (pp # chain) \<and> length chain = k"
proof (induction k arbitrary: pp res)
  case 0
  then show ?case
    by (simp add: GeneratePublicParams_loop.simps[of env 1] Let_def)
next
  case (Suc k)
  have ok: "pp_ok env pp (2 * 2 ^ k)" using Suc.prems by simp
  obtain pp' where pp': "PP_NewPublicParams env pp (int (2 ^ k)) = Ret pp'" "pp_ok env pp' (2 ^ k)"
    "Gamma1 pp' = Gamma1Prime (ReducePP pp)" "Gamma2 pp' = Gamma2Prime (ReducePP pp)"
    using PP_NewPublicParams_ok[OF ok refl] by blast
  obtain chain where ch: "GeneratePublicParams_loop env (2 ^ k) pp' (res @ [pp]) = Ret ((res @ [pp]) @ pp' # chain)"
     "chain_ok env (2 ^ k) (pp' # chain)" "length chain = k"
    using Suc.IH[OF pp'(2), of "res @ [pp]"] by blast
  have "GeneratePublicParams_loop env (2 ^ Suc k) pp res = Ret (res @ pp # pp' # chain)"
    using pp'(1) ch(1) by (simp add: GeneratePublicParams_loop.simps[of env "2 * 2 ^ k"] Let_def)
  moreover have "chain_ok env (2 ^ Suc k) (pp # pp' # chain)"
    using ok pp' ch(2) by simp
  ultimately show ?case using ch(3) by auto
qed

lemma GeneratePublicParams_ok:
  "\<exists>chain. GeneratePublicParams env (2 ^ k) = Ret chain \<and> chain_ok env (2 ^ k) chain \<and> length chain = k + 1"
proof -
  obtain pp where pp: "NewPublicParams env (int (2 ^ k)) = Ret pp" "pp_ok env pp (2 ^ k)"
    using NewPublicParams_ok[OF refl] by blast
  show ?thesis
    using GeneratePublicParams_loop_ok[OF pp(2), of "[]"] pp(1)
    by (auto simp: GeneratePublicParams_def)
qed


lemma chain_ok_lengths:
  "chain_ok env (2 ^ k) chain \<Longrightarrow> length chain = k + 1 \<Longrightarrow> l \<le> k \<Longrightarrow>
     length (Gamma1 (chain ! l)) = 2 ^ (k - l) \<and> length (Gamma2 (chain ! l)) = 2 ^ (k - l) \<and>
     length (Gamma1Prime (ReducePP (chain ! l))) = (if l = k then 0 else 2 ^ (k - l - 1)) \<and>
     length (Gamma2Prime (ReducePP (chain ! l))) = (if l = k then 0 else 2 ^ (k - l - 1))"
proof (induction k arbitrary: chain l)
  case 0
  then obtain pp where "chain = [pp]" by (cases chain) auto
  with 0 show ?case by (simp add: pp_ok_def rpp_ok_def ReducePP_zero_def)
next
  case (Suc k)
  then obtain pp pp' pps where ch: "chain = pp # pp' # pps"
    by (cases chain; cases "tl chain") auto
  have ok: "pp_ok env pp (2 * 2 ^ k)" "chain_ok env (2 ^ k) (pp' # pps)" "length (pp' # pps) = k + 1"
    using Suc.prems ch by auto
  show ?case
  proof (cases l)
    case 0
    then show ?thesis using ok(1) ch by (simp add: pp_ok_def rpp_ok_def)
  next
    case (Suc l')
    then have "l' \<le> k" using Suc.prems by simp
    from Suc.IH[OF ok(2) ok(3) this] show ?thesis using Suc ch by simp
  qed
qed


text \<open>
  C8.  For every \<open>k\<close> (in particular every \<open>k \<ge> 1\<close>), \<open>GeneratePublicParams (2 ^ k)\<close> returns
  a chain of \<open>k + 1\<close> levels; at level \<open>l\<close> the generator vectors \<open>Gamma1\<close> and \<open>Gamma2\<close> have
  length \<open>2 ^ (k - l)\<close> and the reduction parameters \<open>Gamma1Prime\<close> and \<open>Gamma2Prime\<close> have
  length \<open>2 ^ (k - l - 1)\<close>, and are empty at the last level.  (A Go \<^verbatim>\<open>int\<close> holds
  \<open>2 ^ k\<close> for \<open>k \<le> 62\<close>; the model's \<open>n\<close> is unbounded.)
\<close>

theorem parameter_length_chain:
  "\<exists>chain. GeneratePublicParams env (2 ^ k) = Ret chain \<and> length chain = k + 1 \<and>
     (\<forall>l\<le>k. length (Gamma1 (chain ! l)) = 2 ^ (k - l) \<and>
            length (Gamma2 (chain ! l)) = 2 ^ (k - l) \<and>
            length (Gamma1Prime (ReducePP (chain ! l))) = (if l = k then 0 else 2 ^ (k - l - 1)) \<and>
            length (Gamma2Prime (ReducePP (chain ! l))) = (if l = k then 0 else 2 ^ (k - l - 1)))"
proof -
  obtain chain where ch: "GeneratePublicParams env (2 ^ k) = Ret chain"
    "chain_ok env (2 ^ k) chain" "length chain = k + 1"
    using GeneratePublicParams_ok[of env k] by blast
  show ?thesis
    using ch(1) ch(3) chain_ok_lengths[OF ch(2) ch(3)] by blast
qed

lemma list3: "length xs = 3 \<Longrightarrow> xs = [xs ! 0, xs ! 1, xs ! 2]"
  by (cases xs; cases "tl xs"; cases "tl (tl xs)") auto

theorem parameter_length_chain_witness:
  "\<exists>chain. GeneratePublicParams toy 4 = Ret chain \<and>
     map (\<lambda>pp. length (Gamma1 pp)) chain = [4, 2, 1] \<and>
     map (\<lambda>pp. length (Gamma2 pp)) chain = [4, 2, 1] \<and>
     map (\<lambda>pp. length (Gamma1Prime (ReducePP pp))) chain = [2, 1, 0] \<and>
     map (\<lambda>pp. length (Gamma2Prime (ReducePP pp))) chain = [2, 1, 0]"
proof -
  obtain chain where ch: "GeneratePublicParams toy (2 ^ 2) = Ret chain" "length chain = 2 + 1"
    and len: "\<forall>l\<le>2. length (Gamma1 (chain ! l)) = 2 ^ (2 - l) \<and>
            length (Gamma2 (chain ! l)) = 2 ^ (2 - l) \<and>
            length (Gamma1Prime (ReducePP (chain ! l))) = (if l = 2 then 0 else 2 ^ (2 - l - 1)) \<and>
            length (Gamma2Prime (ReducePP (chain ! l))) = (if l = 2 then 0 else 2 ^ (2 - l - 1))"
    using parameter_length_chain[of toy 2] by blast
  have c3: "chain = [chain ! 0, chain ! 1, chain ! 2]" using ch(2) list3 by auto
  have "map (\<lambda>pp. length (Gamma1 pp)) [chain ! 0, chain ! 1, chain ! 2] = [4, 2, 1]"
       "map (\<lambda>pp. length (Gamma2 pp)) [chain ! 0, chain ! 1, chain ! 2] = [4, 2, 1]"
       "map (\<lambda>pp. length (Gamma1Prime (ReducePP pp))) [chain ! 0, chain ! 1, chain ! 2] = [2, 1, 0]"
       "map (\<lambda>pp. length (Gamma2Prime (ReducePP pp))) [chain ! 0, chain ! 1, chain ! 2] = [2, 1, 0]"
    using len[rule_format, of 0] len[rule_format, of 1] len[rule_format, of 2] by simp_all
  then show ?thesis using ch(1) c3 by (metis power2_eq_square numeral_Bit0 mult_2 one_add_one)
qed

section \<open>Evaluating the small instances\<close>

lemma toy_sel:
  "GroupOrder toy = 5" "GenG1 toy = 1" "GenG2 toy = 1"
  "G1_Add toy = (\<lambda>x y. x + y)" "G1_Sub toy = (\<lambda>x y. x - y)" "G1_Mul toy = (\<lambda>x k. x * of_int k)"
  "G1_Bytes toy = (\<lambda>x. [word_of_int (Rep_bit1 x)])"
  "G2_Add toy = (\<lambda>x y. x + y)" "G2_Mul toy = (\<lambda>x k. x * of_int k)"
  "G2_Bytes toy = (\<lambda>x. [word_of_int (Rep_bit1 x)])"
  "Gt_Mul toy = (\<lambda>x y. x + y)" "Gt_Exp toy = (\<lambda>x k. x * of_int k)" "Gt_Inverse toy = (\<lambda>x. - x)"
  "Gt_Bytes toy = (\<lambda>x. [word_of_int (Rep_bit1 x)])"
  "Pairing toy = (\<lambda>b a. a * b)" "Ml_Mul toy = (\<lambda>x y. x + y)" "FExp toy = (\<lambda>x. x)"
  "HashToG1 toy = (\<lambda>bs. 2 + of_int (uint (last bs)))"
  "HashToCurveG2Svdw toy = (\<lambda>bs. 3 + of_int (uint (last bs)))"
  "sha256 toy = (\<lambda>bs. replicate 31 0 @ [foldl (\<lambda>a b. a + b) 0 bs])"
  "fe_to_Zr toy = (\<lambda>z. case z of (z0, z1, z2, z3) \<Rightarrow> 1 + uint z3 mod 4)"
  "Marshal_RawScalarProductProofElements toy = (\<lambda>a b. a @ b)"
  "Marshal_RawProof toy = (\<lambda>a b c. concat (concat a) @ concat (concat b) @ c)"
  by (simp_all add: toy_def)

lemma toy0_sel:
  "GroupOrder toy0 = 5" "GenG1 toy0 = 1" "GenG2 toy0 = 1"
  "G1_Add toy0 = (\<lambda>x y. x + y)" "G1_Sub toy0 = (\<lambda>x y. x - y)" "G1_Mul toy0 = (\<lambda>x k. x * of_int k)"
  "G1_Bytes toy0 = (\<lambda>x. [word_of_int (Rep_bit1 x)])"
  "G2_Add toy0 = (\<lambda>x y. x + y)" "G2_Mul toy0 = (\<lambda>x k. x * of_int k)"
  "G2_Bytes toy0 = (\<lambda>x. [word_of_int (Rep_bit1 x)])"
  "Gt_Mul toy0 = (\<lambda>x y. x + y)" "Gt_Exp toy0 = (\<lambda>x k. x * of_int k)" "Gt_Inverse toy0 = (\<lambda>x. - x)"
  "Gt_Bytes toy0 = (\<lambda>x. [word_of_int (Rep_bit1 x)])"
  "Pairing toy0 = (\<lambda>b a. a * b)" "Ml_Mul toy0 = (\<lambda>x y. x + y)" "FExp toy0 = (\<lambda>x. x)"
  "HashToG1 toy0 = (\<lambda>bs. 2 + of_int (uint (last bs)))"
  "HashToCurveG2Svdw toy0 = (\<lambda>bs. 3 + of_int (uint (last bs)))"
  "sha256 toy0 = (\<lambda>bs. replicate 31 0 @ [foldl (\<lambda>a b. a + b) 0 bs])"
  "fe_to_Zr toy0 = (\<lambda>z. 0)"
  by (simp_all add: toy0_def toy_def)


lemma upt_2: "[0..<2] = [0, 1]" by (simp add: upt_rec)
lemma upt_1: "[0..<Suc 0] = [0]" by simp

lemmas eval_defs = GeneratePublicParams_def NewPublicParams_def randomG1Vector_def randomG2Vector_def
      psuedoRandomG1_def psuedoRandomG2_def sha256Digest_def bytes_of_string_def le16_def InnerProd_def
      reducePP_def go_quot_def slice_to_def slice_from_def Let_def e_def PP_Digest_def ReducePP_Digest_def deref_def
      G1v_Bytes_def G2v_Bytes_def PP_NewPublicParams_def ReducePP_zero_def upt_2 upt_1
      GeneratePublicParams_loop.simps Commit_def toy_sel toy0_sel

lemma toy0_FE: "FieldElementFromBytes toy0 (replicate 31 0 @ [b]) = Ret 0"
  by (simp add: FieldElementFromBytes_def feFrom256Bits_limbs toy0_sel)

lemma inv0: "inverse_Zr toy0 0 = 0"
  by (simp add: inverse_Zr_def InvModP_def toy0_sel)

lemma InvModP_1_5: "InvModP 1 5 = 1"
  by code_simp

lemma inv1: "inverse_Zr toy0 1 = 1"
  by (simp add: inverse_Zr_def InvModP_1_5 toy0_sel)

section \<open>Completeness of the Dory argument\<close>

lemma Commit_consistent:
  assumes "curve_ok env" "pp_ok env pp n" "length v1 = n" "length v2 = n" "0 < n"
  shows "Commit env v1 v2 pp =
           Ret (\<lparr>cmt_C = ip env v1 v2, cmt_D1 = ip env v1 (Gamma2 pp),
                 cmt_D2 = ip env (Gamma1 pp) v2\<rparr>, \<lparr>w_V1 = v1, w_V2 = v2\<rparr>)"
proof -
  have g: "gt_ok env" "pairing_ok env" using assms(1) by (simp_all add: curve_ok_def)
  have l: "length (Gamma1 pp) = n" "length (Gamma2 pp) = n" using assms(2) by (simp_all add: pp_ok_def)
  have ne: "v1 \<noteq> []" "v2 \<noteq> []" "Gamma1 pp \<noteq> []" using assms(3,4,5) l by auto
  show ?thesis
    unfolding Commit_def
    by (simp add: InnerProd_ip[OF g] assms(3,4) l ne)
qed

lemma rbind_RetE:
  assumes "rbind m f = Ret y"
  obtains x where "m = Ret x" "f x = Ret y"
  using assms by (cases m) simp_all

lemma Step1_RO_digest:
  "Step1_RO env x = Ret (b, y) \<Longrightarrow> s1_digest y \<in> range (sha256 env)"
  unfolding Step1_RO_def Let_def sha256Digest_def
  by (erule rbind_RetE) auto

lemma reduce_digests:
  "reduce env pps w cmt = Ret (s1, s2, fin) \<Longrightarrow>
     list_all (\<lambda>x. s2_ReduceProverStep1ElementsDigest x \<in> range (sha256 env)) s2"
proof (induction pps arbitrary: w cmt s1 s2 fin)
  case Nil
  then show ?case by simp
next
  case (Cons pp pps)
  show ?case
    using Cons.prems
    apply (simp only: reduce.simps Let_def)
    apply (elim rbind_RetE)
    apply (auto split: if_splits prod.splits elim!: rbind_RetE dest!: Step1_RO_digest Cons.IH)
    done
qed

lemma chain_ok_hd: "chain_ok env n chain \<Longrightarrow> chain \<noteq> [] \<and> pp_ok env (hd chain) n"
  by (cases "(env, n, chain)" rule: chain_ok.cases) auto

lemma toy_step1_nonzero: "step1_nonzero toy x"
  by (auto simp: step1_nonzero_def Step1_RO_def Let_def sha256Digest_def FieldElementFromBytes_def
        feFrom256Bits_limbs toy_sel split: prod.splits)

lemma toy_step2_nonzero:
  "s2_ReduceProverStep1ElementsDigest x \<in> range (sha256 toy) \<Longrightarrow> step2_nonzero toy x"
  by (auto simp: step2_nonzero_def Step2_RO_def Step2_Bytes_def Let_def sha256Digest_def
        FieldElementFromBytes_def feFrom256Bits_limbs toy_sel split: prod.splits)

lemma toy_challenges_nonzero:
  assumes "Reduce toy chain w cmt = Ret \<pi>"
  shows "challenges_nonzero toy \<pi>"
proof -
  from assms obtain s1 s2 fin where r: "reduce toy chain w cmt = Ret (s1, s2, fin)"
    and p: "\<pi> = \<lparr>Step1Elements = s1, Step2Elements = s2, proof_ScalarProductProofElements = fin,
            proof_digest = []\<rparr>"
    unfolding Reduce_def by (auto elim!: rbind_RetE)
  have "list_all (step2_nonzero toy) s2"
    using reduce_digests[OF r] by (simp add: list_all_iff toy_step2_nonzero)
  moreover have "list_all (step1_nonzero toy) s1"
    by (simp add: list_all_iff toy_step1_nonzero)
  ultimately show ?thesis by (simp add: challenges_nonzero_def p)
qed

text \<open>
  C2 (amended).  Let \<open>n = 2 ^ k\<close> with \<open>k \<ge> 1\<close>, let \<open>v1\<close> and \<open>v2\<close> be vectors of length
  \<open>n\<close>, \<open>chain = GeneratePublicParams n\<close> and \<open>(cmt, w) = Commit v1 v2 chain[0]\<close>.  Then
  \<open>Reduce chain w cmt\<close> returns a proof, and \<open>VerifyReduce\<close> accepts it for every value of
  the verifier's scalar \<open>d\<close> that is nonzero modulo the group order, provided that every
  Fiat-Shamir challenge of the proof is nonzero modulo the group order.
\<close>

theorem dory_completeness:
  fixes env :: "('g1, 'g2, 'gt, 'ml) curve"
  assumes "curve_ok env" and "1 \<le> k" and "length v1 = 2 ^ k" and "length v2 = 2 ^ k"
    and "d mod GroupOrder env \<noteq> 0"
  shows "\<exists>chain cmt w \<pi>.
           GeneratePublicParams env (2 ^ k) = Ret chain \<and>
           Commit env v1 v2 (chain ! 0) = Ret (cmt, w) \<and>
           Reduce env chain w cmt = Ret \<pi> \<and>
           (challenges_nonzero env \<pi> \<longrightarrow> VerifyReduce env d chain cmt \<pi> = Ret None)"
proof -
  obtain chain where ch: "GeneratePublicParams env (2 ^ k) = Ret chain" "chain_ok env (2 ^ k) chain"
    using GeneratePublicParams_ok[of env k] by blast
  have hd: "chain \<noteq> []" "pp_ok env (hd chain) (2 ^ k)"
    using chain_ok_hd[OF ch(2)] by simp_all
  have c0: "chain ! 0 = hd chain" using hd(1) by (simp add: hd_conv_nth)
  define cmt where "cmt = \<lparr>cmt_C = ip env v1 v2, cmt_D1 = ip env v1 (Gamma2 (hd chain)),
                 cmt_D2 = ip env (Gamma1 (hd chain)) v2\<rparr>"
  have cm: "Commit env v1 v2 (chain ! 0) = Ret (cmt, \<lparr>w_V1 = v1, w_V2 = v2\<rparr>)"
    unfolding c0 cmt_def
    by (rule Commit_consistent[OF assms(1) hd(2) assms(3,4)]) simp
  have cons: "consistent env (hd chain) v1 v2 cmt"
    by (simp add: consistent_def cmt_def)
  have n2: "(2::nat) \<le> 2 ^ k"
    using assms(2) self_le_power[of 2 k] by simp
  obtain s1 s2 fin where r: "reduce env chain \<lparr>w_V1 = v1, w_V2 = v2\<rparr> cmt = Ret (s1, s2, fin)"
    and v: "consistent env (hd chain) v1 v2 cmt \<and> list_all (step1_nonzero env) s1 \<and>
             list_all (step2_nonzero env) s2 \<longrightarrow>
          (\<forall>d. d mod GroupOrder env \<noteq> 0 \<longrightarrow> verifyReduce env d chain cmt s1 s2 fin = Ret None) \<and>
          (chi (last chain) \<noteq> gt_one env \<longrightarrow>
             verifyReduce env 0 chain cmt s1 s2 fin = Ret (Some ''proof invalid''))"
    using dory_reduce_verify[OF assms(1) ch(2) n2 assms(3,4), of cmt]
    by (elim exE conjE) (rule that)
  define \<pi> where "\<pi> = \<lparr>Step1Elements = s1, Step2Elements = s2,
      proof_ScalarProductProofElements = fin, proof_digest = []\<rparr>"
  have R: "Reduce env chain \<lparr>w_V1 = v1, w_V2 = v2\<rparr> cmt = Ret \<pi>"
    by (simp add: Reduce_def r \<pi>_def)
  have V: "challenges_nonzero env \<pi> \<longrightarrow> VerifyReduce env d chain cmt \<pi> = Ret None"
    using v cons assms(5) by (simp add: challenges_nonzero_def VerifyReduce_def \<pi>_def)
  show ?thesis
    using ch(1) cm R V by blast
qed

theorem dory_completeness_witness:
  "\<exists>chain cmt w \<pi>.
     GeneratePublicParams toy 2 = Ret chain \<and>
     Commit toy [1, 2] [3, 4] (chain ! 0) = Ret (cmt, w) \<and>
     Reduce toy chain w cmt = Ret \<pi> \<and>
     VerifyReduce toy 1 chain cmt \<pi> = Ret None"
  using dory_completeness[of toy 1 "[1, 2]" "[3, 4]" 1] toy_curve_ok toy_challenges_nonzero
  by (simp add: toy_def) blast

text \<open>
  For \<open>n = 1 = 2 ^ 0\<close> the chain has the single level of length one, whose reduction
  parameters are empty: \<open>Reduce\<close> splits the witness at \<open>m = 0\<close> and the first inner product,
  of two empty vectors, stops the program.
\<close>

theorem dory_completeness_counterexample: "rbind (GeneratePublicParams toy 1)
     (\<lambda>chain. rbind (Commit toy [1] [1] (chain ! 0)) (\<lambda>(cmt, w). Reduce toy chain w cmt))
   = Panic ''empty vectors''"
  by (simp add: eval_defs Reduce_def)


text \<open>
  The challenges are inverted by \<open>InvModP\<close>, which leaves an argument that is not invertible
  unchanged.  With a digest-to-field map that returns zero, the honest proof is rejected.
\<close>

lemma zero_challenge_rejects: "rbind (GeneratePublicParams toy0 2)
     (\<lambda>chain. rbind (Commit toy0 [1, 2] [3, 4] (chain ! 0)) (\<lambda>(cmt, w).
        rbind (Reduce toy0 chain w cmt) (\<lambda>\<pi>. VerifyReduce toy0 1 chain cmt \<pi>)))
   = Ret (Some ''proof invalid'')"
  by (simp add: eval_defs Reduce_def VerifyReduce_def Step1_RO_def Step2_RO_def Step1_Bytes_def Step2_Bytes_def
     toy0_FE inv0 inv1 addG1_def addG2_def G1v_Add_def G2v_Add_def G1v_Mul_def G2v_Mul_def nextCommitment_def mulGt_def index0_def
     ScalarProductProof_def ScalarProductProofElements_Verify_def)

section \<open>The challenge sum in RingProof\<close>

lemma foldl_Zr_Plus: "foldl Zr_Plus x xs = x + sum_list xs"
  by (induction xs arbitrary: x) (auto simp: Zr_Plus_def)

lemma sumZr_Ret: "c \<noteq> [] \<Longrightarrow> sumZr env c = Ret (sum_list c mod GroupOrder env)"
  by (cases c) (auto simp: sumZr_def foldl_Zr_Plus Zr_Mod_def)

lemma embedInVec_loop_past:
  "index < i \<Longrightarrow> length a = k \<Longrightarrow> embedInVec_loop a element index i k = Ret a"
proof (induction k arbitrary: a i)
  case 0
  then show ?case by simp
next
  case (Suc k)
  then obtain x a' where a: "a = x # a'" by (cases a) auto
  have "embedInVec_loop a' element index (i + 1) k = Ret a'"
    using Suc.prems a by (intro Suc.IH) auto
  then show ?case using Suc.prems a by simp
qed

lemma embedInVec_loop_Ret:
  "i \<le> index \<Longrightarrow> index < i + k \<Longrightarrow> length a + 1 = k \<Longrightarrow>
     embedInVec_loop a element index i k = Ret (take (index - i) a @ element # drop (index - i) a)"
proof (induction k arbitrary: a i)
  case 0
  then show ?case by simp
next
  case (Suc k)
  show ?case
  proof (cases "i = index")
    case True
    have "embedInVec_loop a element index (i + 1) k = Ret a"
      using True Suc.prems by (intro embedInVec_loop_past) auto
    then show ?thesis using True by simp
  next
    case False
    then have lt: "i < index" using Suc.prems by simp
    then have "a \<noteq> []" using Suc.prems by auto
    then obtain x a' where a: "a = x # a'" by (cases a) auto
    have "embedInVec_loop a' element index (i + 1) k
            = Ret (take (index - (i + 1)) a' @ element # drop (index - (i + 1)) a')"
      using Suc.prems lt a by (intro Suc.IH) auto
    moreover have "index - i = Suc (index - (i + 1))" using lt by simp
    ultimately show ?thesis using False a by simp
  qed
qed

lemma embedInVec_Ret:
  "index \<le> length a \<Longrightarrow> embedInVec a element index = Ret (take index a @ element # drop index a)"
  using embedInVec_loop_Ret[of 0 index "length a + 1" a element] by (simp add: embedInVec_def)

lemma sum_list_embed: "sum_list (take j c @ x # drop j c) = sum_list c + (x::int)"
proof -
  have "sum_list (take j c) + sum_list (drop j c) = sum_list c"
    by (metis sum_list_append append_take_drop_id)
  then show ?thesis by simp
qed

lemma cj_sum:
  "(sum_list c + Zr_Mod (Zr_Plus h (negZr env (sum_list c mod GroupOrder env))) (GroupOrder env))
      mod GroupOrder env = h mod GroupOrder env"
  by (simp add: Zr_Mod_def Zr_Plus_def negZr_def ModSub_def mod_simps)

lemma locatePK_loop_bound:
  "locatePK_loop pk ring i = Ret (pk', j) \<Longrightarrow> i \<le> j \<and> j < i + length ring \<and> ring ! (j - i) = pk \<and> pk' = pk"
proof (induction ring arbitrary: i)
  case Nil
  then show ?case by simp
next
  case (Cons x ring)
  show ?case
  proof (cases "x = pk")
    case True
    with Cons.prems show ?thesis by simp
  next
    case False
    with Cons.prems have "locatePK_loop pk ring (i + 1) = Ret (pk', j)" by simp
    from Cons.IH[OF this] show ?thesis by (auto simp: nth_Cons')
  qed
qed

lemma hashToZr_range:
  "scalars_ok env \<Longrightarrow> hashToZr env ins = Ret h \<Longrightarrow> 0 \<le> h \<and> h < GroupOrder env"
  by (auto simp: hashToZr_def FieldElementFromBytes_def rbind_def scalars_ok_def split: res.splits)


lemma other_panic_Ret [simp]: "other_panic (Ret x)"
  by (simp add: other_panic_def)

lemma other_panic_Panic [simp]: "other_panic (Panic s) \<longleftrightarrow> s \<noteq> ''sum of c isn't h''"
  by (simp add: other_panic_def)

lemma other_panic_rbind:
  "other_panic m \<Longrightarrow> (\<And>x. m = Ret x \<Longrightarrow> other_panic (f x)) \<Longrightarrow> other_panic (rbind m f)"
  by (cases m) (auto simp: other_panic_def)

lemma other_panic_basic [simp]:
  "other_panic (index0 xs)" "other_panic (slice_to xs m)" "other_panic (slice_from xs m)"
  "other_panic (deref p)" "other_panic (InnerProd env v w)" "other_panic (G1v_Add env a b)"
  "other_panic (G2v_Add env a' b')" "other_panic (G1v_Duplicate a n)" "other_panic (G2v_Duplicate a' n)"
  "other_panic (G2v_Mulv env a' ks)" "other_panic (mulGt env gs)" "other_panic (feFrom256Bits bs)"
  "other_panic (sumZr env ks)"
  by (auto simp: other_panic_def index0_def slice_to_def slice_from_def deref_def InnerProd_def
      G1v_Add_def G2v_Add_def G1v_Duplicate_def G2v_Duplicate_def G2v_Mulv_def mulGt_def
      feFrom256Bits_def sumZr_def Let_def
      split: list.splits option.splits prod.splits)


lemma other_panic_locatePK [simp]: "other_panic (locatePK_loop pk ring i)"
  by (induction ring arbitrary: i) (auto simp: other_panic_def)

lemma other_panic_computeY [simp]: "other_panic (computeY_loop env c com ring skip i res)"
  by (induction ring arbitrary: c i res) (auto simp: other_panic_def split: list.splits)

lemma other_panic_FieldElement [simp]: "other_panic (FieldElementFromBytes env bs)"
  by (auto simp: FieldElementFromBytes_def intro!: other_panic_rbind)

lemma other_panic_hashToZr [simp]: "other_panic (hashToZr env ins)"
  by (simp add: hashToZr_def)

lemma other_panic_RO [simp]: "other_panic (Step1_RO env x)" "other_panic (Step2_RO env y)"
  by (auto simp: Step1_RO_def Step2_RO_def Step2_Bytes_def Let_def intro!: other_panic_rbind)

lemma other_panic_nextCommitment [simp]:
  "other_panic (nextCommitment env pp cmt s1 cp cm al be)"
  by (auto simp: nextCommitment_def Let_def intro!: other_panic_rbind)

lemma other_panic_reduce [simp]: "other_panic (reduce env pps w cmt)"
proof (induction pps arbitrary: w cmt)
  case Nil
  then show ?case by (simp add: other_panic_def)
next
  case (Cons pp pps)
  show ?case
    by (auto simp: Let_def Cons.IH intro!: other_panic_rbind)
qed

lemma other_panic_Reduce [simp]: "other_panic (Reduce env pps w cmt)"
  by (auto simp: Reduce_def intro!: other_panic_rbind)


lemma other_panic_embed [simp]: "other_panic (embedInVec_loop a el idx i k)"
  by (induction k arbitrary: a i) (auto intro!: other_panic_rbind split: list.splits)

lemma other_panic_embedInVec [simp]: "other_panic (embedInVec a el idx)"
  unfolding embedInVec_def by (rule other_panic_embed)

lemma RingProof_check:
  assumes ok: "scalars_ok env"
    and "map crand [0..<nat (int (length ring) - 1)] = c"
    and "locatePK_loop (G1_Mul env (GenG1 env) key) ring 0 = Ret xb"
    and "hashToZr env ins = Ret h"
    and "sumZr env c = Ret s"
    and "embedInVec c (Zr_Mod (Zr_Plus h (negZr env s)) (GroupOrder env)) (snd xb) = Ret c'"
    and "sumZr env c' = Ret cSum"
  shows "cSum = h"
proof -
  obtain pk pkIndex where xb: "xb = (pk, pkIndex)" by (cases xb)
  have cne: "c \<noteq> []" using assms(5) by (auto simp: sumZr_def)
  then have len: "length c = length ring - 1" "0 < length ring - 1"
    using assms(2) by auto
  have "pkIndex < length ring"
    using locatePK_loop_bound[OF assms(3)[unfolded xb]] by simp
  then have idx: "pkIndex \<le> length c" using len by linarith
  have s: "s = sum_list c mod GroupOrder env" using assms(5) sumZr_Ret[OF cne, of env] by simp
  have c': "c' = take pkIndex c @ Zr_Mod (Zr_Plus h (negZr env s)) (GroupOrder env) # drop pkIndex c"
    using assms(6) embedInVec_Ret[OF idx] xb by simp
  have "c' \<noteq> []" using c' by simp
  then have "cSum = sum_list c' mod GroupOrder env" using assms(7) sumZr_Ret[of c' env] by simp
  also have "\<dots> = h mod GroupOrder env"
    unfolding c' sum_list_embed s by (rule cj_sum)
  also have "\<dots> = h" using hashToZr_range[OF ok assms(4)] by simp
  finally show ?thesis .
qed

lemma RingProof_other_panic:
  assumes ok: "scalars_ok env"
  shows "other_panic (RingProof env y crand key pp ring r com)"
  unfolding RingProof_def Let_def locatePK_def computeY_def
  apply (intro other_panic_rbind)
         apply (simp_all add: case_prod_beta split: if_splits)
  apply (intro other_panic_rbind)
      apply simp_all
  apply (intro conjI impI)
   apply (rule RingProof_check[OF ok], assumption+)
  apply (intro other_panic_rbind)
        apply simp_all
  done


text \<open>
  C9.  In \<open>RingProof\<close>, with \<open>s\<close> the sum of the \<open>n - 1\<close> drawn challenges and
  \<open>c\<^sub>j = (h + (0 - s) mod q) mod q\<close>, splicing \<open>c\<^sub>j\<close> into \<open>c\<close> at any index \<open>j \<le> length c\<close>
  gives a vector whose sum is congruent to \<open>h\<close> modulo \<open>q\<close>, and \<open>sumZr\<close> of it is \<open>h mod q\<close>.
  As the hash-derived \<open>h\<close> is a reduced scalar, the check \<open>cSum = h\<close> holds whenever it is
  reached: \<open>RingProof\<close> never ends in the panic \<^verbatim>\<open>sum of c isn't h\<close>, whatever the ring,
  the key, the parameters and the random draws are.
\<close>

theorem challenge_sum_invariant:
  assumes "scalars_ok env"
  shows "(sumZr env c = Ret s \<and> j \<le> length c \<longrightarrow>
           (\<exists>c'. embedInVec c (Zr_Mod (Zr_Plus h (negZr env s)) (GroupOrder env)) j = Ret c' \<and>
                 length c' = length c + 1 \<and>
                 sum_list c' mod GroupOrder env = h mod GroupOrder env \<and>
                 sumZr env c' = Ret (h mod GroupOrder env)))
         \<and> RingProof env y crand key pp ring r com \<noteq> Panic ''sum of c isn't h''"
proof (intro conjI impI)
  assume a: "sumZr env c = Ret s \<and> j \<le> length c"
  then have cne: "c \<noteq> []" by (auto simp: sumZr_def)
  have s: "s = sum_list c mod GroupOrder env" using a sumZr_Ret[OF cne, of env] by simp
  define cj where "cj = Zr_Mod (Zr_Plus h (negZr env s)) (GroupOrder env)"
  define c' where "c' = take j c @ cj # drop j c"
  have emb: "embedInVec c cj j = Ret c'"
    using a embedInVec_Ret[of j c cj] by (simp add: c'_def)
  have sum: "sum_list c' mod GroupOrder env = h mod GroupOrder env"
    unfolding c'_def cj_def sum_list_embed s by (rule cj_sum)
  have "c' \<noteq> []" by (simp add: c'_def)
  then have "sumZr env c' = Ret (h mod GroupOrder env)"
    using sumZr_Ret[of c' env] sum by simp
  moreover have "length c' = length c + 1" using a by (simp add: c'_def)
  ultimately show "\<exists>c'. embedInVec c (Zr_Mod (Zr_Plus h (negZr env s)) (GroupOrder env)) j = Ret c' \<and>
                 length c' = length c + 1 \<and>
                 sum_list c' mod GroupOrder env = h mod GroupOrder env \<and>
                 sumZr env c' = Ret (h mod GroupOrder env)"
    using emb sum unfolding cj_def by blast
next
  show "RingProof env y crand key pp ring r com \<noteq> Panic ''sum of c isn't h''"
    using RingProof_other_panic[OF assms] by (simp add: other_panic_def)
qed

theorem challenge_sum_invariant_witness:
  "(\<exists>c'. embedInVec [3] (Zr_Mod (Zr_Plus 2 (negZr toy 3)) (GroupOrder toy)) 1 = Ret c' \<and>
         length c' = length [3::int] + 1 \<and>
         sum_list c' mod GroupOrder toy = 2 mod GroupOrder toy \<and>
         sumZr toy c' = Ret (2 mod GroupOrder toy))
   \<and> RingProof toy 1 (\<lambda>i. 3) 2 toy_empty_params [2, 4] 0 0 \<noteq> Panic ''sum of c isn't h''"
proof -
  have s: "sumZr toy [3] = Ret 3 \<and> (1::nat) \<le> length [3::int]"
    by (simp add: sumZr_def Zr_Mod_def toy_def)
  show ?thesis
    using challenge_sum_invariant[OF toy_scalars_ok, of "[3]" 3 1 2 1 "\<lambda>i. 3" 2 toy_empty_params
        "[2, 4]" 0 0] s
    by blast
qed

section \<open>The tag proof\<close>

lemma tag_NewProof_accepted:
  assumes "curve_ok env"
  shows "\<exists>\<pi>. tag_NewProof env ar br prefix sk (fst (tag_Commit env r sk)) extras = Ret \<pi> \<and>
             tag_Proof_Verify env \<pi> (Tag env sk prefix) (snd (tag_Commit env r sk)) prefix extras
               = Ret None"
proof -
  have g1: "g1_ok env" and sc: "scalars_ok env" using assms by (auto simp: curve_ok_def)
  note L = g1_laws[OF g1]
  define Hp where "Hp = HashToG1 env (sha256 env prefix)"
  define A where "A = G1_Mul env Hp ar"
  define B where "B = G1_Add env (G1_Mul env (GenG1 env) ar) (G1_Mul env (H env) br)"
  obtain c where c: "hashToZr env (buildHashContext env A B extras) = Ret c"
    using hashToZr_Ret[OF sc] by blast
  define \<pi> where "\<pi> = \<lparr>tp_A = A, tp_B = B, tp_a = Zr_Plus ar (Zr_Mul env sk c),
                        tp_b = Zr_Plus br (Zr_Mul env r c)\<rparr>"
  have np: "tag_NewProof env ar br prefix sk (fst (tag_Commit env r sk)) extras = Ret \<pi>"
    using c by (simp add: tag_NewProof_def tag_Commit_def Let_def Hp_def A_def B_def \<pi>_def)
  have eq1: "G1_Mul env Hp (Zr_Plus ar (Zr_Mul env sk c)) = G1_Add env (G1_Mul env (G1_Mul env Hp sk) c) A"
    by (simp add: Zr_Plus_def Zr_Mul_def A_def L(6) L(9) L(7) L(2))
  have eq2: "G1_Add env (G1_Mul env (GenG1 env) (Zr_Plus ar (Zr_Mul env sk c)))
               (G1_Mul env (H env) (Zr_Plus br (Zr_Mul env r c)))
             = G1_Add env B (G1_Mul env (G1_Add env (G1_Mul env (GenG1 env) sk) (G1_Mul env (H env) r)) c)"
    by (simp add: Zr_Plus_def Zr_Mul_def B_def L(6) L(9) L(7) L(8) L(1) L(2) L(3))
  have "tag_Proof_Verify env \<pi> (Tag env sk prefix) (snd (tag_Commit env r sk)) prefix extras = Ret None"
    using c eq1 eq2
    by (simp add: tag_Proof_Verify_def Tag_def tag_Commit_def Let_def \<pi>_def Hp_def)
  with np show ?thesis by blast
qed

text \<open>
  C3.  For every secret key, prefix and list of additional context, and every choice of
  the random scalars \<open>r\<close> (in \<open>Commit\<close>) and \<open>ar\<close>, \<open>br\<close> (in \<open>NewProof\<close>), the proof
  that \<open>NewProof\<close> returns for the witness of \<open>Commit\<close> is accepted by \<open>Verify\<close>, for the
  tag of the key and the commitment of \<open>Commit\<close>, under the same prefix and context.
\<close>

theorem tag_roundtrip:
  assumes "curve_ok env"
  shows "\<exists>\<pi>. tag_NewProof env ar br prefix sk (fst (tag_Commit env r sk)) extras = Ret \<pi> \<and>
             tag_Proof_Verify env \<pi> (Tag env sk prefix) (snd (tag_Commit env r sk)) prefix extras
               = Ret None"
  using assms by (rule tag_NewProof_accepted)

theorem tag_roundtrip_witness:
  "\<exists>\<pi>. tag_NewProof toy 1 4 [1, 2, 3] 2 (fst (tag_Commit toy 3 2)) [[7]] = Ret \<pi> \<and>
       tag_Proof_Verify toy \<pi> (Tag toy 2 [1, 2, 3]) (snd (tag_Commit toy 3 2)) [1, 2, 3] [[7]]
         = Ret None"
  using tag_roundtrip[OF toy_curve_ok] by blast

section \<open>The ring proof\<close>

lemma chain_ok_last: "chain_ok env n chain \<Longrightarrow> pp_ok env (last chain) 1"
  by (induction env n chain rule: chain_ok.induct) auto

lemma G1v_Duplicate_Ret: "G1v_Duplicate [x] (int n) = Ret (replicate n x)"
  by (simp add: G1v_Duplicate_def)

lemma G2v_Duplicate_Ret: "G2v_Duplicate [x] (int n) = Ret (replicate n x)"
  by (simp add: G2v_Duplicate_def)

lemma ComputePreProcessedParams_Ret:
  assumes ok: "curve_ok env" and ch: "chain_ok env n chain" and n: "0 < n" "length ring = n"
  shows "\<exists>dg. ComputePreProcessedParams env chain ring =
           Ret \<lparr>ppp_digest = dg,
                A0Inverse = Gt_Inverse env (ip env ring (Gamma2 (hd chain))),
                ppp_D = ip env (replicate n (H env)) (Gamma2 (hd chain)),
                ppp_Gamma2 = foldl (G2_Add env) (hd (Gamma2 (hd chain))) (tl (Gamma2 (hd chain))),
                H1 = replicate n (H env)\<rparr>"
proof -
  have gt: "gt_ok env" and pr: "pairing_ok env" using ok by (auto simp: curve_ok_def)
  have hd: "chain \<noteq> []" "pp_ok env (hd chain) n"
    using chain_ok_hd[OF ch] by simp_all
  have l: "length (Gamma1 (hd chain)) = n" "length (Gamma2 (hd chain)) = n"
    using hd(2) by (simp_all add: pp_ok_def)
  obtain g gs where G2: "Gamma2 (hd chain) = g # gs" using l(2) n(1) by (cases "Gamma2 (hd chain)") auto
  have i0: "index0 chain = Ret (hd chain)" using hd(1) by (cases chain) (simp_all add: index0_def)
  have ne: "ring \<noteq> []" using n by auto
  have ip1: "InnerProd env ring (Gamma2 (hd chain)) = Ret (ip env ring (Gamma2 (hd chain)))"
    by (rule InnerProd_ip[OF gt pr]) (simp_all add: n l ne)
  have ip2: "InnerProd env (replicate n (H env)) (Gamma2 (hd chain))
               = Ret (ip env (replicate n (H env)) (Gamma2 (hd chain)))"
    by (rule InnerProd_ip[OF gt pr]) (use n l in auto)
  have lst: "pp_ok env (last chain) 1" by (rule chain_ok_last[OF ch])
  obtain dg where dg: "PP_Digest env (last chain) [] = Ret dg"
    using PP_Digest_Ret[of env "last chain" 1 "[]"] lst by (auto simp: pp_ok_def)
  show ?thesis
    unfolding ComputePreProcessedParams_def Let_def
    by (simp add: i0 ip1 ip2 ip1[unfolded G2] ip2[unfolded G2] G1v_Duplicate_Ret[of "H env" n, unfolded n(2)[symmetric]] n(2)
        G2v_Sum_def computeDigest_def hd(1) dg G2 G1v_Duplicate_def)
qed

lemma G1_neg:
  assumes "g1_ok env"
  shows "G1_Sub env (G1_Sub env g g) x = G1_Mul env x (- 1)"
proof -
  note L = g1_laws[OF assms]
  have "G1_Sub env g g = G1_Add env (G1_Mul env g 1) (G1_Mul env g (- 1))"
    by (simp add: L(4) L(5))
  also have "\<dots> = G1_Mul env g (1 + (- 1))" by (rule L(6)[symmetric])
  finally have z: "G1_Sub env g g = G1_Mul env g 0" by simp
  have "G1_Sub env (G1_Sub env g g) x = G1_Sub env (G1_Mul env g 0) x"
    by (simp only: z)
  also have "\<dots> = G1_Add env (G1_Mul env g 0) (G1_Mul env x (- 1))"
    by (rule L(4))
  also have "\<dots> = G1_Add env (G1_Mul env x (- 1)) (G1_Mul env g 0)" by (rule L(2))
  also have "\<dots> = G1_Mul env x (- 1)" by (rule L(10))
  finally show ?thesis .
qed

lemma e_neg:
  assumes "gt_ok env" "pairing_ok env" "g1_ok env"
  shows "e env (G1_Sub env a b) g = Gt_Mul env (e env a g) (Gt_Exp env (e env b g) (- 1))"
  by (simp add: g1_laws(4)[OF assms(3)] pairing_laws(2,4)[OF assms(2)])

lemma ip_neg:
  assumes "gt_ok env" "pairing_ok env" "g1_ok env"
  shows "ip env (G1v_Neg env v) w = Gt_Inverse env (ip env v w)"
  unfolding G1v_Neg_def Let_def G1_neg[OF assms(3)] gt_laws(4)[OF assms(1)]
  by (rule ip_mul_left[OF assms(1,2)])

lemma e_foldl_sum:
  assumes "gt_ok env" "pairing_ok env"
  shows "e env x (foldl (G2_Add env) g gs) = ip env (replicate (Suc (length gs)) x) (g # gs)"
proof (induction gs arbitrary: g)
  case Nil
  then show ?case by (simp add: gt_one_right[OF assms(1)])
next
  case (Cons a gs)
  have "e env x (foldl (G2_Add env) (G2_Add env g a) gs)
          = Gt_Mul env (e env x (G2_Add env g a)) (ip env (replicate (length gs) x) gs)"
    using Cons.IH[of "G2_Add env g a"] by simp
  then show ?case
    by (simp add: pairing_laws(3)[OF assms(2)] gt_laws(1)[OF assms(1)])
qed

lemma ip_replicate_scalars:
  assumes "gt_ok env" "pairing_ok env"
  shows "ip env (replicate (length ks) x) (map (\<lambda>k. G2_Mul env g k) ks)
           = Gt_Exp env (e env x g) (sum_list ks)"
proof (induction ks)
  case Nil
  then show ?case by (simp add: Gt_Exp_0[OF assms(1)])
next
  case (Cons k ks)
  then show ?case
    by (simp add: pairing_laws(5)[OF assms(2)] gt_laws(6)[OF assms(1)])
qed

lemma computeY_loop_past:
  assumes gt: "gt_ok env" and pr: "pairing_ok env"
  shows "length c = length ring \<Longrightarrow> skip < i \<Longrightarrow>
     \<exists>Y. computeY_loop env c com ring skip i res = Ret Y \<and>
         e env Y g = Gt_Mul env (e env res g)
            (ip env (map (\<lambda>x. G1_Sub env x com) ring) (map (\<lambda>k. G2_Mul env g k) c))"
proof (induction ring arbitrary: c i res)
  case Nil
  then show ?case by (simp add: gt_one_right[OF gt])
next
  case (Cons x ring)
  obtain ck c' where c: "c = ck # c'" using Cons.prems(1) by (cases c) auto
  obtain Y where Y: "computeY_loop env c' com ring skip (i + 1)
        (G1_Add env res (G1_Mul env (G1_Sub env x com) ck)) = Ret Y"
    "e env Y g = Gt_Mul env (e env (G1_Add env res (G1_Mul env (G1_Sub env x com) ck)) g)
            (ip env (map (\<lambda>x. G1_Sub env x com) ring) (map (\<lambda>k. G2_Mul env g k) c'))"
    using Cons.IH[of c' "i + 1" "G1_Add env res (G1_Mul env (G1_Sub env x com) ck)"] Cons.prems c
    by auto
  show ?case
    using Y Cons.prems(2)
    by (simp add: c pairing_laws(2,4,5)[OF pr] gt_laws(1)[OF gt])
qed

lemma computeY_loop_e:
  assumes gt: "gt_ok env" and pr: "pairing_ok env"
  shows "length c + 1 = length ring \<Longrightarrow> i \<le> skip \<Longrightarrow> skip < i + length ring \<Longrightarrow>
     \<exists>Y. computeY_loop env c com ring skip i res = Ret Y \<and>
         e env Y g = Gt_Mul env (e env res g)
            (Gt_Mul env
              (ip env (take (skip - i) (map (\<lambda>x. G1_Sub env x com) ring))
                      (map (\<lambda>k. G2_Mul env g k) (take (skip - i) c)))
              (ip env (drop (Suc (skip - i)) (map (\<lambda>x. G1_Sub env x com) ring))
                      (map (\<lambda>k. G2_Mul env g k) (drop (skip - i) c))))"
proof (induction ring arbitrary: c i res)
  case Nil
  then show ?case by simp
next
  case (Cons x ring)
  show ?case
  proof (cases "i = skip")
    case True
    have len: "length c = length ring" using Cons.prems(1) by simp
    obtain Y where Y: "computeY_loop env c com ring skip (i + 1) res = Ret Y"
      "e env Y g = Gt_Mul env (e env res g)
            (ip env (map (\<lambda>x. G1_Sub env x com) ring) (map (\<lambda>k. G2_Mul env g k) c))"
      using computeY_loop_past[OF gt pr len, of skip "i + 1" com res g] True by auto
    show ?thesis
      using Y True by (simp add: gt_one_left[OF gt])
  next
    case False
    then have lt: "i + 1 \<le> skip" using Cons.prems(2) by simp
    have ne: "ring \<noteq> []" using Cons.prems(2,3) False by (cases ring) auto
    then obtain ck c' where c: "c = ck # c'" using Cons.prems(1) by (cases c) auto
    have len: "length c' + 1 = length ring" using Cons.prems(1) c by simp
    have sk: "skip < i + 1 + length ring" using Cons.prems(3) by simp
    obtain Y where Y: "computeY_loop env c' com ring skip (i + 1)
          (G1_Add env res (G1_Mul env (G1_Sub env x com) ck)) = Ret Y"
      "e env Y g = Gt_Mul env (e env (G1_Add env res (G1_Mul env (G1_Sub env x com) ck)) g)
            (Gt_Mul env
              (ip env (take (skip - (i + 1)) (map (\<lambda>x. G1_Sub env x com) ring))
                      (map (\<lambda>k. G2_Mul env g k) (take (skip - (i + 1)) c')))
              (ip env (drop (Suc (skip - (i + 1))) (map (\<lambda>x. G1_Sub env x com) ring))
                      (map (\<lambda>k. G2_Mul env g k) (drop (skip - (i + 1)) c'))))"
      using Cons.IH[OF len lt sk, of "G1_Add env res (G1_Mul env (G1_Sub env x com) ck)"]
      by (elim exE conjE) (rule that)
    have s: "skip - i = Suc (skip - (i + 1))" using lt by simp
    show ?thesis
      using Y False
      by (simp add: c s pairing_laws(2,4,5)[OF pr] gt_laws(1)[OF gt])
  qed
qed

lemma neg_plus_form:
  assumes "g1_ok env"
  shows "G1_Add env (G1_Sub env (G1_Sub env g g) x) com = G1_Mul env (G1_Sub env x com) (- 1)"
proof -
  note L = g1_laws[OF assms]
  have "G1_Mul env (G1_Sub env x com) (- 1)
          = G1_Add env (G1_Mul env x (- 1)) (G1_Mul env (G1_Mul env com (- 1)) (- 1))"
    by (simp only: L(4) L(8))
  also have "\<dots> = G1_Add env (G1_Mul env x (- 1)) com"
    by (simp add: L(7) L(5))
  finally show ?thesis by (simp only: G1_neg[OF assms])
qed

lemma v1_form:
  assumes "g1_ok env"
  shows "map (\<lambda>(a, b). G1_Add env a b) (zip (G1v_Neg env ring) (replicate (length ring) com))
           = map (\<lambda>x. G1_Mul env (G1_Sub env x com) (- 1)) ring"
  by (induction ring) (simp_all add: G1v_Neg_def Let_def neg_plus_form[OF assms])

lemma G2c_form:
  "length ks = n \<Longrightarrow>
     map (\<lambda>(g, k). G2_Mul env g k) (zip (replicate n g2) ks) = map (\<lambda>k. G2_Mul env g2 k) ks"
  by (induction ks arbitrary: n) auto

lemma gt_alg1:
  assumes gt: "gt_ok env"
  shows "Gt_Mul env S (Gt_Exp env (Gt_Mul env S (Gt_Exp env T r)) (- 1)) = Gt_Exp env T (- r)"
proof -
  note G = gt_laws[OF gt]
  have "Gt_Mul env S (Gt_Exp env (Gt_Mul env S (Gt_Exp env T r)) (- 1))
          = Gt_Mul env S (Gt_Mul env (Gt_Exp env S (- 1)) (Gt_Exp env T (r * (- 1))))"
    by (simp only: G(8) G(7))
  also have "\<dots> = Gt_Mul env (Gt_Mul env S (Gt_Exp env S (- 1))) (Gt_Exp env T (r * (- 1)))"
    by (simp only: G(1))
  also have "\<dots> = Gt_Exp env T (- r)"
    by (simp add: Gt_Exp_neg_cancel[OF gt] gt_one_left[OF gt])
  finally show ?thesis .
qed

lemma gt_alg2:
  assumes gt: "gt_ok env" and z: "z mod GroupOrder env = (y + cj * r) mod GroupOrder env"
  shows "Gt_Mul env (Gt_Exp env T z) (Gt_Exp env (Gt_Mul env (Gt_Exp env T y) (Gt_Mul env P1 P2)) (- 1))
           = Gt_Exp env (Gt_Mul env P1 (Gt_Mul env (Gt_Exp env (Gt_Exp env T (- r)) cj) P2)) (- 1)"
proof -
  note G = gt_laws[OF gt]
  define P where "P = Gt_Mul env P1 P2"
  have m: "(z + y * (- 1)) mod GroupOrder env = (cj * r) mod GroupOrder env"
  proof -
    have "(z + y * (- 1)) mod GroupOrder env = (z mod GroupOrder env - y) mod GroupOrder env"
      by (simp add: mod_simps)
    also have "\<dots> = ((y + cj * r) mod GroupOrder env - y) mod GroupOrder env"
      by (simp only: z)
    also have "\<dots> = (cj * r) mod GroupOrder env"
      by (simp add: mod_simps)
    finally show ?thesis .
  qed
  have "Gt_Mul env (Gt_Exp env T z) (Gt_Exp env (Gt_Mul env (Gt_Exp env T y) P) (- 1))
          = Gt_Mul env (Gt_Exp env T z) (Gt_Mul env (Gt_Exp env T (y * (- 1))) (Gt_Exp env P (- 1)))"
    by (simp only: G(8) G(7))
  also have "\<dots> = Gt_Mul env (Gt_Mul env (Gt_Exp env T z) (Gt_Exp env T (y * (- 1)))) (Gt_Exp env P (- 1))"
    by (simp only: G(1))
  also have "\<dots> = Gt_Mul env (Gt_Exp env T (z + y * (- 1))) (Gt_Exp env P (- 1))"
    by (simp only: G(6))
  also have "\<dots> = Gt_Mul env (Gt_Exp env T ((z + y * (- 1)) mod GroupOrder env)) (Gt_Exp env P (- 1))"
    by (simp only: G(9))
  also have "\<dots> = Gt_Mul env (Gt_Exp env T ((cj * r) mod GroupOrder env)) (Gt_Exp env P (- 1))"
    by (simp only: m)
  also have "\<dots> = Gt_Mul env (Gt_Exp env T (cj * r)) (Gt_Exp env P (- 1))"
    by (simp only: G(9))
  finally have lhs: "Gt_Mul env (Gt_Exp env T z) (Gt_Exp env (Gt_Mul env (Gt_Exp env T y) P) (- 1))
          = Gt_Mul env (Gt_Exp env T (cj * r)) (Gt_Exp env P (- 1))" .
  have "Gt_Exp env (Gt_Mul env P1 (Gt_Mul env (Gt_Exp env (Gt_Exp env T (- r)) cj) P2)) (- 1)
          = Gt_Exp env (Gt_Mul env (Gt_Exp env (Gt_Exp env T (- r)) cj) P) (- 1)"
    unfolding P_def by (simp only: G(3))
  also have "\<dots> = Gt_Mul env (Gt_Exp env T (- r * cj * (- 1))) (Gt_Exp env P (- 1))"
    by (simp only: G(8) G(7))
  also have "- r * cj * (- 1) = cj * r" by simp
  finally show ?thesis using lhs by (simp add: P_def)
qed

lemma ring_C_eq:
  fixes env :: "('g1, 'g2, 'gt, 'ml) curve"
  assumes ok: "curve_ok env"
    and j: "j < length ring" "ring ! j = pk"
    and com: "com = G1_Add env pk (G1_Mul env Hh r)"
    and len: "length c + 1 = length ring"
    and z: "z mod GroupOrder env = (y + cj * r) mod GroupOrder env"
  shows "\<exists>Y. computeY_loop env c com ring j 0 (G1_Mul env Hh y) = Ret Y \<and>
           e env (G1_Sub env (G1_Mul env Hh z) Y) g
             = ip env (map (\<lambda>x. G1_Mul env (G1_Sub env x com) (- 1)) ring)
                 (map (\<lambda>k. G2_Mul env g k) (take j c @ cj # drop j c))"
proof -
  have gt: "gt_ok env" and pr: "pairing_ok env" and g1: "g1_ok env"
    using ok by (auto simp: curve_ok_def)
  note G = gt_laws[OF gt]
  define xs where "xs = map (\<lambda>x. G1_Sub env x com) ring"
  define P1 where "P1 = ip env (take j xs) (map (\<lambda>k. G2_Mul env g k) (take j c))"
  define P2 where "P2 = ip env (drop (Suc j) xs) (map (\<lambda>k. G2_Mul env g k) (drop j c))"
  define T where "T = e env Hh g"
  obtain Y where Y: "computeY_loop env c com ring j 0 (G1_Mul env Hh y) = Ret Y"
    and eY: "e env Y g = Gt_Mul env (e env (G1_Mul env Hh y) g) (Gt_Mul env P1 P2)"
    using computeY_loop_e[OF gt pr len, of 0 j com "G1_Mul env Hh y" g] j(1)
    unfolding P1_def P2_def xs_def by auto
  have lx: "length xs = length ring" by (simp add: xs_def)
  have xs_split: "xs = take j xs @ (xs ! j # drop (Suc j) xs)"
    using j(1) lx by (simp add: id_take_nth_drop[symmetric])
  have xj: "xs ! j = G1_Sub env pk com" using j by (simp add: xs_def)
  have U: "e env (xs ! j) g = Gt_Exp env T (- r)"
    unfolding xj com T_def e_neg[OF gt pr g1] pairing_laws(2,4)[OF pr]
    by (rule gt_alg1[OF gt])
  have jc: "j \<le> length c" using j(1) len by simp
  have "ip env xs (map (\<lambda>k. G2_Mul env g k) (take j c @ cj # drop j c))
          = ip env (take j xs @ (xs ! j # drop (Suc j) xs))
              (map (\<lambda>k. G2_Mul env g k) (take j c) @ (G2_Mul env g cj # map (\<lambda>k. G2_Mul env g k) (drop j c)))"
    using xs_split by simp
  also have "\<dots> = Gt_Mul env P1 (Gt_Mul env (e env (xs ! j) (G2_Mul env g cj)) P2)"
    unfolding P1_def P2_def
    using jc j(1) lx by (subst ip_append[OF gt]) simp_all
  also have "\<dots> = Gt_Mul env P1 (Gt_Mul env (Gt_Exp env (Gt_Exp env T (- r)) cj) P2)"
    by (simp only: pairing_laws(5)[OF pr] U)
  finally have R: "ip env xs (map (\<lambda>k. G2_Mul env g k) (take j c @ cj # drop j c))
     = Gt_Mul env P1 (Gt_Mul env (Gt_Exp env (Gt_Exp env T (- r)) cj) P2)" .
  have m: "map (\<lambda>x. G1_Mul env (G1_Sub env x com) (- 1)) ring = map (\<lambda>x. G1_Mul env x (- 1)) xs"
    by (simp add: xs_def comp_def)
  have "e env (G1_Sub env (G1_Mul env Hh z) Y) g
          = Gt_Mul env (Gt_Exp env T z) (Gt_Exp env (Gt_Mul env (Gt_Exp env T y) (Gt_Mul env P1 P2)) (- 1))"
    unfolding e_neg[OF gt pr g1] eY pairing_laws(4)[OF pr] T_def ..
  also have "\<dots> = Gt_Exp env (Gt_Mul env P1 (Gt_Mul env (Gt_Exp env (Gt_Exp env T (- r)) cj) P2)) (- 1)"
    by (rule gt_alg2[OF gt z])
  also have "\<dots> = ip env (map (\<lambda>x. G1_Mul env x (- 1)) xs) (map (\<lambda>k. G2_Mul env g k) (take j c @ cj # drop j c))"
    unfolding ip_mul_left[OF gt pr] R ..
  finally show ?thesis using Y m by simp
qed

lemma locatePK_loop_Ret: "pk \<in> set ring \<Longrightarrow> \<exists>j. locatePK_loop pk ring i = Ret (pk, j)"
  by (induction ring arbitrary: i) auto

lemma Step2_Bytes_all_Ret:
  "list_all (\<lambda>x. s2_ReduceProverStep1ElementsDigest x \<noteq> []) s2 \<Longrightarrow>
     \<exists>bs. Step2_Bytes_all env s2 = Ret bs"
  by (induction s2) (auto simp: Step2_Bytes_def)

lemma Reduce_Proof_Digest:
  assumes sc: "scalars_ok env" and r: "Reduce env chain w cmt = Ret \<pi>"
  shows "\<exists>dg. Proof_Digest env \<pi> = Ret dg"
proof -
  from r obtain s1 s2 fin where rr: "reduce env chain w cmt = Ret (s1, s2, fin)"
    and p: "\<pi> = \<lparr>Step1Elements = s1, Step2Elements = s2, proof_ScalarProductProofElements = fin,
            proof_digest = []\<rparr>"
    unfolding Reduce_def by (auto elim!: rbind_RetE)
  have len32: "length (sha256 env bs) = 32" for bs using sc by (simp add: scalars_ok_def)
  have "sha256 env bs \<noteq> []" for bs using len32[of bs] by auto
  then have "list_all (\<lambda>x. s2_ReduceProverStep1ElementsDigest x \<noteq> []) s2"
    using reduce_digests[OF rr] by (auto simp: list_all_iff)
  then obtain bs where "Step2_Bytes_all env s2 = Ret bs"
    using Step2_Bytes_all_Ret by blast
  then show ?thesis
    by (simp add: Proof_Digest_def Proof_Bytes_def Let_def p)
qed

lemma RingProof_Ret:
  fixes env :: "('g1, 'g2, 'gt, 'ml) curve"
  assumes ok: "curve_ok env" and ch: "chain_ok env n chain" and n: "2 \<le> n" "length ring = n"
    and ppp: "ppp = \<lparr>ppp_digest = dg,
                A0Inverse = Gt_Inverse env (ip env ring (Gamma2 (hd chain))),
                ppp_D = ip env (replicate n (H env)) (Gamma2 (hd chain)),
                ppp_Gamma2 = foldl (G2_Add env) (hd (Gamma2 (hd chain))) (tl (Gamma2 (hd chain))),
                H1 = replicate n (H env)\<rparr>"
    and pk: "G1_Mul env (GenG1 env) sk \<in> set ring"
    and com: "com = G1_Add env (G1_Mul env (GenG1 env) sk) (G1_Mul env (H env) r)"
  shows "\<exists>Y h z B v1 G2c.
     hashToZr env [Gt_Bytes env (Gt_Mul env (e env com (ppp_Gamma2 ppp)) (A0Inverse ppp)),
                   G1_Bytes env Y, dg] = Ret h \<and>
     length v1 = n \<and> length G2c = n \<and>
     consistent env (hd chain) v1 G2c
       \<lparr>cmt_C = e env (G1_Sub env (G1_Mul env (H env) z) Y) (GenG2 env),
        cmt_D1 = Gt_Mul env (e env com (ppp_Gamma2 ppp)) (A0Inverse ppp), cmt_D2 = B\<rparr> \<and>
     consistent env (hd chain) (replicate n (H env)) G2c
       \<lparr>cmt_C = e env (G1_Mul env (H env) h) (GenG2 env), cmt_D1 = ppp_D ppp, cmt_D2 = B\<rparr> \<and>
     RingProof env y crand sk \<lparr>PreProcessedParams = ppp, DoryParams = chain\<rparr> ring r com =
       rbind (Reduce env chain \<lparr>w_V1 = v1, w_V2 = G2c\<rparr>
               \<lparr>cmt_C = e env (G1_Sub env (G1_Mul env (H env) z) Y) (GenG2 env),
                cmt_D1 = Gt_Mul env (e env com (ppp_Gamma2 ppp)) (A0Inverse ppp), cmt_D2 = B\<rparr>)
         (\<lambda>\<pi>1. rbind (Reduce env chain \<lparr>w_V1 = replicate n (H env), w_V2 = G2c\<rparr>
               \<lparr>cmt_C = e env (G1_Mul env (H env) h) (GenG2 env), cmt_D1 = ppp_D ppp, cmt_D2 = B\<rparr>)
         (\<lambda>\<pi>2. Ret \<lparr>rp_TagCommitment = com, rp_DoryProof1 = \<pi>1, rp_DoryProof2 = \<pi>2,
                      rp_Z = z, rp_Y = Y, rp_B = B\<rparr>))"
proof -
  have gt: "gt_ok env" and pr: "pairing_ok env" and g1: "g1_ok env" and sc: "scalars_ok env"
    using ok by (auto simp: curve_ok_def)
  note G = gt_laws[OF gt]
  define q where "q = GroupOrder env"
  define \<Gamma>1 where "\<Gamma>1 = Gamma1 (hd chain)"
  define \<Gamma>2 where "\<Gamma>2 = Gamma2 (hd chain)"
  have hd: "chain \<noteq> []" "pp_ok env (hd chain) n"
    using chain_ok_hd[OF ch] by simp_all
  have l: "length \<Gamma>1 = n" "length \<Gamma>2 = n"
    using hd(2) by (simp_all add: pp_ok_def \<Gamma>1_def \<Gamma>2_def)
  have i0: "index0 chain = Ret (hd chain)" using hd(1) by (cases chain) (simp_all add: index0_def)
  define A where "A = Gt_Mul env (e env com (ppp_Gamma2 ppp)) (A0Inverse ppp)"
  define c where "c = map crand [0..<nat (int n - 1)]"
  have lc: "length c + 1 = n" "c \<noteq> []" using n(1) by (auto simp: c_def)
  obtain j where j0: "locatePK_loop (G1_Mul env (GenG1 env) sk) ring 0 = Ret (G1_Mul env (GenG1 env) sk, j)"
    using locatePK_loop_Ret[OF pk] by blast
  have j: "j < length ring" "ring ! j = G1_Mul env (GenG1 env) sk"
    using locatePK_loop_bound[OF j0] by simp_all
  have jc: "j \<le> length c" using j(1) lc n(2) by simp
  define s where "s = sum_list c mod q"
  have s: "sumZr env c = Ret s" by (simp add: sumZr_Ret[OF lc(2)] s_def q_def)
  obtain Y0 where Y0: "computeY_loop env c com ring j 0 (G1_Mul env (H env) y) = Ret Y0"
    using computeY_loop_e[OF gt pr, of c ring 0 j com "G1_Mul env (H env) y" "GenG2 env"] lc(1) n(2) j(1)
    by auto
  obtain h where h: "hashToZr env [Gt_Bytes env A, G1_Bytes env Y0, dg] = Ret h"
    and hr: "0 \<le> h" "h < GroupOrder env"
    using hashToZr_Ret[OF sc] by blast
  define cj where "cj = Zr_Mod (Zr_Plus h (negZr env s)) (GroupOrder env)"
  define z where "z = Zr_Mod (Zr_Plus y (Zr_Mul env cj r)) (GroupOrder env)"
  define c' where "c' = take j c @ cj # drop j c"
  have emb: "embedInVec c cj j = Ret c'" by (simp add: embedInVec_Ret[OF jc] c'_def)
  have lc': "length c' = n" using lc(1) jc by (simp add: c'_def)
  have sm: "sum_list c' mod GroupOrder env = h mod GroupOrder env"
    unfolding c'_def sum_list_embed cj_def s_def q_def by (rule cj_sum)
  have hm: "h mod GroupOrder env = h" using hr by simp
  have c'ne: "c' \<noteq> []" by (simp add: c'_def)
  have cs: "sumZr env c' = Ret h" by (simp add: sumZr_Ret[OF c'ne] sm hm)
  define G2c where "G2c = map (\<lambda>k. G2_Mul env (GenG2 env) k) c'"
  have mulv: "G2v_Mulv env (replicate n (GenG2 env)) c' = Ret G2c"
    by (simp add: G2v_Mulv_def lc' G2c_form[OF lc'] G2c_def)
  have lG: "length G2c = n" by (simp add: G2c_def lc')
  define B where "B = ip env \<Gamma>1 G2c"
  have ipB: "InnerProd env \<Gamma>1 G2c = Ret B"
    unfolding B_def by (rule InnerProd_ip[OF gt pr]) (use l lG n(1) in auto)
  define v1 where "v1 = map (\<lambda>x. G1_Mul env (G1_Sub env x com) (- 1)) ring"
  have add: "G1v_Add env (G1v_Neg env ring) (replicate n com) = Ret v1"
    using v1_form[OF g1, of ring com] by (simp add: G1v_Add_def G1v_Neg_def Let_def n(2) v1_def)
  have lv: "length v1 = n" by (simp add: v1_def n(2))
  have zm: "z mod GroupOrder env = (y + cj * r) mod GroupOrder env"
    by (simp add: z_def Zr_Mod_def Zr_Plus_def Zr_Mul_def mod_simps)
  have C: "e env (G1_Sub env (G1_Mul env (H env) z) Y0) (GenG2 env) = ip env v1 G2c"
    using ring_C_eq[OF ok j com _ zm, of c "GenG2 env"] lc(1) n(2) Y0
    by (simp add: v1_def G2c_def c'_def)
  obtain g gs where G2: "\<Gamma>2 = g # gs" using l(2) n(1) by (cases \<Gamma>2) auto
  have lgs: "Suc (length gs) = n" using l(2) G2 by simp
  have sumG: "ppp_Gamma2 ppp = foldl (G2_Add env) g gs"
    using G2 by (simp add: ppp \<Gamma>2_def)
  have rep: "e env com (ppp_Gamma2 ppp) = ip env (replicate n com) \<Gamma>2"
    unfolding sumG e_foldl_sum[OF gt pr] lgs G2 ..
  have Aeq: "A = ip env v1 \<Gamma>2"
  proof -
    have "ip env v1 \<Gamma>2
            = ip env (map (\<lambda>(a, b). G1_Add env a b) (zip (G1v_Neg env ring) (replicate (length ring) com))) \<Gamma>2"
      by (simp only: v1_def v1_form[OF g1])
    also have "\<dots> = Gt_Mul env (ip env (G1v_Neg env ring) \<Gamma>2) (ip env (replicate (length ring) com) \<Gamma>2)"
      by (rule ip_add_left[OF gt pr]) (simp_all add: G1v_Neg_def n(2) l)
    also have "\<dots> = Gt_Mul env (ip env (replicate n com) \<Gamma>2) (Gt_Inverse env (ip env ring \<Gamma>2))"
      by (simp only: ip_neg[OF gt pr g1] n(2) G(2))
    finally have "ip env v1 \<Gamma>2
        = Gt_Mul env (ip env (replicate n com) \<Gamma>2) (Gt_Inverse env (ip env ring \<Gamma>2))" .
    moreover have "A0Inverse ppp = Gt_Inverse env (ip env ring \<Gamma>2)"
      by (simp add: ppp \<Gamma>2_def)
    ultimately show ?thesis
      unfolding A_def rep by simp
  qed
  have E: "e env (G1_Mul env (H env) h) (GenG2 env) = ip env (replicate n (H env)) G2c"
  proof -
    have "ip env (replicate n (H env)) G2c = Gt_Exp env (e env (H env) (GenG2 env)) (sum_list c')"
      using ip_replicate_scalars[OF gt pr, of c' "H env" "GenG2 env"] by (simp add: G2c_def lc')
    also have "\<dots> = Gt_Exp env (e env (H env) (GenG2 env)) (sum_list c' mod GroupOrder env)"
      by (simp only: G(9))
    also have "\<dots> = Gt_Exp env (e env (H env) (GenG2 env)) h"
      by (simp only: sm hm)
    finally show ?thesis by (simp add: pairing_laws(4)[OF pr])
  qed
  have cons1: "consistent env (hd chain) v1 G2c
       \<lparr>cmt_C = e env (G1_Sub env (G1_Mul env (H env) z) Y0) (GenG2 env), cmt_D1 = A, cmt_D2 = B\<rparr>"
    by (simp add: consistent_def C Aeq B_def \<Gamma>1_def \<Gamma>2_def)
  have cons2: "consistent env (hd chain) (replicate n (H env)) G2c
       \<lparr>cmt_C = e env (G1_Mul env (H env) h) (GenG2 env), cmt_D1 = ppp_D ppp, cmt_D2 = B\<rparr>"
    by (simp add: consistent_def E B_def \<Gamma>1_def \<Gamma>2_def ppp)
  have n1: "\<not> int n - 1 < 0" using n(1) by simp
  have pd: "ppp_digest ppp = dg" "H1 ppp = replicate n (H env)" by (simp_all add: ppp)
  have RP: "RingProof env y crand sk \<lparr>PreProcessedParams = ppp, DoryParams = chain\<rparr> ring r com =
       rbind (Reduce env chain \<lparr>w_V1 = v1, w_V2 = G2c\<rparr>
               \<lparr>cmt_C = e env (G1_Sub env (G1_Mul env (H env) z) Y0) (GenG2 env),
                cmt_D1 = A, cmt_D2 = B\<rparr>)
         (\<lambda>\<pi>1. rbind (Reduce env chain \<lparr>w_V1 = replicate n (H env), w_V2 = G2c\<rparr>
               \<lparr>cmt_C = e env (G1_Mul env (H env) h) (GenG2 env), cmt_D1 = ppp_D ppp, cmt_D2 = B\<rparr>)
         (\<lambda>\<pi>2. Ret \<lparr>rp_TagCommitment = com, rp_DoryProof1 = \<pi>1, rp_DoryProof2 = \<pi>2,
                      rp_Z = z, rp_Y = Y0, rp_B = B\<rparr>))"
    unfolding RingProof_def Let_def
    using n1
    by (simp add: i0 n(2) c_def[symmetric] locatePK_def j0 computeY_def Y0 A_def[symmetric] h
        pd s cj_def[symmetric] z_def[symmetric] emb cs G2v_Duplicate_Ret mulv
        \<Gamma>1_def[symmetric] ipB G1v_Duplicate_Ret add)
  show ?thesis
    using h lv lG cons1 cons2 RP unfolding A_def by blast
qed

lemma Sign_Verify:
  fixes env :: "('g1, 'g2, 'gt, 'ml) curve"
  assumes ok: "curve_ok env" and k: "1 \<le> k" and ring: "length ring = 2 ^ k"
    and pk: "G1_Mul env (GenG1 env) sk \<in> set ring"
  shows "\<exists>chain ppp \<sigma>.
     GeneratePublicParams env (2 ^ k) = Ret chain \<and>
     ComputePreProcessedParams env chain ring = Ret ppp \<and>
     Sign env r y crand ar br sk \<lparr>PreProcessedParams = ppp, DoryParams = chain\<rparr> m prefix ring = Ret \<sigma> \<and>
     (challenges_nonzero env (DoryProof1 \<sigma>) \<and> challenges_nonzero env (DoryProof2 \<sigma>) \<longrightarrow>
        (\<forall>sched d1 d2. d1 mod GroupOrder env \<noteq> 0 \<and> d2 mod GroupOrder env \<noteq> 0 \<longrightarrow>
           Verify env sched d1 d2 \<sigma> \<lparr>PreProcessedParams = ppp, DoryParams = chain\<rparr> m prefix = Ret None) \<and>
        (chi (last chain) \<noteq> gt_one env \<longrightarrow>
           (\<forall>sched d2. d2 mod GroupOrder env \<noteq> 0 \<and> 0 \<in> set sched \<longrightarrow>
              Verify env sched 0 d2 \<sigma> \<lparr>PreProcessedParams = ppp, DoryParams = chain\<rparr> m prefix
                = Ret (Some ''first Dory proof invalid'')) \<and>
           (\<forall>sched d1. d1 mod GroupOrder env \<noteq> 0 \<and> 1 \<in> set sched \<longrightarrow>
              Verify env sched d1 0 \<sigma> \<lparr>PreProcessedParams = ppp, DoryParams = chain\<rparr> m prefix
                = Ret (Some ''second Dory proof invalid''))))"
proof -
  have sc: "scalars_ok env" using ok by (simp add: curve_ok_def)
  define n :: nat where "n = 2 ^ k"
  have n2: "2 \<le> n" using k self_le_power[of 2 k] by (simp add: n_def)
  have n0: "0 < n" using n2 by simp
  have rn: "length ring = n" using ring by (simp add: n_def)
  obtain chain where ch: "GeneratePublicParams env (2 ^ k) = Ret chain" "chain_ok env n chain"
    using GeneratePublicParams_ok[of env k] unfolding n_def by blast
  obtain dg where cp: "ComputePreProcessedParams env chain ring =
           Ret \<lparr>ppp_digest = dg,
                A0Inverse = Gt_Inverse env (ip env ring (Gamma2 (hd chain))),
                ppp_D = ip env (replicate n (H env)) (Gamma2 (hd chain)),
                ppp_Gamma2 = foldl (G2_Add env) (hd (Gamma2 (hd chain))) (tl (Gamma2 (hd chain))),
                H1 = replicate n (H env)\<rparr>"
    using ComputePreProcessedParams_Ret[OF ok ch(2) n0 rn] by blast
  define ppp where "ppp = \<lparr>ppp_digest = dg,
                A0Inverse = Gt_Inverse env (ip env ring (Gamma2 (hd chain))),
                ppp_D = ip env (replicate n (H env)) (Gamma2 (hd chain)),
                ppp_Gamma2 = foldl (G2_Add env) (hd (Gamma2 (hd chain))) (tl (Gamma2 (hd chain))),
                H1 = replicate n (H env)\<rparr>"
  define com where "com = G1_Add env (G1_Mul env (GenG1 env) sk) (G1_Mul env (H env) r)"
  obtain Y h z B v1 G2c where
    h0: "hashToZr env [Gt_Bytes env (Gt_Mul env (e env com (ppp_Gamma2 ppp)) (A0Inverse ppp)),
                   G1_Bytes env Y, dg] = Ret h"
    and lv: "length v1 = n" "length G2c = n"
    and cons10: "consistent env (hd chain) v1 G2c
       \<lparr>cmt_C = e env (G1_Sub env (G1_Mul env (H env) z) Y) (GenG2 env),
        cmt_D1 = Gt_Mul env (e env com (ppp_Gamma2 ppp)) (A0Inverse ppp), cmt_D2 = B\<rparr>"
    and cons2: "consistent env (hd chain) (replicate n (H env)) G2c
       \<lparr>cmt_C = e env (G1_Mul env (H env) h) (GenG2 env), cmt_D1 = ppp_D ppp, cmt_D2 = B\<rparr>"
    and RP0: "RingProof env y crand sk \<lparr>PreProcessedParams = ppp, DoryParams = chain\<rparr> ring r com =
       rbind (Reduce env chain \<lparr>w_V1 = v1, w_V2 = G2c\<rparr>
               \<lparr>cmt_C = e env (G1_Sub env (G1_Mul env (H env) z) Y) (GenG2 env),
                cmt_D1 = Gt_Mul env (e env com (ppp_Gamma2 ppp)) (A0Inverse ppp), cmt_D2 = B\<rparr>)
         (\<lambda>\<pi>1. rbind (Reduce env chain \<lparr>w_V1 = replicate n (H env), w_V2 = G2c\<rparr>
               \<lparr>cmt_C = e env (G1_Mul env (H env) h) (GenG2 env), cmt_D1 = ppp_D ppp, cmt_D2 = B\<rparr>)
         (\<lambda>\<pi>2. Ret \<lparr>rp_TagCommitment = com, rp_DoryProof1 = \<pi>1, rp_DoryProof2 = \<pi>2,
                      rp_Z = z, rp_Y = Y, rp_B = B\<rparr>))"
    using RingProof_Ret[OF ok ch(2) n2 rn ppp_def pk com_def, of y crand]
    by (elim exE conjE) (rule that)
  define pp where "pp = \<lparr>PreProcessedParams = ppp, DoryParams = chain\<rparr>"
  define A where "A = Gt_Mul env (e env com (ppp_Gamma2 ppp)) (A0Inverse ppp)"
  note h = h0[folded A_def] and cons1 = cons10[folded A_def] and RP = RP0[folded A_def pp_def]
  define cmt1 where "cmt1 = \<lparr>cmt_C = e env (G1_Sub env (G1_Mul env (H env) z) Y) (GenG2 env),
      cmt_D1 = A, cmt_D2 = B\<rparr>"
  define cmt2 where "cmt2 = \<lparr>cmt_C = e env (G1_Mul env (H env) h) (GenG2 env),
      cmt_D1 = ppp_D ppp, cmt_D2 = B\<rparr>"
  obtain a1 b1 f1 where r1: "reduce env chain \<lparr>w_V1 = v1, w_V2 = G2c\<rparr> cmt1 = Ret (a1, b1, f1)"
    and v1: "consistent env (hd chain) v1 G2c cmt1 \<and> list_all (step1_nonzero env) a1 \<and>
        list_all (step2_nonzero env) b1 \<longrightarrow>
          (\<forall>d. d mod GroupOrder env \<noteq> 0 \<longrightarrow> verifyReduce env d chain cmt1 a1 b1 f1 = Ret None) \<and>
          (chi (last chain) \<noteq> gt_one env \<longrightarrow>
             verifyReduce env 0 chain cmt1 a1 b1 f1 = Ret (Some ''proof invalid''))"
    using dory_reduce_verify[OF ok ch(2) n2 lv, of cmt1] by (elim exE conjE) (rule that)
  obtain a2 b2 f2 where r2: "reduce env chain \<lparr>w_V1 = replicate n (H env), w_V2 = G2c\<rparr> cmt2 = Ret (a2, b2, f2)"
    and v2: "consistent env (hd chain) (replicate n (H env)) G2c cmt2 \<and> list_all (step1_nonzero env) a2 \<and>
        list_all (step2_nonzero env) b2 \<longrightarrow>
          (\<forall>d. d mod GroupOrder env \<noteq> 0 \<longrightarrow> verifyReduce env d chain cmt2 a2 b2 f2 = Ret None) \<and>
          (chi (last chain) \<noteq> gt_one env \<longrightarrow>
             verifyReduce env 0 chain cmt2 a2 b2 f2 = Ret (Some ''proof invalid''))"
    using dory_reduce_verify[OF ok ch(2) n2 length_replicate lv(2), of "H env" cmt2]
    by (elim exE conjE) (rule that)
  define \<pi>1 where "\<pi>1 = \<lparr>Step1Elements = a1, Step2Elements = b1,
      proof_ScalarProductProofElements = f1, proof_digest = []\<rparr>"
  define \<pi>2 where "\<pi>2 = \<lparr>Step1Elements = a2, Step2Elements = b2,
      proof_ScalarProductProofElements = f2, proof_digest = []\<rparr>"
  have R1: "Reduce env chain \<lparr>w_V1 = v1, w_V2 = G2c\<rparr> cmt1 = Ret \<pi>1"
    by (simp add: Reduce_def r1 \<pi>1_def)
  have R2: "Reduce env chain \<lparr>w_V1 = replicate n (H env), w_V2 = G2c\<rparr> cmt2 = Ret \<pi>2"
    by (simp add: Reduce_def r2 \<pi>2_def)
  obtain dg1 where dg1: "Proof_Digest env \<pi>1 = Ret dg1"
    using Reduce_Proof_Digest[OF sc R1] by blast
  obtain dg2 where dg2: "Proof_Digest env \<pi>2 = Ret dg2"
    using Reduce_Proof_Digest[OF sc R2] by blast
  have tc: "tag_Commit env r sk = (\<lparr>w_R = r\<rparr>, com)"
    by (simp add: tag_Commit_def Let_def com_def)
  obtain \<pi>t where np: "tag_NewProof env ar br prefix sk \<lparr>w_R = r\<rparr> [m, dg1, dg2] = Ret \<pi>t"
    and tv: "tag_Proof_Verify env \<pi>t (Tag env sk prefix) com prefix [m, dg1, dg2] = Ret None"
    using tag_NewProof_accepted[OF ok, of ar br prefix sk r "[m, dg1, dg2]"] unfolding tc by auto
  define \<sigma> where "\<sigma> = \<lparr>TagProof = \<pi>t, TagCommitment = com, TagValue = Tag env sk prefix,
      DoryProof1 = \<pi>1, DoryProof2 = \<pi>2, rs_B = B, rs_Z = z, rs_Y = Y\<rparr>"
  have S: "Sign env r y crand ar br sk pp m prefix ring = Ret \<sigma>"
    unfolding Sign_def Let_def tc
    by (simp add: RP R1[unfolded cmt1_def] R2[unfolded cmt2_def] dg1 dg2 np \<sigma>_def)
  have pd: "ppp_digest ppp = dg" by (simp add: ppp_def)
  have V: "Verify env sched d1 d2 \<sigma> pp m prefix =
      rbind (verifyReduce env d1 chain cmt1 a1 b1 f1) (\<lambda>err1.
      rbind (verifyReduce env d2 chain cmt2 a2 b2 f2) (\<lambda>err2.
        Ret (atomicErr_final sched
                 (\<lambda>t. if t = 0 then (case err1 of None \<Rightarrow> None
                                       | Some _ \<Rightarrow> Some ''first Dory proof invalid'')
                       else if t = 1 then (case err2 of None \<Rightarrow> None
                                       | Some _ \<Rightarrow> Some ''second Dory proof invalid'')
                       else None))))" for sched d1 d2
    unfolding Verify_def Let_def
    by (simp add: \<sigma>_def pp_def A_def[symmetric] pd h VerifyReduce_def
        dg1[unfolded \<pi>1_def] dg2[unfolded \<pi>2_def] tv
        cmt1_def[symmetric] cmt2_def[symmetric] \<pi>1_def \<pi>2_def cong: if_cong)
  have fin: "(\<forall>sched d1 d2. d1 mod GroupOrder env \<noteq> 0 \<and> d2 mod GroupOrder env \<noteq> 0 \<longrightarrow>
           Verify env sched d1 d2 \<sigma> pp m prefix = Ret None) \<and>
        (chi (last chain) \<noteq> gt_one env \<longrightarrow>
           (\<forall>sched d2. d2 mod GroupOrder env \<noteq> 0 \<and> 0 \<in> set sched \<longrightarrow>
              Verify env sched 0 d2 \<sigma> pp m prefix = Ret (Some ''first Dory proof invalid'')) \<and>
           (\<forall>sched d1. d1 mod GroupOrder env \<noteq> 0 \<and> 1 \<in> set sched \<longrightarrow>
              Verify env sched d1 0 \<sigma> pp m prefix = Ret (Some ''second Dory proof invalid'')))"
    if nz: "challenges_nonzero env (DoryProof1 \<sigma>)" "challenges_nonzero env (DoryProof2 \<sigma>)"
  proof -
    have l1: "list_all (step1_nonzero env) a1" "list_all (step2_nonzero env) b1"
      using nz(1) by (simp_all add: challenges_nonzero_def \<sigma>_def \<pi>1_def)
    have l2: "list_all (step1_nonzero env) a2" "list_all (step2_nonzero env) b2"
      using nz(2) by (simp_all add: challenges_nonzero_def \<sigma>_def \<pi>2_def)
    have a1: "verifyReduce env d chain cmt1 a1 b1 f1 = Ret None" if "d mod GroupOrder env \<noteq> 0" for d
      using v1 cons1 l1 that by (simp add: cmt1_def)
    have a2: "verifyReduce env d chain cmt2 a2 b2 f2 = Ret None" if "d mod GroupOrder env \<noteq> 0" for d
      using v2 cons2 l2 that by (simp add: cmt2_def)
    have z1: "verifyReduce env 0 chain cmt1 a1 b1 f1 = Ret (Some ''proof invalid'')"
      if "chi (last chain) \<noteq> gt_one env"
      using v1 cons1 l1 that by (simp add: cmt1_def)
    have z2: "verifyReduce env 0 chain cmt2 a2 b2 f2 = Ret (Some ''proof invalid'')"
      if "chi (last chain) \<noteq> gt_one env"
      using v2 cons2 l2 that by (simp add: cmt2_def)
    have "Verify env sched d1 d2 \<sigma> pp m prefix = Ret None"
      if "d1 mod GroupOrder env \<noteq> 0" "d2 mod GroupOrder env \<noteq> 0" for sched d1 d2
      unfolding V by (simp add: a1[OF that(1)] a2[OF that(2)] atomicErr_final_None)
    moreover have "Verify env sched 0 d2 \<sigma> pp m prefix = Ret (Some ''first Dory proof invalid'')"
      if "chi (last chain) \<noteq> gt_one env" "d2 mod GroupOrder env \<noteq> 0" "0 \<in> set sched"
      for sched d2
    proof -
      have "atomicErr_final sched
              (\<lambda>t. if t = 0 then Some ''first Dory proof invalid'' else None)
            = Some ''first Dory proof invalid''"
        by (rule atomicErr_final_single[OF that(3)]) simp_all
      then show ?thesis
        unfolding V by (simp add: z1[OF that(1)] a2[OF that(2)] cong: if_cong)
    qed
    moreover have "Verify env sched d1 0 \<sigma> pp m prefix = Ret (Some ''second Dory proof invalid'')"
      if "chi (last chain) \<noteq> gt_one env" "d1 mod GroupOrder env \<noteq> 0" "1 \<in> set sched"
      for sched d1
    proof -
      have "atomicErr_final sched
              (\<lambda>t. if t = 0 then None else if t = 1 then Some ''second Dory proof invalid'' else None)
            = Some ''second Dory proof invalid''"
        by (rule atomicErr_final_single[OF that(3)]) simp_all
      then show ?thesis
        unfolding V by (simp add: z2[OF that(1)] a1[OF that(2)] cong: if_cong)
    qed
    ultimately show ?thesis by blast
  qed
  show ?thesis
    using ch(1) cp S fin unfolding ppp_def[symmetric] pp_def by blast
qed

section \<open>Signing and verifying\<close>

lemma Sign_Reduce:
  assumes "Sign env r y crand ar br sk pp m prefix ring = Ret \<sigma>"
  shows "\<exists>w1 c1 w2 c2. Reduce env (DoryParams pp) w1 c1 = Ret (DoryProof1 \<sigma>) \<and>
                       Reduce env (DoryParams pp) w2 c2 = Ret (DoryProof2 \<sigma>)"
  using assms unfolding Sign_def RingProof_def Let_def
  apply (auto elim!: rbind_RetE split: prod.splits if_splits)
   apply blast+
  done

lemma toy_Sign_challenges:
  assumes "Sign toy r y crand ar br sk pp m prefix ring = Ret \<sigma>"
  shows "challenges_nonzero toy (DoryProof1 \<sigma>) \<and> challenges_nonzero toy (DoryProof2 \<sigma>)"
  using Sign_Reduce[OF assms] toy_challenges_nonzero by blast

lemma toy_chain2:
  "\<exists>chain. GeneratePublicParams toy 2 = Ret chain \<and> chi (last chain) = 2"
  by (simp add: eval_defs)

lemma toy_gt_one: "gt_one toy = 0"
  by (simp add: gt_one_def toy_sel e_def)

lemma two_ne: "(2::5) \<noteq> 0"
  by simp

lemma toy_Sign_Verify:
  "\<exists>chain ppp \<sigma>.
     GeneratePublicParams toy 2 = Ret chain \<and>
     ComputePreProcessedParams toy chain [2, 4] = Ret ppp \<and>
     Sign toy 3 1 (\<lambda>i. 2) 1 4 2 \<lparr>PreProcessedParams = ppp, DoryParams = chain\<rparr> [1] [2] [2, 4] = Ret \<sigma> \<and>
     (\<forall>sched d1 d2. d1 mod 5 \<noteq> 0 \<and> d2 mod 5 \<noteq> 0 \<longrightarrow>
        Verify toy sched d1 d2 \<sigma> \<lparr>PreProcessedParams = ppp, DoryParams = chain\<rparr> [1] [2] = Ret None) \<and>
     (\<forall>sched d2. d2 mod 5 \<noteq> 0 \<and> 0 \<in> set sched \<longrightarrow>
        Verify toy sched 0 d2 \<sigma> \<lparr>PreProcessedParams = ppp, DoryParams = chain\<rparr> [1] [2]
          = Ret (Some ''first Dory proof invalid'')) \<and>
     (\<forall>sched d1. d1 mod 5 \<noteq> 0 \<and> 1 \<in> set sched \<longrightarrow>
        Verify toy sched d1 0 \<sigma> \<lparr>PreProcessedParams = ppp, DoryParams = chain\<rparr> [1] [2]
          = Ret (Some ''second Dory proof invalid''))"
proof -
  have pk: "G1_Mul toy (GenG1 toy) 2 \<in> set [2, 4]" by (simp add: toy_sel)
  have len: "length [2::5, 4] = 2 ^ 1" by simp
  obtain chain ppp \<sigma> where
    c: "GeneratePublicParams toy 2 = Ret chain"
    and p: "ComputePreProcessedParams toy chain [2, 4] = Ret ppp"
    and s: "Sign toy 3 1 (\<lambda>i. 2) 1 4 2 \<lparr>PreProcessedParams = ppp, DoryParams = chain\<rparr> [1] [2] [2, 4] = Ret \<sigma>"
    and v: "challenges_nonzero toy (DoryProof1 \<sigma>) \<and> challenges_nonzero toy (DoryProof2 \<sigma>) \<longrightarrow>
        (\<forall>sched d1 d2. d1 mod GroupOrder toy \<noteq> 0 \<and> d2 mod GroupOrder toy \<noteq> 0 \<longrightarrow>
           Verify toy sched d1 d2 \<sigma> \<lparr>PreProcessedParams = ppp, DoryParams = chain\<rparr> [1] [2] = Ret None) \<and>
        (chi (last chain) \<noteq> gt_one toy \<longrightarrow>
           (\<forall>sched d2. d2 mod GroupOrder toy \<noteq> 0 \<and> 0 \<in> set sched \<longrightarrow>
              Verify toy sched 0 d2 \<sigma> \<lparr>PreProcessedParams = ppp, DoryParams = chain\<rparr> [1] [2]
                = Ret (Some ''first Dory proof invalid'')) \<and>
           (\<forall>sched d1. d1 mod GroupOrder toy \<noteq> 0 \<and> 1 \<in> set sched \<longrightarrow>
              Verify toy sched d1 0 \<sigma> \<lparr>PreProcessedParams = ppp, DoryParams = chain\<rparr> [1] [2]
                = Ret (Some ''second Dory proof invalid'')))"
    using Sign_Verify[OF toy_curve_ok le_refl len pk, of 3 1 "\<lambda>i. 2" 1 4 "[1]" "[2]",
        unfolded power_one_right]
    by (elim exE conjE) (rule that)
  have chi: "chi (last chain) \<noteq> gt_one toy"
    using toy_chain2 c by (auto simp: toy_gt_one)
  have q: "GroupOrder toy = 5" by (simp add: toy_sel)
  show ?thesis
    using c p s v[unfolded q] toy_Sign_challenges[OF s] chi by blast
qed

text \<open>
  C1 (amended).  Let the ring have length \<open>n = 2 ^ k\<close> with \<open>k \<ge> 1\<close> and contain the public key
  \<open>g1 * sk\<close>; let the chain be \<open>GeneratePublicParams n\<close> and the preprocessed parameters be
  those of \<open>ComputePreProcessedParams\<close> for the chain and the ring.  Then, for every message
  and prefix and every choice of the random scalars of the signer (\<open>r\<close>, \<open>y\<close>, the challenges
  \<open>crand\<close>, \<open>ar\<close>, \<open>br\<close>), \<open>Sign\<close> returns a signature.  Provided that the Fiat-Shamir
  challenges of its two Dory proofs are nonzero modulo the group order:
  \<^item> \<open>Verify\<close> accepts the signature under every schedule of its tasks when the scalars
    \<open>d1\<close>, \<open>d2\<close> that the verifier draws in the two base cases are nonzero modulo the group
    order;
  \<^item> when \<open>\<chi>\<close> of the last level of the chain is not the unit of \<open>Gt\<close>, a verifier that draws
    \<open>0\<close> in the first base case and a nonzero scalar in the second returns
    \<^verbatim>\<open>first Dory proof invalid\<close>, and one that draws a nonzero scalar in the first and \<open>0\<close> in
    the second returns \<^verbatim>\<open>second Dory proof invalid\<close> (the task of that proof being part of
    the schedule, as it always is in the program).
\<close>

theorem ring_signature_completeness:
  fixes env :: "('g1, 'g2, 'gt, 'ml) curve"
  assumes "curve_ok env" and "1 \<le> k" and "length ring = 2 ^ k"
    and "G1_Mul env (GenG1 env) sk \<in> set ring"
  shows "\<exists>chain ppp \<sigma>.
     GeneratePublicParams env (2 ^ k) = Ret chain \<and>
     ComputePreProcessedParams env chain ring = Ret ppp \<and>
     Sign env r y crand ar br sk \<lparr>PreProcessedParams = ppp, DoryParams = chain\<rparr> m prefix ring = Ret \<sigma> \<and>
     (challenges_nonzero env (DoryProof1 \<sigma>) \<and> challenges_nonzero env (DoryProof2 \<sigma>) \<longrightarrow>
        (d1 mod GroupOrder env \<noteq> 0 \<and> d2 mod GroupOrder env \<noteq> 0 \<longrightarrow>
           Verify env sched d1 d2 \<sigma> \<lparr>PreProcessedParams = ppp, DoryParams = chain\<rparr> m prefix = Ret None) \<and>
        (chi (last chain) \<noteq> gt_one env \<and> d2 mod GroupOrder env \<noteq> 0 \<and> 0 \<in> set sched \<longrightarrow>
           Verify env sched 0 d2 \<sigma> \<lparr>PreProcessedParams = ppp, DoryParams = chain\<rparr> m prefix
             = Ret (Some ''first Dory proof invalid'')) \<and>
        (chi (last chain) \<noteq> gt_one env \<and> d1 mod GroupOrder env \<noteq> 0 \<and> 1 \<in> set sched \<longrightarrow>
           Verify env sched d1 0 \<sigma> \<lparr>PreProcessedParams = ppp, DoryParams = chain\<rparr> m prefix
             = Ret (Some ''second Dory proof invalid'')))"
proof -
  obtain chain ppp \<sigma> where
    c: "GeneratePublicParams env (2 ^ k) = Ret chain"
    and p: "ComputePreProcessedParams env chain ring = Ret ppp"
    and s: "Sign env r y crand ar br sk \<lparr>PreProcessedParams = ppp, DoryParams = chain\<rparr> m prefix ring = Ret \<sigma>"
    and v: "challenges_nonzero env (DoryProof1 \<sigma>) \<and> challenges_nonzero env (DoryProof2 \<sigma>) \<longrightarrow>
        (\<forall>sched d1 d2. d1 mod GroupOrder env \<noteq> 0 \<and> d2 mod GroupOrder env \<noteq> 0 \<longrightarrow>
           Verify env sched d1 d2 \<sigma> \<lparr>PreProcessedParams = ppp, DoryParams = chain\<rparr> m prefix = Ret None) \<and>
        (chi (last chain) \<noteq> gt_one env \<longrightarrow>
           (\<forall>sched d2. d2 mod GroupOrder env \<noteq> 0 \<and> 0 \<in> set sched \<longrightarrow>
              Verify env sched 0 d2 \<sigma> \<lparr>PreProcessedParams = ppp, DoryParams = chain\<rparr> m prefix
                = Ret (Some ''first Dory proof invalid'')) \<and>
           (\<forall>sched d1. d1 mod GroupOrder env \<noteq> 0 \<and> 1 \<in> set sched \<longrightarrow>
              Verify env sched d1 0 \<sigma> \<lparr>PreProcessedParams = ppp, DoryParams = chain\<rparr> m prefix
                = Ret (Some ''second Dory proof invalid'')))"
    using Sign_Verify[OF assms(1-4), of r y crand ar br m prefix]
    by (elim exE conjE) (rule that)
  have "challenges_nonzero env (DoryProof1 \<sigma>) \<and> challenges_nonzero env (DoryProof2 \<sigma>) \<longrightarrow>
        (d1 mod GroupOrder env \<noteq> 0 \<and> d2 mod GroupOrder env \<noteq> 0 \<longrightarrow>
           Verify env sched d1 d2 \<sigma> \<lparr>PreProcessedParams = ppp, DoryParams = chain\<rparr> m prefix = Ret None) \<and>
        (chi (last chain) \<noteq> gt_one env \<and> d2 mod GroupOrder env \<noteq> 0 \<and> 0 \<in> set sched \<longrightarrow>
           Verify env sched 0 d2 \<sigma> \<lparr>PreProcessedParams = ppp, DoryParams = chain\<rparr> m prefix
             = Ret (Some ''first Dory proof invalid'')) \<and>
        (chi (last chain) \<noteq> gt_one env \<and> d1 mod GroupOrder env \<noteq> 0 \<and> 1 \<in> set sched \<longrightarrow>
           Verify env sched d1 0 \<sigma> \<lparr>PreProcessedParams = ppp, DoryParams = chain\<rparr> m prefix
             = Ret (Some ''second Dory proof invalid''))"
    using v by simp
  then show ?thesis
    by (intro exI[of _ chain] exI[of _ ppp] exI[of _ \<sigma>] conjI c p s)
qed

theorem ring_signature_completeness_witness:
  "\<exists>chain ppp \<sigma>.
     GeneratePublicParams toy 2 = Ret chain \<and>
     ComputePreProcessedParams toy chain [2, 4] = Ret ppp \<and>
     Sign toy 3 1 (\<lambda>i. 2) 1 4 2 \<lparr>PreProcessedParams = ppp, DoryParams = chain\<rparr> [1] [2] [2, 4] = Ret \<sigma> \<and>
     Verify toy [0, 1, 2] 1 2 \<sigma> \<lparr>PreProcessedParams = ppp, DoryParams = chain\<rparr> [1] [2] = Ret None \<and>
     Verify toy [0, 1, 2] 0 2 \<sigma> \<lparr>PreProcessedParams = ppp, DoryParams = chain\<rparr> [1] [2]
       = Ret (Some ''first Dory proof invalid'') \<and>
     Verify toy [0, 1, 2] 1 0 \<sigma> \<lparr>PreProcessedParams = ppp, DoryParams = chain\<rparr> [1] [2]
       = Ret (Some ''second Dory proof invalid'')"
proof -
  have pk: "G1_Mul toy (GenG1 toy) 2 \<in> set [2, 4]" by (simp add: toy_sel)
  have len: "length [2::5, 4] = 2 ^ 1" by simp
  obtain chain ppp \<sigma> where
    c: "GeneratePublicParams toy 2 = Ret chain"
    and p: "ComputePreProcessedParams toy chain [2, 4] = Ret ppp"
    and s: "Sign toy 3 1 (\<lambda>i. 2) 1 4 2 \<lparr>PreProcessedParams = ppp, DoryParams = chain\<rparr> [1] [2] [2, 4] = Ret \<sigma>"
    and v: "challenges_nonzero toy (DoryProof1 \<sigma>) \<and> challenges_nonzero toy (DoryProof2 \<sigma>) \<longrightarrow>
        (1 mod GroupOrder toy \<noteq> 0 \<and> 2 mod GroupOrder toy \<noteq> 0 \<longrightarrow>
           Verify toy [0, 1, 2] 1 2 \<sigma> \<lparr>PreProcessedParams = ppp, DoryParams = chain\<rparr> [1] [2] = Ret None) \<and>
        (chi (last chain) \<noteq> gt_one toy \<and> 2 mod GroupOrder toy \<noteq> 0 \<and> 0 \<in> set [0, 1, 2::nat] \<longrightarrow>
           Verify toy [0, 1, 2] 0 2 \<sigma> \<lparr>PreProcessedParams = ppp, DoryParams = chain\<rparr> [1] [2]
             = Ret (Some ''first Dory proof invalid'')) \<and>
        (chi (last chain) \<noteq> gt_one toy \<and> 1 mod GroupOrder toy \<noteq> 0 \<and> 1 \<in> set [0, 1, 2::nat] \<longrightarrow>
           Verify toy [0, 1, 2] 1 0 \<sigma> \<lparr>PreProcessedParams = ppp, DoryParams = chain\<rparr> [1] [2]
             = Ret (Some ''second Dory proof invalid''))"
    using ring_signature_completeness[OF toy_curve_ok le_refl len pk,
        of 3 1 "\<lambda>i. 2" 1 4 "[1]" "[2]" 1 2 "[0, 1, 2]", unfolded power_one_right]
    by (elim exE conjE) (rule that)
  have chi: "chi (last chain) \<noteq> gt_one toy"
    using toy_chain2 c by (auto simp: toy_gt_one)
  have "Verify toy [0, 1, 2] 1 2 \<sigma> \<lparr>PreProcessedParams = ppp, DoryParams = chain\<rparr> [1] [2] = Ret None \<and>
     Verify toy [0, 1, 2] 0 2 \<sigma> \<lparr>PreProcessedParams = ppp, DoryParams = chain\<rparr> [1] [2]
       = Ret (Some ''first Dory proof invalid'') \<and>
     Verify toy [0, 1, 2] 1 0 \<sigma> \<lparr>PreProcessedParams = ppp, DoryParams = chain\<rparr> [1] [2]
       = Ret (Some ''second Dory proof invalid'')"
    using v toy_Sign_challenges[OF s] chi by (simp add: toy_sel)
  with c p s show ?thesis by blast
qed

text \<open>
  A verifier that draws \<open>d = 0\<close> in the base case of the first Dory proof (and \<open>1\<close> in the
  second) rejects the signature of an honest signer: with \<open>d = 0\<close> (and \<open>inverse 0 = 0\<close>) the
  check compares \<open>e(E1, E2)\<close> with \<open>\<chi> * C\<close>, and \<open>C = e(E1, E2)\<close> while \<open>\<chi>\<close> is not the unit.
\<close>

theorem ring_signature_counterexample:
  "rbind (GeneratePublicParams toy 2) (\<lambda>chain.
     rbind (ComputePreProcessedParams toy chain [2, 4]) (\<lambda>ppp.
       rbind (Sign toy 3 1 (\<lambda>i. 2) 1 4 2 \<lparr>PreProcessedParams = ppp, DoryParams = chain\<rparr> [1] [2] [2, 4])
         (\<lambda>\<sigma>. Verify toy [0, 1, 2] 0 1 \<sigma> \<lparr>PreProcessedParams = ppp, DoryParams = chain\<rparr> [1] [2])))
   = Ret (Some ''first Dory proof invalid'')"
proof -
  obtain chain ppp \<sigma> where
    c: "GeneratePublicParams toy 2 = Ret chain"
    and p: "ComputePreProcessedParams toy chain [2, 4] = Ret ppp"
    and s: "Sign toy 3 1 (\<lambda>i. 2) 1 4 2 \<lparr>PreProcessedParams = ppp, DoryParams = chain\<rparr> [1] [2] [2, 4] = Ret \<sigma>"
    and v: "\<forall>sched d2. d2 mod 5 \<noteq> 0 \<and> 0 \<in> set sched \<longrightarrow>
        Verify toy sched 0 d2 \<sigma> \<lparr>PreProcessedParams = ppp, DoryParams = chain\<rparr> [1] [2]
          = Ret (Some ''first Dory proof invalid'')"
    using toy_Sign_Verify by (elim exE conjE) (rule that)
  have "Verify toy [0, 1, 2] 0 1 \<sigma> \<lparr>PreProcessedParams = ppp, DoryParams = chain\<rparr> [1] [2]
                = Ret (Some ''first Dory proof invalid'')"
    using v by simp
  then show ?thesis by (simp add: c p s)
qed


text \<open>
  C7.  \<open>Verify\<close> is not total.  When the first Dory proof carries no \<open>Step1Elements\<close> and the
  chain has at least two levels, \<open>verifyReduce\<close> reads \<open>fromProver1[0]\<close> without checking
  the length, and the program stops with an index out of range instead of returning an
  error.
\<close>

theorem verify_short_proof_panics:
  assumes "scalars_ok env" and "Step1Elements (DoryProof1 rs) = []"
    and "DoryParams pp = p0 # p1 # ps"
  shows "Verify env sched d1 d2 rs pp m prefix = Panic ''index out of range''"
proof -
  obtain h where h: "hashToZr env [Gt_Bytes env (Gt_Mul env (e env (TagCommitment rs)
        (ppp_Gamma2 (PreProcessedParams pp))) (A0Inverse (PreProcessedParams pp))),
        G1_Bytes env (rs_Y rs), ppp_digest (PreProcessedParams pp)] = Ret h"
    using hashToZr_Ret[OF assms(1)] by blast
  show ?thesis
    unfolding Verify_def Let_def h
    by (simp add: VerifyReduce_def assms(2,3) index0_def)
qed

lemma list_len2: "length xs = 2 \<Longrightarrow> \<exists>a b. xs = [a, b]"
  by (cases xs; cases "tl xs") auto

theorem verify_short_proof_panics_witness:
  "\<exists>chain. GeneratePublicParams toy 2 = Ret chain \<and>
     Verify toy [0, 1, 2] 1 1 (toy_sig 1)
       \<lparr>PreProcessedParams = PreProcessedParams toy_empty_params, DoryParams = chain\<rparr> [] []
     = Panic ''index out of range''"
proof -
  obtain chain where c: "GeneratePublicParams toy 2 = Ret chain" "length chain = 2"
    using GeneratePublicParams_ok[of toy 1] by auto
  obtain a b where ab: "chain = [a, b]" using list_len2[OF c(2)] by blast
  have "Verify toy [0, 1, 2] 1 1 (toy_sig 1)
       \<lparr>PreProcessedParams = PreProcessedParams toy_empty_params, DoryParams = chain\<rparr> [] []
     = Panic ''index out of range''"
    using verify_short_proof_panics[of toy "toy_sig 1"
       "\<lparr>PreProcessedParams = PreProcessedParams toy_empty_params, DoryParams = chain\<rparr>" a b "[]"
       "[0, 1, 2]" 1 1 "[]" "[]"] toy_scalars_ok
    by (simp add: ab toy_sig_def toy_empty_proof_def)
  then show ?thesis using c(1) by blast
qed

section \<open>The errors of verification\<close>

lemma Verify_errors:
  assumes "Verify env sched d1 d2 rs pp m prefix = Ret (Some err)"
  shows "err = ''first Dory proof invalid'' \<or> err = ''second Dory proof invalid'' \<or>
         err = ''tag proof invalid''"
proof -
  from assms obtain errs where
    a: "atomicErr_final sched errs = Some err"
    and e: "\<And>t. errs t = None \<or> errs t = Some ''first Dory proof invalid'' \<or>
                 errs t = Some ''second Dory proof invalid'' \<or> errs t = Some ''tag proof invalid''"
    unfolding Verify_def Let_def
    by (auto elim!: rbind_RetE split: option.splits)
  from atomicErr_final_Some[OF a] obtain t where "errs t = Some err" by blast
  with e[of t] show ?thesis by auto
qed

lemma Verify_tag_only:
  assumes v: "Verify env sched d1 d2 rs pp m prefix = Ret None" and s: "2 \<in> set sched"
    and dg: "Proof_Digest env (DoryProof1 rs) = Ret dg1" "Proof_Digest env (DoryProof2 rs) = Ret dg2"
    and t: "tag_Proof_Verify env (TagProof rs) (TagValue rs) (TagCommitment rs) prefix [m', dg1, dg2]
              = Ret (Some x)"
  shows "Verify env sched d1 d2 rs pp m' prefix = Ret (Some ''tag proof invalid'')"
proof -
  define A where "A = Gt_Mul env (e env (TagCommitment rs) (ppp_Gamma2 (PreProcessedParams pp)))
                (A0Inverse (PreProcessedParams pp))"
  define C where "C = e env (G1_Sub env (G1_Mul env (H env) (rs_Z rs)) (rs_Y rs)) (GenG2 env)"
  define ins where "ins = [Gt_Bytes env A, G1_Bytes env (rs_Y rs), ppp_digest (PreProcessedParams pp)]"
  define r1 where "r1 h = VerifyReduce env d1 (DoryParams pp)
                   \<lparr>cmt_C = C, cmt_D1 = A, cmt_D2 = rs_B rs\<rparr> (DoryProof1 rs)" for h :: int
  define r2 where "r2 h = VerifyReduce env d2 (DoryParams pp)
                   \<lparr>cmt_C = e env (G1_Mul env (H env) h) (GenG2 env),
                    cmt_D1 = ppp_D (PreProcessedParams pp), cmt_D2 = rs_B rs\<rparr> (DoryProof2 rs)" for h
  define errs where "errs e1 e2 e3 = (\<lambda>t::nat. if t = 0 then (case e1 of None \<Rightarrow> None
                                       | Some (_::string) \<Rightarrow> Some ''first Dory proof invalid'')
                       else if t = 1 then (case e2 of None \<Rightarrow> None
                                       | Some (_::string) \<Rightarrow> Some ''second Dory proof invalid'')
                       else if t = 2 then (case e3 of None \<Rightarrow> None
                                       | Some (_::string) \<Rightarrow> Some ''tag proof invalid'')
                       else None)" for e1 e2 e3
  have V: "Verify env sched d1 d2 rs pp mm prefix =
      rbind (hashToZr env ins) (\<lambda>h.
        rbind (r1 h) (\<lambda>e1. rbind (r2 h) (\<lambda>e2.
        rbind (tag_Proof_Verify env (TagProof rs) (TagValue rs) (TagCommitment rs) prefix [mm, dg1, dg2])
          (\<lambda>e3. Ret (atomicErr_final sched (errs e1 e2 e3))))))" for mm
    unfolding Verify_def Let_def A_def C_def ins_def r1_def r2_def errs_def
    by (simp add: dg)
  from v[unfolded V] obtain h e1 e2 e3 where
    h: "hashToZr env ins = Ret h" and e1: "r1 h = Ret e1" and e2: "r2 h = Ret e2"
    and n: "atomicErr_final sched (errs e1 e2 e3) = None"
    by (auto elim!: rbind_RetE)
  have z: "errs e1 e2 (Some x) t = None" if "t \<in> set sched" "t \<noteq> 2" for t
  proof -
    have "errs e1 e2 e3 t = None" by (rule atomicErr_final_eq_None[OF n that(1)])
    then show ?thesis using that(2) by (auto simp: errs_def split: if_splits)
  qed
  have "atomicErr_final sched (errs e1 e2 (Some x)) = Some ''tag proof invalid''"
    by (rule atomicErr_final_single[OF s _ z]) (simp_all add: errs_def)
  then show ?thesis
    unfolding V by (simp add: h e1 e2 t)
qed

lemma uint_Uint64_last:
  "uint (Uint64 (replicate 7 0 @ [b]) mod 3486998266802970665) = uint b"
proof -
  have r: "replicate 7 (0::byte) @ [b] = [0, 0, 0, 0, 0, 0, 0, b]"
    by (simp add: numeral_eq_Suc)
  have "uint (Uint64 (replicate 7 0 @ [b])) = uint b"
    unfolding r Uint64_be by (simp add: be_int_def)
  moreover have "uint b < 256" using uint_lt2p[of b] by simp
  ultimately show ?thesis
    by (simp add: uint_mod)
qed

lemma toy_hashToZr:
  "hashToZr toy ins = Ret (1 + uint (foldl (+) 0 (concat ins)) mod 4)"
  by (simp add: hashToZr_def FieldElementFromBytes_def toy_sel feFrom256Bits_limbs uint_Uint64_last)

lemma foldl_plus_byte: "foldl (+) (a::byte) xs = a + sum_list xs"
  by (induction xs arbitrary: a) (simp_all add: ac_simps)

lemma byte_succ_mod4: "uint (b + 1 :: byte) mod 4 = (uint b mod 4 + 1) mod 4"
proof -
  have "uint (b + 1) = (uint b + 1) mod 256"
    by (simp add: uint_word_ariths)
  moreover have "(uint b + 1) mod 256 mod 4 = (uint b + 1) mod 4"
    by (rule mod_mod_cancel) simp
  ultimately show ?thesis by (simp add: mod_simps)
qed

lemma toy_tag_tamper:
  assumes "tag_NewProof toy 1 4 [2] 2 \<lparr>w_R = 3\<rparr> [[1], dg1, dg2] = Ret \<pi>t"
  shows "tag_Proof_Verify toy \<pi>t (Tag toy 2 [2]) com [2] [[2], dg1, dg2]
           = Ret (Some ''tag proof mismatch'')"
proof -
  define A :: 5 where "A = G1_Mul toy (HashToG1 toy (sha256 toy [2])) 1"
  define B :: 5 where "B = G1_Add toy (G1_Mul toy (GenG1 toy) 1) (G1_Mul toy (H toy) 4)"
  define b where "b = foldl (+) 0 (concat (buildHashContext toy A B [[1], dg1, dg2]))"
  define b' where "b' = foldl (+) 0 (concat (buildHashContext toy A B [[2], dg1, dg2]))"
  define x where "x = uint b mod 4"
  have bb: "b' = b + 1"
    by (simp add: b_def b'_def buildHashContext_def foldl_plus_byte)
  have c: "hashToZr toy (buildHashContext toy A B [[1], dg1, dg2]) = Ret (1 + x)"
    by (simp add: toy_hashToZr b_def x_def)
  have c': "hashToZr toy (buildHashContext toy A B [[2], dg1, dg2]) = Ret (1 + (x + 1) mod 4)"
    by (simp add: toy_hashToZr b'_def[symmetric] bb byte_succ_mod4 x_def)
  have p: "\<pi>t = \<lparr>tp_A = A, tp_B = B, tp_a = Zr_Plus 1 (Zr_Mul toy 2 (1 + x)),
                  tp_b = Zr_Plus 4 (Zr_Mul toy 3 (1 + x))\<rparr>"
    using assms unfolding tag_NewProof_def Let_def A_def[symmetric] B_def[symmetric]
    by (simp add: c)
  have hp: "HashToG1 toy (sha256 toy [2]) = 4"
    by (simp add: toy_sel)
  have x4: "x = 0 \<or> x = 1 \<or> x = 2 \<or> x = 3"
  proof -
    have "0 \<le> x" "x < 4" by (simp_all add: x_def)
    then show ?thesis by arith
  qed
  have ne: "G1_Mul toy (HashToG1 toy (sha256 toy [2])) (Zr_Plus 1 (Zr_Mul toy 2 (1 + x)))
          \<noteq> G1_Add toy (G1_Mul toy (Tag toy 2 [2]) (1 + (x + 1) mod 4)) A"
    using x4
    by (elim disjE) (simp_all add: A_def Tag_def hp toy_sel Zr_Plus_def Zr_Mul_def)
  show ?thesis
    unfolding tag_Proof_Verify_def Let_def
    using ne by (simp add: p c')
qed

lemma Sign_tag:
  assumes "Sign env r y crand ar br sk pp m prefix ring = Ret \<sigma>"
  shows "\<exists>dg1 dg2. Proof_Digest env (DoryProof1 \<sigma>) = Ret dg1 \<and>
                   Proof_Digest env (DoryProof2 \<sigma>) = Ret dg2 \<and>
                   tag_NewProof env ar br prefix sk \<lparr>w_R = r\<rparr> [m, dg1, dg2] = Ret (TagProof \<sigma>) \<and>
                   TagValue \<sigma> = Tag env sk prefix"
  using assms unfolding Sign_def Let_def
  by (auto elim!: rbind_RetE split: prod.splits simp: tag_Commit_def Let_def)

lemma toy_tamper_facts:
  "\<exists>chain ppp \<sigma> dg1 dg2.
     GeneratePublicParams toy 2 = Ret chain \<and>
     ComputePreProcessedParams toy chain [2, 4] = Ret ppp \<and>
     Sign toy 3 1 (\<lambda>i. 2) 1 4 2 \<lparr>PreProcessedParams = ppp, DoryParams = chain\<rparr> [1] [2] [2, 4] = Ret \<sigma> \<and>
     Verify toy [0, 1, 2] 1 2 \<sigma> \<lparr>PreProcessedParams = ppp, DoryParams = chain\<rparr> [1] [2] = Ret None \<and>
     Proof_Digest toy (DoryProof1 \<sigma>) = Ret dg1 \<and> Proof_Digest toy (DoryProof2 \<sigma>) = Ret dg2 \<and>
     tag_Proof_Verify toy (TagProof \<sigma>) (TagValue \<sigma>) (TagCommitment \<sigma>) [2] [[2], dg1, dg2]
       = Ret (Some ''tag proof mismatch'')"
proof -
  obtain chain ppp \<sigma> where
    c: "GeneratePublicParams toy 2 = Ret chain"
    and p: "ComputePreProcessedParams toy chain [2, 4] = Ret ppp"
    and s: "Sign toy 3 1 (\<lambda>i. 2) 1 4 2 \<lparr>PreProcessedParams = ppp, DoryParams = chain\<rparr> [1] [2] [2, 4] = Ret \<sigma>"
    and v: "\<forall>sched d1 d2. d1 mod 5 \<noteq> 0 \<and> d2 mod 5 \<noteq> 0 \<longrightarrow>
        Verify toy sched d1 d2 \<sigma> \<lparr>PreProcessedParams = ppp, DoryParams = chain\<rparr> [1] [2] = Ret None"
    using toy_Sign_Verify by (elim exE conjE) (rule that)
  have V: "Verify toy [0, 1, 2] 1 2 \<sigma> \<lparr>PreProcessedParams = ppp, DoryParams = chain\<rparr> [1] [2] = Ret None"
    using v by simp
  obtain dg1 dg2 where d: "Proof_Digest toy (DoryProof1 \<sigma>) = Ret dg1"
    "Proof_Digest toy (DoryProof2 \<sigma>) = Ret dg2"
    "tag_NewProof toy 1 4 [2] 2 \<lparr>w_R = 3\<rparr> [[1], dg1, dg2] = Ret (TagProof \<sigma>)"
    "TagValue \<sigma> = Tag toy 2 [2]"
    using Sign_tag[OF s] by blast
  have "tag_Proof_Verify toy (TagProof \<sigma>) (TagValue \<sigma>) (TagCommitment \<sigma>) [2] [[2], dg1, dg2]
       = Ret (Some ''tag proof mismatch'')"
    unfolding d(4) by (rule toy_tag_tamper[OF d(3)])
  then show ?thesis using c p s V d(1,2) by blast
qed

text \<open>
  C5 (amended).  An error that \<open>Verify\<close> returns is one of the three strings
  \<^verbatim>\<open>first Dory proof invalid\<close>, \<^verbatim>\<open>second Dory proof invalid\<close> and \<^verbatim>\<open>tag proof invalid\<close>: the
  two errors of the tag proof, \<^verbatim>\<open>tag proof mismatch\<close> and \<^verbatim>\<open>commitment proof mismatch\<close>, are
  replaced by the third.  When a signature is accepted for a message \<open>m\<close> and its tag proof
  fails for a message \<open>m'\<close> (the Dory proofs do not depend on the message), \<open>Verify\<close> returns
  \<^verbatim>\<open>tag proof invalid\<close> for \<open>m'\<close>, whenever the tag check is among the tasks of the schedule.
\<close>

theorem verify_error_taxonomy:
  "(Verify env sched d1 d2 rs pp m prefix = Ret (Some err) \<longrightarrow>
      err = ''first Dory proof invalid'' \<or> err = ''second Dory proof invalid'' \<or>
      err = ''tag proof invalid'') \<and>
   (Verify env sched d1 d2 rs pp m prefix = Ret None \<and> 2 \<in> set sched \<and>
    Proof_Digest env (DoryProof1 rs) = Ret dg1 \<and> Proof_Digest env (DoryProof2 rs) = Ret dg2 \<and>
    tag_Proof_Verify env (TagProof rs) (TagValue rs) (TagCommitment rs) prefix [m', dg1, dg2]
      = Ret (Some x) \<longrightarrow>
      Verify env sched d1 d2 rs pp m' prefix = Ret (Some ''tag proof invalid''))"
proof (intro conjI impI)
  assume "Verify env sched d1 d2 rs pp m prefix = Ret (Some err)"
  then show "err = ''first Dory proof invalid'' \<or> err = ''second Dory proof invalid'' \<or>
      err = ''tag proof invalid''"
    by (rule Verify_errors)
next
  assume a: "Verify env sched d1 d2 rs pp m prefix = Ret None \<and> 2 \<in> set sched \<and>
    Proof_Digest env (DoryProof1 rs) = Ret dg1 \<and> Proof_Digest env (DoryProof2 rs) = Ret dg2 \<and>
    tag_Proof_Verify env (TagProof rs) (TagValue rs) (TagCommitment rs) prefix [m', dg1, dg2]
      = Ret (Some x)"
  show "Verify env sched d1 d2 rs pp m' prefix = Ret (Some ''tag proof invalid'')"
    by (rule Verify_tag_only[of env sched d1 d2 rs pp m prefix dg1 dg2 m' x]) (use a in simp_all)
qed

theorem verify_error_taxonomy_witness:
  "\<exists>chain ppp \<sigma>.
     GeneratePublicParams toy 2 = Ret chain \<and>
     ComputePreProcessedParams toy chain [2, 4] = Ret ppp \<and>
     Sign toy 3 1 (\<lambda>i. 2) 1 4 2 \<lparr>PreProcessedParams = ppp, DoryParams = chain\<rparr> [1] [2] [2, 4] = Ret \<sigma> \<and>
     Verify toy [0, 1, 2] 1 2 \<sigma> \<lparr>PreProcessedParams = ppp, DoryParams = chain\<rparr> [1] [2] = Ret None \<and>
     Verify toy [0, 1, 2] 1 2 \<sigma> \<lparr>PreProcessedParams = ppp, DoryParams = chain\<rparr> [2] [2]
       = Ret (Some ''tag proof invalid'') \<and>
     (''tag proof invalid'' = ''first Dory proof invalid'' \<or>
      ''tag proof invalid'' = ''second Dory proof invalid'' \<or>
      ''tag proof invalid'' = ''tag proof invalid'')"
proof -
  obtain chain ppp \<sigma> dg1 dg2 where f:
    "GeneratePublicParams toy 2 = Ret chain"
    "ComputePreProcessedParams toy chain [2, 4] = Ret ppp"
    "Sign toy 3 1 (\<lambda>i. 2) 1 4 2 \<lparr>PreProcessedParams = ppp, DoryParams = chain\<rparr> [1] [2] [2, 4] = Ret \<sigma>"
    "Verify toy [0, 1, 2] 1 2 \<sigma> \<lparr>PreProcessedParams = ppp, DoryParams = chain\<rparr> [1] [2] = Ret None"
    "Proof_Digest toy (DoryProof1 \<sigma>) = Ret dg1" "Proof_Digest toy (DoryProof2 \<sigma>) = Ret dg2"
    "tag_Proof_Verify toy (TagProof \<sigma>) (TagValue \<sigma>) (TagCommitment \<sigma>) [2] [[2], dg1, dg2]
       = Ret (Some ''tag proof mismatch'')"
    using toy_tamper_facts by (elim exE conjE) (rule that)
  have t: "Verify toy [0, 1, 2] 1 2 \<sigma> \<lparr>PreProcessedParams = ppp, DoryParams = chain\<rparr> [2] [2]
       = Ret (Some ''tag proof invalid'')"
    using verify_error_taxonomy[of toy "[0, 1, 2]" 1 2 \<sigma>
        "\<lparr>PreProcessedParams = ppp, DoryParams = chain\<rparr>" "[1]" "[2]" "''tag proof invalid''"
        dg1 dg2 "[2]" "''tag proof mismatch''"] f
    by simp
  have "''tag proof invalid'' = ''first Dory proof invalid'' \<or>
      ''tag proof invalid'' = ''second Dory proof invalid'' \<or>
      ''tag proof invalid'' = ''tag proof invalid''"
    using verify_error_taxonomy[of toy "[0, 1, 2]" 1 2 \<sigma>
        "\<lparr>PreProcessedParams = ppp, DoryParams = chain\<rparr>" "[2]" "[2]" "''tag proof invalid''"
        dg1 dg2 "[2]" "''tag proof mismatch''"] t
    by simp
  with f t show ?thesis by blast
qed

text \<open>
  A signature of the message \<open>[1]\<close>, verified against the message \<open>[2]\<close>: the tag proof
  fails with \<^verbatim>\<open>tag proof mismatch\<close>, and \<open>Verify\<close> returns \<^verbatim>\<open>tag proof invalid\<close>.
\<close>

theorem verify_error_taxonomy_counterexample:
  "rbind (GeneratePublicParams toy 2) (\<lambda>chain.
     rbind (ComputePreProcessedParams toy chain [2, 4]) (\<lambda>ppp.
       rbind (Sign toy 3 1 (\<lambda>i. 2) 1 4 2 \<lparr>PreProcessedParams = ppp, DoryParams = chain\<rparr> [1] [2] [2, 4])
         (\<lambda>\<sigma>. Verify toy [0, 1, 2] 1 2 \<sigma> \<lparr>PreProcessedParams = ppp, DoryParams = chain\<rparr> [2] [2])))
   = Ret (Some ''tag proof invalid'')"
proof -
  obtain chain ppp \<sigma> dg1 dg2 where f:
    "GeneratePublicParams toy 2 = Ret chain"
    "ComputePreProcessedParams toy chain [2, 4] = Ret ppp"
    "Sign toy 3 1 (\<lambda>i. 2) 1 4 2 \<lparr>PreProcessedParams = ppp, DoryParams = chain\<rparr> [1] [2] [2, 4] = Ret \<sigma>"
    "Verify toy [0, 1, 2] 1 2 \<sigma> \<lparr>PreProcessedParams = ppp, DoryParams = chain\<rparr> [1] [2] = Ret None"
    "Proof_Digest toy (DoryProof1 \<sigma>) = Ret dg1" "Proof_Digest toy (DoryProof2 \<sigma>) = Ret dg2"
    "tag_Proof_Verify toy (TagProof \<sigma>) (TagValue \<sigma>) (TagCommitment \<sigma>) [2] [[2], dg1, dg2]
       = Ret (Some ''tag proof mismatch'')"
    using toy_tamper_facts by (elim exE conjE) (rule that)
  have "Verify toy [0, 1, 2] 1 2 \<sigma> \<lparr>PreProcessedParams = ppp, DoryParams = chain\<rparr> [2] [2]
       = Ret (Some ''tag proof invalid'')"
    by (rule Verify_tag_only[OF f(4) _ f(5,6,7)]) simp
  then show ?thesis by (simp add: f(1,2,3))
qed

section \<open>Properties of threshold verification\<close>

lemma foldl_insert_image: "foldl (\<lambda>tags \<sigma>. insert (f \<sigma>) tags) T xs = T \<union> f ` set xs"
  by (induction xs arbitrary: T) auto

lemma collect_tags_set:
  "collect_tags env sigs = set (map (\<lambda>\<sigma>. G1_Bytes env (TagValue \<sigma>)) sigs)"
  by (simp add: collect_tags_def foldl_insert_image)

lemma decimal_1: "decimal (Suc 0) = ''1''"
  by (simp add: decimal.simps)

lemma decimal_2: "decimal 2 = ''2''"
  by (simp add: decimal.simps)

text \<open>
  C10.  Called with no signature, \<open>VerifyThresholdSignatures\<close> returns \<^verbatim>\<open>nil\<close>, whatever
  the public parameters, the message and the prefix are: the map of tags is empty, no
  verification is started, and the error slot is never written.
\<close>

theorem empty_threshold_set_verifies:
  "VerifyThresholdSignatures env sched vsched d1s d2s pp msg prefix [] = Ret None"
  by (simp add: VerifyThresholdSignatures_def collect_tags_def rbind_def atomicErr_final_None)


text \<open>
  C4.  Two copies of one signature are rejected with the message
  \<^verbatim>\<open>signature set was signed by 1 out of 2 distinct signers\<close>, whatever the parameters,
  the message and the prefix are.  More generally, when the encodings of the tags of
  \<open>k\<close> signatures have \<open>d < k\<close> distinct values, the error returned is
  \<^verbatim>\<open>signature set was signed by d out of k distinct signers\<close>, with \<open>d\<close> and \<open>k\<close> in decimal.
\<close>

theorem threshold_duplicate_rejection:
  "VerifyThresholdSignatures env sched vsched d1s d2s pp msg prefix [\<sigma>, \<sigma>]
     = Ret (Some ''signature set was signed by 1 out of 2 distinct signers'')
   \<and> (card (set (map (\<lambda>\<sigma>. G1_Bytes env (TagValue \<sigma>)) sigs)) < length sigs \<longrightarrow>
      VerifyThresholdSignatures env sched vsched d1s d2s pp msg prefix sigs
        = Ret (Some (''signature set was signed by ''
             @ fmt_d (int (card (set (map (\<lambda>\<sigma>. G1_Bytes env (TagValue \<sigma>)) sigs))))
             @ '' out of '' @ fmt_d (int (length sigs)) @ '' distinct signers'')))"
  by (simp add: VerifyThresholdSignatures_def collect_tags_set fmt_d_def decimal_1 decimal_2)

lemma toy_tag_bytes: "G1_Bytes toy (TagValue (toy_sig t)) = [word_of_int (Rep_bit1 t)]"
  by (simp add: toy_def toy_sig_def)

theorem threshold_duplicate_rejection_witness:
  "VerifyThresholdSignatures toy [] (\<lambda>i. []) (\<lambda>i. 1) (\<lambda>i. 1) toy_empty_params [] []
     [toy_sig 1, toy_sig 2, toy_sig 1]
   = Ret (Some ''signature set was signed by 2 out of 3 distinct signers'')"
proof -
  have tags: "set (map (\<lambda>\<sigma>. G1_Bytes toy (TagValue \<sigma>)) [toy_sig 1, toy_sig 2, toy_sig 1])
                = {[1], [2]}"
    by (auto simp: toy_tag_bytes bit1.Rep_1 bit1.Rep_numeral)
  have card: "card (set (map (\<lambda>\<sigma>. G1_Bytes toy (TagValue \<sigma>)) [toy_sig 1, toy_sig 2, toy_sig 1])) = 2"
    unfolding tags by simp
  have d3: "decimal 3 = ''3''" by (simp add: decimal.simps)
  show ?thesis
    using threshold_duplicate_rejection[of toy "[]" "\<lambda>i. []" "\<lambda>i. 1" "\<lambda>i. 1" toy_empty_params
        "[]" "[]" "toy_sig 1" "[toy_sig 1, toy_sig 2, toy_sig 1]"]
    unfolding card by (simp add: fmt_d_def decimal_2 d3)
qed

end
